theory Spec2Isabelle
  imports Complex_Main
begin

section \<open>Ledger and inventory reconciliation of the billing backend\<close>

text \<open>
  A shallow embedding of the purchase routes (\<^verbatim>\<open>src/routes/party.js\<close>, second part),
  the payment routes (\<^verbatim>\<open>src/unnamed/part_003\<close>) and the payment model
  (\<^verbatim>\<open>src/models/Payment.js\<close>).

  Conventions of the embedding:
  \<^item> a MongoDB collection is the list of its documents in insertion order; \<^verbatim>\<open>findById\<close> and
    \<^verbatim>\<open>findOne\<close> return the first match, \<^verbatim>\<open>save\<close> of a loaded document replaces the first
    document carrying its \<^verbatim>\<open>_id\<close>;
  \<^item> an \<^verbatim>\<open>ObjectId\<close> is a natural number, a fresh one is drawn from a counter of the store;
  \<^item> a JavaScript number is the rational it stands for. The arithmetic the routes do on
    numbers (the kg and bags of the stock loops, the difference of two totals) rounds each
    result to the nearest IEEE double, ties to even; infinities and \<^verbatim>\<open>NaN\<close>, which need
    magnitudes beyond 1.7e308, are not represented. The arithmetic of the party model and the
    total of a purchase, whose files are not among the sources, are exact, as the
    specification words them;
  \<^item> a request field that may be absent is an \<open>option\<close>, \<open>None\<close> standing for \<^verbatim>\<open>undefined\<close>;
  \<^item> a thrown exception is the \<open>Inl\<close> branch of a sum; a handler returns its HTTP response
    together with the store as it stands when the response is sent.
\<close>

subsection \<open>Strings\<close>

type_synonym oid = nat

definition is_space :: "char \<Rightarrow> bool" where
  "is_space c = (c \<in> set [CHR 0x09, CHR 0x0A, CHR 0x0B, CHR 0x0C, CHR 0x0D, CHR 0x20])"

definition is_digit :: "char \<Rightarrow> bool" where
  "is_digit c = (c \<in> set ''0123456789'')"

text \<open>\<^verbatim>\<open>String.prototype.trim\<close>, the setter behind \<^verbatim>\<open>trim: true\<close>.\<close>

definition trim :: "string \<Rightarrow> string" where
  "trim s = rev (dropWhile is_space (rev (dropWhile is_space s)))"

definition startsWith :: "string \<Rightarrow> string \<Rightarrow> bool" where
  "startsWith s p = (take (length p) s = p)"

text \<open>JavaScript truthiness of a string that may be undefined: \<^verbatim>\<open>!s\<close> holds for
  \<^verbatim>\<open>undefined\<close> and for the empty string.\<close>

fun falsy_str :: "string option \<Rightarrow> bool" where
  "falsy_str None = True"
| "falsy_str (Some s) = (s = [])"

fun falsy_num :: "rat option \<Rightarrow> bool" where
  "falsy_num None = True"
| "falsy_num (Some n) = (n = 0)"

text \<open>The binary comparison MongoDB sorts strings by: the first differing character
  decides, by its code; a proper prefix comes first.\<close>

fun str_less :: "string \<Rightarrow> string \<Rightarrow> bool" where
  "str_less [] [] = False"
| "str_less [] (b # bs) = True"
| "str_less (a # as) [] = False"
| "str_less (a # as) (b # bs) =
     (if a = b then str_less as bs else (of_char a :: nat) < of_char b)"

text \<open>\<^verbatim>\<open>parseInt(digits, 10)\<close> on a string of decimal digits, and the decimal rendering of
  a number inside a template literal.\<close>

definition digit_val :: "char \<Rightarrow> nat" where
  "digit_val c = of_char c - 48"

definition parseInt :: "string \<Rightarrow> nat" where
  "parseInt ds = foldl (\<lambda>a c. 10 * a + digit_val c) 0 ds"

definition digit_char :: "nat \<Rightarrow> char" where
  "digit_char d = ''0123456789'' ! (d mod 10)"

fun show_nat :: "nat \<Rightarrow> string" where
  "show_nat n = (if n < 10 then [digit_char n] else show_nat (n div 10) @ [digit_char n])"

declare show_nat.simps [simp del]

text \<open>\<^verbatim>\<open>/^\+?[1-9]\d{1,14}$/.test(v.replace(/\s/g, ''))\<close>, the validator of
  \<^verbatim>\<open>phoneNumber\<close>.\<close>

definition phone_regex :: "string \<Rightarrow> bool" where
  "phone_regex s =
     (let t = (case s of c # r \<Rightarrow> if c = CHR ''+'' then r else s | [] \<Rightarrow> s)
      in case t of
           [] \<Rightarrow> False
         | c # r \<Rightarrow> c \<in> set ''123456789'' \<and> list_all is_digit r \<and> 1 \<le> length r \<and> length r \<le> 14)"

definition validate_phone :: "string \<Rightarrow> bool" where
  "validate_phone v = phone_regex (filter (\<lambda>c. \<not> is_space c) v)"

text \<open>\<^verbatim>\<open>/^\d{1,2}\/\d{1,2}\/\d{4}$/\<close>, the \<^verbatim>\<open>match\<close> of \<^verbatim>\<open>date\<close>.\<close>

definition date_regex :: "string \<Rightarrow> bool" where
  "date_regex s =
     (let d1 = takeWhile is_digit s; r1 = dropWhile is_digit s
      in (length d1 = 1 \<or> length d1 = 2) \<and>
         (case r1 of
            [] \<Rightarrow> False
          | c # r1' \<Rightarrow>
              c = CHR ''/'' \<and>
              (let d2 = takeWhile is_digit r1'; r2 = dropWhile is_digit r1'
               in (length d2 = 1 \<or> length d2 = 2) \<and>
                  (case r2 of
                     [] \<Rightarrow> False
                   | c' # r3 \<Rightarrow> c' = CHR ''/'' \<and> length r3 = 4 \<and> list_all is_digit r3))))"

text \<open>The phone sanitising of the pre-save hook:
  \<^verbatim>\<open>replace(/[^\d+]/g, '')\<close>, then \<^verbatim>\<open>'+91'\<close> in front unless the number starts with
  \<^verbatim>\<open>'+'\<close>.\<close>

definition sanitize_phone :: "string \<Rightarrow> string" where
  "sanitize_phone s =
     (let t = filter (\<lambda>c. is_digit c \<or> c = CHR ''+'') s
      in if startsWith t ''+'' then t else ''+91'' @ t)"

subsection \<open>Numbers\<close>

text \<open>The number of binary digits of a natural number.\<close>

fun bit_length :: "nat \<Rightarrow> nat" where
  "bit_length n = (if n = 0 then 0 else Suc (bit_length (n div 2)))"

declare bit_length.simps [simp del]

definition pow2 :: "int \<Rightarrow> rat" where
  "pow2 k = (if 0 \<le> k then 2 ^ nat k else 1 / 2 ^ nat (- k))"

text \<open>The binary exponent of a positive rational: the \<open>k\<close> with
  \<open>pow2 k \<le> x < pow2 (k + 1)\<close>.\<close>

definition ilog2 :: "rat \<Rightarrow> int" where
  "ilog2 x =
     (if 1 \<le> x then int (bit_length (nat \<lfloor>x\<rfloor>)) - 1
      else (let k = int (bit_length (nat \<lfloor>1 / x\<rfloor>))
            in if pow2 (1 - k) \<le> x then 1 - k else - k))"

text \<open>The nearest integer, a tie going to the even one.\<close>

definition round_half_even :: "rat \<Rightarrow> int" where
  "round_half_even x =
     (let n = \<lfloor>x\<rfloor>; r = x - of_int n
      in if r < 1 / 2 then n else if 1 / 2 < r then n + 1 else if even n then n else n + 1)"

text \<open>The nearest IEEE double (binary64: 53 significant bits, exponents from -1022,
  subnormal numbers below) of a rational.\<close>

definition round_double :: "rat \<Rightarrow> rat" where
  "round_double x =
     (if x = 0 then 0
      else (let ulp = pow2 (max (ilog2 \<bar>x\<bar>) (- 1022) - 52)
            in of_int (round_half_even (x / ulp)) * ulp))"

text \<open>The JavaScript operators \<^verbatim>\<open>+\<close>, \<^verbatim>\<open>-\<close> and \<^verbatim>\<open>/\<close> on numbers.\<close>

definition num_add :: "rat \<Rightarrow> rat \<Rightarrow> rat" where
  "num_add x y = round_double (x + y)"

definition num_sub :: "rat \<Rightarrow> rat \<Rightarrow> rat" where
  "num_sub x y = round_double (x - y)"

definition num_div :: "rat \<Rightarrow> rat \<Rightarrow> rat" where
  "num_div x y = round_double (x / y)"

subsection \<open>Documents and the store\<close>

datatype balance_op = OpAdd | OpSubtract | OpSet

datatype error = ValidationError "string list" | DuplicateKey | PartyNotFound | StoreError

text \<open>A party of the ledger (the fields of \<^verbatim>\<open>models/Party.js\<close> the routes read and
  write).\<close>

record party =
  party_id :: oid
  party_name :: string
  party_phone :: string
  party_type :: "string option"
  balance :: rat

text \<open>An inventory item (the fields of \<^verbatim>\<open>models/Item.js\<close> the routes read and write);
  \<open>openingStock\<close> is counted in bags.\<close>

record item =
  item_id :: oid
  productName :: string
  isUniversal :: bool
  openingStock :: rat

text \<open>A line of a purchase: \<^verbatim>\<open>purchaseItem.id\<close> names the item, \<^verbatim>\<open>quantity\<close> is in kg.\<close>

record line_item =
  line_id :: oid
  quantity :: rat
  price :: rat

record purchase =
  purchase_id :: oid
  billNo :: string
  supplierName :: string
  pu_phoneNumber :: string
  pu_items :: "line_item list"
  pu_totalAmount :: rat
  pu_date :: string
  pu_status :: string
  pdfUri :: "string option"
  pu_partyId :: "oid option"

record payment =
  payment_id :: oid
  paymentNo :: string
  pay_type :: string
  partyName :: string
  pay_phoneNumber :: string
  amount :: rat
  pay_totalAmount :: rat
  pay_date :: string
  pay_status :: string
  description :: "string option"
  paymentMethod :: string
  reference :: "string option"
  pay_partyId :: "oid option"

text \<open>The store: the four collections, the counter fresh ids are drawn from, the calls
  \<^verbatim>\<open>Party.updateBalance\<close> has completed (party, amount, operation) and the lines written
  with \<^verbatim>\<open>console.error\<close>.\<close>

record db =
  parties :: "party list"
  item_docs :: "item list"
  purchases :: "purchase list"
  payments :: "payment list"
  next_oid :: oid
  ledger_calls :: "(oid \<times> rat \<times> balance_op) list"
  console :: "string list"

text \<open>What the routes use and the repository's files under \<^verbatim>\<open>src/\<close> do not define, taken
  as parameters: the total of a purchase line and the validators of the purchase schema
  (\<^verbatim>\<open>models/Purchase.js\<close>), \<^verbatim>\<open>Purchase.generateNextBillNumber\<close>, whether the stored
  lines and the lines of a request have different JSON texts (which depends on how the
  purchase model serialises its lines), and which calls of the database driver throw (a
  lookup of an item by id, the lookup of the universal item, the save of an item, the
  lookup of the last payment).\<close>

record env =
  line_total :: "line_item \<Rightarrow> rat"
  purchase_valid :: "purchase \<Rightarrow> bool"
  next_bill_no :: "purchase list \<Rightarrow> string"
  items_changed :: "line_item list \<Rightarrow> line_item list \<Rightarrow> bool"
  item_find_fails :: "oid \<Rightarrow> bool"
  bardana_find_fails :: bool
  item_save_fails :: "item \<Rightarrow> bool"
  payment_find_fails :: bool

datatype payload = PurchaseData purchase | PaymentData payment | Message string

text \<open>A response: \<^verbatim>\<open>res.status(code).json(...)\<close> with \<^verbatim>\<open>success: true\<close> and the data, or
  with \<^verbatim>\<open>success: false\<close>, the error text and the details.\<close>

datatype response = Json nat payload | Err nat string "string list"

fun replace_first :: "('a \<Rightarrow> bool) \<Rightarrow> 'a \<Rightarrow> 'a list \<Rightarrow> 'a list" where
  "replace_first P y [] = []"
| "replace_first P y (x # xs) = (if P x then y # xs else x # replace_first P y xs)"

fun remove_first :: "('a \<Rightarrow> bool) \<Rightarrow> 'a list \<Rightarrow> 'a list" where
  "remove_first P [] = []"
| "remove_first P (x # xs) = (if P x then xs else x # remove_first P xs)"

text \<open>\<^verbatim>\<open>doc.save()\<close> on a collection: a document loaded from the collection replaces
  its stored version, a new one is appended.\<close>

definition upsert :: "('a \<Rightarrow> oid) \<Rightarrow> 'a \<Rightarrow> 'a list \<Rightarrow> 'a list" where
  "upsert ident d xs =
     (if list_ex (\<lambda>x. ident x = ident d) xs
      then replace_first (\<lambda>x. ident x = ident d) d xs else xs @ [d])"

text \<open>The handler-level \<^verbatim>\<open>catch\<close> of the create and update routes: a
  \<^verbatim>\<open>ValidationError\<close> is answered with 400 and its messages, anything else with 500.\<close>

fun catch_response :: "error \<Rightarrow> string \<Rightarrow> response" where
  "catch_response (ValidationError msgs) failed = Err 400 ''Validation failed'' msgs"
| "catch_response e failed = Err 500 failed []"

definition log_error :: "string \<Rightarrow> db \<Rightarrow> db" where
  "log_error msg d = d\<lparr>console := console d @ [msg]\<rparr>"

subsection \<open>The party ledger\<close>

text \<open>Modelled from the spec: \<^verbatim>\<open>Party.findOrCreate\<close> of \<^verbatim>\<open>models/Party.js\<close>, which is not
  among the files. ``Lookup by exact (name, phone) pair; if found, return it unchanged;
  else create with balance = 0. Phone is normalized before comparison/storage: strip
  whitespace and non-digit/plus characters, then prefix a default country code if no
  leading + is present.'' The country code is the one of the payment model.\<close>

definition Party_findOrCreate :: "string \<Rightarrow> string \<Rightarrow> string option \<Rightarrow> db \<Rightarrow> party \<times> db" where
  "Party_findOrCreate name phone ty d =
     (let ph = sanitize_phone phone
      in case find (\<lambda>p. party_name p = name \<and> party_phone p = ph) (parties d) of
           Some p \<Rightarrow> (p, d)
         | None \<Rightarrow>
             (let p = \<lparr>party_id = next_oid d, party_name = name, party_phone = ph,
                        party_type = ty, balance = 0\<rparr>
              in (p, d\<lparr>parties := parties d @ [p], next_oid := Suc (next_oid d)\<rparr>)))"

text \<open>Modelled from the spec: \<^verbatim>\<open>Party.updateBalance\<close> of \<^verbatim>\<open>models/Party.js\<close>, which is not
  among the files. ``adjustBalance(partyId, amount, operation) where operation is one of
  add, subtract, set. add/subtract apply the signed delta to current balance; set
  overwrites. Fails with NotFound when the referenced party id does not resolve.'' A
  completed call is recorded in \<open>ledger_calls\<close>.\<close>

definition Party_updateBalance :: "oid \<Rightarrow> rat \<Rightarrow> balance_op \<Rightarrow> db \<Rightarrow> error + db" where
  "Party_updateBalance pid amt opr d =
     (case find (\<lambda>p. party_id p = pid) (parties d) of
        None \<Rightarrow> Inl PartyNotFound
      | Some p \<Rightarrow>
          (let b = (case opr of
                      OpAdd \<Rightarrow> balance p + amt
                    | OpSubtract \<Rightarrow> balance p - amt
                    | OpSet \<Rightarrow> amt)
           in Inr (d\<lparr>parties := replace_first (\<lambda>x. party_id x = pid) (p\<lparr>balance := b\<rparr>) (parties d),
                      ledger_calls := ledger_calls d @ [(pid, amt, opr)]\<rparr>)))"

text \<open>The balance the ledger holds for a party id; a party that is not in the ledger owes
  and is owed nothing.\<close>

definition balance_of :: "db \<Rightarrow> oid \<Rightarrow> rat" where
  "balance_of d pid =
     (case find (\<lambda>p. party_id p = pid) (parties d) of None \<Rightarrow> 0 | Some p \<Rightarrow> balance p)"

subsection \<open>The payment model (\<^verbatim>\<open>src/models/Payment.js\<close>)\<close>

text \<open>The validators of the schema, in the order of its paths. A \<^verbatim>\<open>required\<close> string
  must be non-empty; \<^verbatim>\<open>match\<close> is not applied to an empty string.\<close>

definition Payment_validate :: "payment \<Rightarrow> string list" where
  "Payment_validate p =
     (if paymentNo p = [] then [''Payment number is required''] else []) @
     (if pay_type p = [] then [''Payment type is required'']
      else if pay_type p \<notin> set [''payment-in'', ''payment-out'']
      then [''`'' @ pay_type p @ ''` is not a valid enum value for path `type`.''] else []) @
     (if partyName p = [] then [''Party name is required'']
      else if length (partyName p) > 100 then [''Party name cannot exceed 100 characters'']
      else []) @
     (if pay_phoneNumber p = [] then [''Phone number is required'']
      else if \<not> validate_phone (pay_phoneNumber p) then [''Invalid phone number format'']
      else []) @
     (if amount p < 0 then [''Amount cannot be negative''] else []) @
     (if pay_totalAmount p < 0 then [''Total amount cannot be negative''] else []) @
     (if pay_date p = [] then [''Date is required'']
      else if \<not> date_regex (pay_date p) then [''Date must be in MM/DD/YYYY format'']
      else []) @
     (if pay_status p = [] then [''Status is required'']
      else if pay_status p \<notin> set [''pending'', ''completed'', ''cancelled'']
      then [''`'' @ pay_status p @ ''` is not a valid enum value for path `status`.''] else []) @
     (case description p of
        None \<Rightarrow> []
      | Some t \<Rightarrow> if length t > 500 then [''Description cannot exceed 500 characters''] else []) @
     (if paymentMethod p \<notin> set [''cash'', ''bank_transfer'', ''cheque'', ''upi'', ''card'', ''other'']
      then [''`'' @ paymentMethod p @ ''` is not a valid enum value for path `paymentMethod`.'']
      else []) @
     (case reference p of
        None \<Rightarrow> []
      | Some t \<Rightarrow> if length t > 100 then [''Reference cannot exceed 100 characters''] else [])"

text \<open>\<^verbatim>\<open>paymentSchema.pre('save')\<close>: the phone number is sanitised, and
  \<^verbatim>\<open>if (!this.totalAmount && this.amount) this.totalAmount = this.amount\<close>.\<close>

definition Payment_pre_save :: "payment \<Rightarrow> payment" where
  "Payment_pre_save p =
     (let p1 = (if pay_phoneNumber p \<noteq> []
                then p\<lparr>pay_phoneNumber := sanitize_phone (pay_phoneNumber p)\<rparr> else p)
      in if pay_totalAmount p1 = 0 \<and> amount p1 \<noteq> 0
         then p1\<lparr>pay_totalAmount := amount p1\<rparr> else p1)"

text \<open>\<^verbatim>\<open>payment.save()\<close>: validation, then the pre-save hook, then the write, which the
  unique index on \<^verbatim>\<open>paymentNo\<close> refuses when another document carries the number.\<close>

definition Payment_save :: "payment \<Rightarrow> db \<Rightarrow> error + (payment \<times> db)" where
  "Payment_save p d =
     (let errs = Payment_validate p
      in if errs \<noteq> [] then Inl (ValidationError errs)
         else (let p' = Payment_pre_save p
               in if list_ex (\<lambda>q. paymentNo q = paymentNo p' \<and> payment_id q \<noteq> payment_id p')
                       (payments d)
                  then Inl DuplicateKey
                  else Inr (p', d\<lparr>payments := upsert payment_id p' (payments d)\<rparr>)))"

text \<open>\<^verbatim>\<open>findOne({paymentNo: {$regex: `^${prefix}-`}}).sort({paymentNo: -1})\<close>: among the
  payments whose number starts with the prefix and a dash, the one whose number is
  greatest in the order of strings.\<close>

fun greatest_paymentNo :: "payment list \<Rightarrow> payment option" where
  "greatest_paymentNo [] = None"
| "greatest_paymentNo (p # ps) =
     (case greatest_paymentNo ps of
        None \<Rightarrow> Some p
      | Some q \<Rightarrow> if str_less (paymentNo p) (paymentNo q) then Some q else Some p)"

definition find_last_payment :: "string \<Rightarrow> payment list \<Rightarrow> payment option" where
  "find_last_payment prefix ps =
     greatest_paymentNo (filter (\<lambda>p. startsWith (paymentNo p) (prefix @ ''-'')) ps)"

text \<open>\<^verbatim>\<open>paymentNo.match(new RegExp(`^${prefix}-(\\d+)$`))\<close>: the digits after the prefix and
  the dash, when the number is nothing but those.\<close>

definition match_paymentNo :: "string \<Rightarrow> string \<Rightarrow> string option" where
  "match_paymentNo prefix s =
     (let rest = drop (length prefix + 1) s
      in if startsWith s (prefix @ ''-'') \<and> rest \<noteq> [] \<and> list_all is_digit rest
         then Some rest else None)"

definition generateNextPaymentNumber :: "env \<Rightarrow> string \<Rightarrow> db \<Rightarrow> string \<times> db" where
  "generateNextPaymentNumber e ty d =
     (let prefix = (if ty = ''payment-in'' then ''PAY-IN'' else ''PAY-OUT'')
      in if payment_find_fails e
         then (prefix @ ''-1'', log_error ''Error generating payment number:'' d)
         else case find_last_payment prefix (payments d) of
                None \<Rightarrow> (prefix @ ''-1'', d)
              | Some lastPayment \<Rightarrow>
                  (case match_paymentNo prefix (paymentNo lastPayment) of
                     None \<Rightarrow> (prefix @ ''-1'', d)
                   | Some digits \<Rightarrow> (prefix @ ''-'' @ show_nat (parseInt digits + 1), d)))"

text \<open>\<^verbatim>\<open>updatePartyBalance\<close>: nothing without a \<^verbatim>\<open>partyId\<close>; otherwise the operation is
  \<^verbatim>\<open>payment.type === 'payment-in' ? 'subtract' : 'subtract'\<close>. An exception is logged and
  thrown again: the result is the exception, if any, and the store.\<close>

definition updatePartyBalance :: "payment \<Rightarrow> db \<Rightarrow> error option \<times> db" where
  "updatePartyBalance p d =
     (case pay_partyId p of
        None \<Rightarrow> (None, d)
      | Some pid \<Rightarrow>
          (let operation = (if pay_type p = ''payment-in'' then OpSubtract else OpSubtract)
           in case Party_updateBalance pid (amount p) operation d of
                Inr d' \<Rightarrow> (None, d')
              | Inl err \<Rightarrow> (Some err, log_error ''Error updating party balance:'' d)))"

subsection \<open>The payment routes (\<^verbatim>\<open>src/unnamed/part_003\<close>)\<close>

record payment_req =
  rq_type :: "string option"
  rq_partyName :: "string option"
  rq_phoneNumber :: "string option"
  rq_amount :: "rat option"
  rq_totalAmount :: "rat option"
  rq_date :: "string option"
  rq_status :: "string option"
  rq_description :: "string option"
  rq_paymentMethod :: "string option"
  rq_reference :: "string option"

fun default_to :: "'a \<Rightarrow> 'a option \<Rightarrow> 'a" where
  "default_to v None = v"
| "default_to v (Some x) = x"

text \<open>\<^verbatim>\<open>POST /api/payments\<close>.\<close>

definition post_payment :: "env \<Rightarrow> db \<Rightarrow> payment_req \<Rightarrow> response \<times> db" where
  "post_payment e d rq =
     (let ty = default_to ''payment-in'' (rq_type rq);
          status = default_to ''completed'' (rq_status rq);
          method = default_to ''cash'' (rq_paymentMethod rq)
      in if falsy_str (rq_partyName rq) \<or> falsy_str (rq_phoneNumber rq) \<or>
            falsy_num (rq_amount rq) \<or> falsy_str (rq_date rq)
         then (Err 400 ''Party name, phone number, amount, and date are required'' [], d)
         else if default_to 0 (rq_amount rq) \<le> 0
         then (Err 400 ''Amount must be greater than 0'' [], d)
         else
           (let (number, d0) = generateNextPaymentNumber e ty d;
                (pty, d1) = Party_findOrCreate (default_to [] (rq_partyName rq))
                              (default_to [] (rq_phoneNumber rq)) None d0;
                pay = \<lparr>payment_id = next_oid d1,
                       paymentNo = trim number,
                       pay_type = ty,
                       partyName = trim (default_to [] (rq_partyName rq)),
                       pay_phoneNumber = trim (default_to [] (rq_phoneNumber rq)),
                       amount = default_to 0 (rq_amount rq),
                       pay_totalAmount = (if falsy_num (rq_totalAmount rq)
                                          then default_to 0 (rq_amount rq)
                                          else default_to 0 (rq_totalAmount rq)),
                       pay_date = default_to [] (rq_date rq),
                       pay_status = status,
                       description = map_option trim (rq_description rq),
                       paymentMethod = method,
                       reference = map_option trim (rq_reference rq),
                       pay_partyId = Some (party_id pty)\<rparr>;
                d2 = d1\<lparr>next_oid := Suc (next_oid d1)\<rparr>
            in case Payment_save pay d2 of
                 Inl err \<Rightarrow>
                   (catch_response err ''Failed to create payment'',
                    log_error ''Error creating payment:'' d2)
               | Inr (saved, d3) \<Rightarrow>
                   (case updatePartyBalance saved d3 of
                      (Some err, d4) \<Rightarrow>
                        (catch_response err ''Failed to create payment'',
                         log_error ''Error creating payment:'' d4)
                    | (None, d4) \<Rightarrow> (Json 201 (PaymentData saved), d4))))"

text \<open>The field updates of \<^verbatim>\<open>PUT /api/payments/:id\<close>: a string field is assigned when the
  request's value is truthy, \<^verbatim>\<open>amount\<close>, \<^verbatim>\<open>totalAmount\<close>, \<^verbatim>\<open>description\<close> and
  \<^verbatim>\<open>reference\<close> when it is not \<^verbatim>\<open>undefined\<close>.\<close>

definition update_payment_fields :: "payment_req \<Rightarrow> payment \<Rightarrow> payment" where
  "update_payment_fields rq p =
     p\<lparr>partyName := (if falsy_str (rq_partyName rq) then partyName p
                      else trim (default_to [] (rq_partyName rq))),
       pay_phoneNumber := (if falsy_str (rq_phoneNumber rq) then pay_phoneNumber p
                           else trim (default_to [] (rq_phoneNumber rq))),
       amount := default_to (amount p) (rq_amount rq),
       pay_totalAmount := default_to (pay_totalAmount p) (rq_totalAmount rq),
       pay_date := (if falsy_str (rq_date rq) then pay_date p else default_to [] (rq_date rq)),
       pay_status := (if falsy_str (rq_status rq) then pay_status p
                      else default_to [] (rq_status rq)),
       description := (case rq_description rq of
                         None \<Rightarrow> description p | Some t \<Rightarrow> Some (trim t)),
       paymentMethod := (if falsy_str (rq_paymentMethod rq) then paymentMethod p
                         else default_to [] (rq_paymentMethod rq)),
       reference := (case rq_reference rq of
                       None \<Rightarrow> reference p | Some t \<Rightarrow> Some (trim t))\<rparr>"

text \<open>\<^verbatim>\<open>PUT /api/payments/:id\<close>.\<close>

definition put_payment :: "env \<Rightarrow> db \<Rightarrow> oid \<Rightarrow> payment_req \<Rightarrow> response \<times> db" where
  "put_payment e d ident rq =
     (case find (\<lambda>p. payment_id p = ident) (payments d) of
        None \<Rightarrow> (Err 404 ''Payment not found'' [], d)
      | Some pay \<Rightarrow>
          (let originalAmount = amount pay;
               originalPartyId = pay_partyId pay
           in case Payment_save (update_payment_fields rq pay) d of
                Inl err \<Rightarrow>
                  (catch_response err ''Failed to update payment'',
                   log_error ''Error updating payment:'' d)
              | Inr (saved, d1) \<Rightarrow>
                  if originalAmount \<noteq> amount saved \<and> pay_partyId saved \<noteq> None
                  then
                    (case (case originalPartyId of
                             None \<Rightarrow> Inl PartyNotFound
                           | Some opid \<Rightarrow> Party_updateBalance opid originalAmount OpAdd d1) of
                       Inl err \<Rightarrow>
                         (catch_response err ''Failed to update payment'',
                          log_error ''Error updating payment:'' d1)
                     | Inr d2 \<Rightarrow>
                         (case updatePartyBalance saved d2 of
                            (Some err, d3) \<Rightarrow>
                              (catch_response err ''Failed to update payment'',
                               log_error ''Error updating payment:'' d3)
                          | (None, d3) \<Rightarrow> (Json 200 (PaymentData saved), d3)))
                  else (Json 200 (PaymentData saved), d1)))"

text \<open>\<^verbatim>\<open>PATCH /api/payments/:id/status\<close>. Its \<^verbatim>\<open>catch\<close> answers every exception with
  500.\<close>

definition patch_payment_status :: "env \<Rightarrow> db \<Rightarrow> oid \<Rightarrow> string option \<Rightarrow> response \<times> db" where
  "patch_payment_status e d ident st =
     (if falsy_str st \<or> default_to [] st \<notin> set [''pending'', ''completed'', ''cancelled'']
      then (Err 400 ''Valid status is required (pending, completed, cancelled)'' [], d)
      else case find (\<lambda>p. payment_id p = ident) (payments d) of
             None \<Rightarrow> (Err 404 ''Payment not found'' [], d)
           | Some pay \<Rightarrow>
               (let status = default_to [] st;
                    originalStatus = pay_status pay
                in case Payment_save (pay\<lparr>pay_status := status\<rparr>) d of
                     Inl err \<Rightarrow>
                       (Err 500 ''Failed to update payment status'' [],
                        log_error ''Error updating payment status:'' d)
                   | Inr (saved, d1) \<Rightarrow>
                       if (originalStatus = ''completed'' \<and> status = ''cancelled'') \<or>
                          (originalStatus = ''cancelled'' \<and> status = ''completed'')
                       then
                         (case updatePartyBalance saved d1 of
                            (Some err, d2) \<Rightarrow>
                              (Err 500 ''Failed to update payment status'' [],
                               log_error ''Error updating payment status:'' d2)
                          | (None, d2) \<Rightarrow> (Json 200 (PaymentData saved), d2))
                       else (Json 200 (PaymentData saved), d1)))"

text \<open>\<^verbatim>\<open>DELETE /api/payments/:id\<close>.\<close>

definition delete_payment :: "env \<Rightarrow> db \<Rightarrow> oid \<Rightarrow> response \<times> db" where
  "delete_payment e d ident =
     (case find (\<lambda>p. payment_id p = ident) (payments d) of
        None \<Rightarrow> (Err 404 ''Payment not found'' [], d)
      | Some pay \<Rightarrow>
          (case (case pay_partyId pay of
                   None \<Rightarrow> Inr d
                 | Some pid \<Rightarrow>
                     if pay_status pay = ''completed''
                     then Party_updateBalance pid (amount pay) OpAdd d else Inr d) of
             Inl err \<Rightarrow>
               (Err 500 ''Failed to delete payment'' [], log_error ''Error deleting payment:'' d)
           | Inr d1 \<Rightarrow>
               (Json 200 (Message ''Payment deleted successfully''),
                d1\<lparr>payments := remove_first (\<lambda>p. payment_id p = ident) (payments d1)\<rparr>)))"

subsection \<open>The purchase routes (\<^verbatim>\<open>src/routes/party.js\<close>, second part)\<close>

text \<open>Modelled from the spec: \<^verbatim>\<open>purchase.save()\<close> with the pre-save middleware of
  \<^verbatim>\<open>models/Purchase.js\<close>, which is not among the files (the route says of
  \<^verbatim>\<open>totalAmount\<close>: ``Will be calculated in pre-save middleware''). ``totalAmount (derived:
  sum of line totals)''; ``totalAmount is always recomputed from current line items before
  persistence''. The schema's validators and the total of a line are parameters.\<close>

definition Purchase_save :: "env \<Rightarrow> purchase \<Rightarrow> db \<Rightarrow> error + (purchase \<times> db)" where
  "Purchase_save e p d =
     (if \<not> purchase_valid e p then Inl (ValidationError [])
      else (let p' = p\<lparr>pu_totalAmount := sum_list (map (line_total e) (pu_items p))\<rparr>
            in Inr (p', d\<lparr>purchases := upsert purchase_id p' (purchases d)\<rparr>)))"

text \<open>The body of one \<^verbatim>\<open>try\<close> block of the stock loops: the item is looked up by the
  line's id; when there is one, its stock is changed and it is saved. A missing item
  changes nothing; a throwing lookup or save is the \<open>Inl\<close> branch.\<close>

definition stock_try :: "env \<Rightarrow> (rat \<Rightarrow> rat) \<Rightarrow> oid \<Rightarrow> item list \<Rightarrow> error + item list" where
  "stock_try e f k xs =
     (if item_find_fails e k then Inl StoreError
      else case find (\<lambda>x. item_id x = k) xs of
             None \<Rightarrow> Inr xs
           | Some it \<Rightarrow>
               (let it' = it\<lparr>openingStock := f (openingStock it)\<rparr>
                in if item_save_fails e it' then Inl StoreError
                   else Inr (replace_first (\<lambda>x. item_id x = item_id it') it' xs)))"

text \<open>\<^verbatim>\<open>item.openingStock += quantityInBags\<close> with
  \<^verbatim>\<open>quantityInBags = purchaseItem.quantity / 30\<close>.\<close>

definition add_bags :: "rat \<Rightarrow> rat \<Rightarrow> rat" where
  "add_bags kg s = (let quantityInBags = num_div kg 30 in num_add s quantityInBags)"

text \<open>\<^verbatim>\<open>item.openingStock -= quantityInBags; if (item.openingStock < 0) item.openingStock = 0\<close>.\<close>

definition remove_bags :: "rat \<Rightarrow> rat \<Rightarrow> rat" where
  "remove_bags kg s =
     (let quantityInBags = num_div kg 30; s' = num_sub s quantityInBags
      in if s' < 0 then 0 else s')"

text \<open>\<^verbatim>\<open>bardanaItem.openingStock += bardanaBagsDifference\<close> followed by the same clamp
  (the update route).\<close>

definition shift_bags :: "rat \<Rightarrow> rat \<Rightarrow> rat" where
  "shift_bags kg s =
     (let bardanaBagsDifference = num_div kg 30; s' = num_add s bardanaBagsDifference
      in if s' < 0 then 0 else s')"

text \<open>One pass of a stock loop with its \<^verbatim>\<open>catch\<close>: the exception is logged and the loop
  goes on.\<close>

definition increase_stock :: "env \<Rightarrow> line_item \<Rightarrow> db \<Rightarrow> db" where
  "increase_stock e l d =
     (case stock_try e (add_bags (quantity l)) (line_id l) (item_docs d) of
        Inr xs \<Rightarrow> d\<lparr>item_docs := xs\<rparr>
      | Inl err \<Rightarrow> log_error (''Error updating stock for item '' @ show_nat (line_id l)) d)"

definition restore_stock :: "env \<Rightarrow> line_item \<Rightarrow> db \<Rightarrow> db" where
  "restore_stock e l d =
     (case stock_try e (remove_bags (quantity l)) (line_id l) (item_docs d) of
        Inr xs \<Rightarrow> d\<lparr>item_docs := xs\<rparr>
      | Inl err \<Rightarrow> log_error (''Error restoring stock for item '' @ show_nat (line_id l)) d)"

text \<open>\<^verbatim>\<open>items.reduce((sum, item) => sum + item.quantity, 0)\<close>.\<close>

definition total_kg :: "line_item list \<Rightarrow> rat" where
  "total_kg ls = foldl (\<lambda>sum l. num_add sum (quantity l)) 0 ls"

text \<open>The \<^verbatim>\<open>try\<close> block of the universal item:
  \<^verbatim>\<open>Item.findOne({isUniversal: true, productName: 'Bardana'})\<close>, the change of its stock
  and its save.\<close>

definition bardana_try :: "env \<Rightarrow> (rat \<Rightarrow> rat) \<Rightarrow> item list \<Rightarrow> error + item list" where
  "bardana_try e f xs =
     (if bardana_find_fails e then Inl StoreError
      else case find (\<lambda>x. isUniversal x \<and> productName x = ''Bardana'') xs of
             None \<Rightarrow> Inr xs
           | Some b \<Rightarrow>
               (let b' = b\<lparr>openingStock := f (openingStock b)\<rparr>
                in if item_save_fails e b' then Inl StoreError
                   else Inr (replace_first (\<lambda>x. item_id x = item_id b') b' xs)))"

definition update_bardana :: "env \<Rightarrow> (rat \<Rightarrow> rat) \<Rightarrow> string \<Rightarrow> db \<Rightarrow> db" where
  "update_bardana e f msg d =
     (case bardana_try e f (item_docs d) of
        Inr xs \<Rightarrow> d\<lparr>item_docs := xs\<rparr>
      | Inl err \<Rightarrow> log_error msg d)"

text \<open>The stock part of the create route: the loop over the lines, each line adding its
  quantity to its item, then the universal item, which receives the total of the lines.\<close>

definition stock_in :: "env \<Rightarrow> line_item list \<Rightarrow> db \<Rightarrow> db" where
  "stock_in e items d =
     update_bardana e (add_bags (total_kg items)) ''Error updating Bardana stock:''
       (fold (increase_stock e) items d)"

text \<open>The stock part of the delete route: every line is taken back from its item, then
  the total from the universal item.\<close>

definition stock_out :: "env \<Rightarrow> line_item list \<Rightarrow> db \<Rightarrow> db" where
  "stock_out e items d =
     update_bardana e (remove_bags (total_kg items)) ''Error restoring Bardana stock:''
       (fold (restore_stock e) items d)"

record purchase_req =
  rq_supplierName :: "string option"
  rq_pu_phoneNumber :: "string option"
  rq_items :: "line_item list option"
  rq_pu_date :: "string option"
  rq_pu_status :: "string option"
  rq_pdfUri :: "string option"

text \<open>\<^verbatim>\<open>new Purchase({...})\<close> of the create route, with the bill number, the fresh id and
  the id of the party; \<^verbatim>\<open>status\<close> defaults to \<^verbatim>\<open>'pending'\<close>, \<^verbatim>\<open>totalAmount\<close> is 0 until
  the save.\<close>

definition new_purchase :: "purchase_req \<Rightarrow> string \<Rightarrow> oid \<Rightarrow> oid \<Rightarrow> purchase" where
  "new_purchase rq bill ident pid =
     \<lparr>purchase_id = ident,
      billNo = bill,
      supplierName = default_to [] (rq_supplierName rq),
      pu_phoneNumber = default_to [] (rq_pu_phoneNumber rq),
      pu_items = default_to [] (rq_items rq),
      pu_totalAmount = 0,
      pu_date = default_to [] (rq_pu_date rq),
      pu_status = default_to ''pending'' (rq_pu_status rq),
      pdfUri = rq_pdfUri rq,
      pu_partyId = Some pid\<rparr>"

text \<open>\<^verbatim>\<open>POST /api/purchases\<close>.\<close>

definition post_purchase :: "env \<Rightarrow> db \<Rightarrow> purchase_req \<Rightarrow> response \<times> db" where
  "post_purchase e d rq =
     (if falsy_str (rq_supplierName rq) \<or> falsy_str (rq_pu_phoneNumber rq) \<or>
         rq_items rq = None \<or> falsy_str (rq_pu_date rq)
      then (Err 400 ''Supplier name, phone number, items, and date are required'' [], d)
      else if default_to [] (rq_items rq) = []
      then (Err 400 ''At least one item is required'' [], d)
      else
        (let items = default_to [] (rq_items rq);
             bill = next_bill_no e (purchases d);
             (pty, d1) = Party_findOrCreate (default_to [] (rq_supplierName rq))
                           (default_to [] (rq_pu_phoneNumber rq)) (Some ''supplier'') d;
             pur = new_purchase rq bill (next_oid d1) (party_id pty);
             d2 = d1\<lparr>next_oid := Suc (next_oid d1)\<rparr>
         in case Purchase_save e pur d2 of
              Inl err \<Rightarrow>
                (catch_response err ''Failed to create purchase'',
                 log_error ''Error creating purchase:'' d2)
            | Inr (saved, d3) \<Rightarrow>
                (case Party_updateBalance (party_id pty) (pu_totalAmount saved) OpAdd d3 of
                   Inl err \<Rightarrow>
                     (catch_response err ''Failed to create purchase'',
                      log_error ''Error creating purchase:'' d3)
                 | Inr d4 \<Rightarrow> (Json 201 (PurchaseData saved), stock_in e items d4))))"

text \<open>The field updates of \<^verbatim>\<open>PUT /api/purchases/:id\<close>: a field is assigned when the
  request's value is truthy (an array is), \<^verbatim>\<open>pdfUri\<close> when it is not \<^verbatim>\<open>undefined\<close>.\<close>

definition update_purchase_fields :: "purchase_req \<Rightarrow> purchase \<Rightarrow> purchase" where
  "update_purchase_fields rq p =
     p\<lparr>supplierName := (if falsy_str (rq_supplierName rq) then supplierName p
                         else default_to [] (rq_supplierName rq)),
       pu_phoneNumber := (if falsy_str (rq_pu_phoneNumber rq) then pu_phoneNumber p
                          else default_to [] (rq_pu_phoneNumber rq)),
       pu_items := default_to (pu_items p) (rq_items rq),
       pu_date := (if falsy_str (rq_pu_date rq) then pu_date p
                   else default_to [] (rq_pu_date rq)),
       pu_status := (if falsy_str (rq_pu_status rq) then pu_status p
                     else default_to [] (rq_pu_status rq)),
       pdfUri := (case rq_pdfUri rq of None \<Rightarrow> pdfUri p | Some u \<Rightarrow> Some u)\<rparr>"

text \<open>The stock part of the update route, entered when the request carries items that
  differ from the stored ones: every original line is taken back, every new line is added,
  then the universal item moves by the difference of the totals.\<close>

definition restock_update :: "env \<Rightarrow> line_item list \<Rightarrow> line_item list \<Rightarrow> db \<Rightarrow> db" where
  "restock_update e originalItems items d =
     (let d1 = fold (restore_stock e) originalItems d;
          d2 = fold (increase_stock e) items d1
      in update_bardana e (shift_bags (num_sub (total_kg items) (total_kg originalItems)))
           ''Error updating Bardana stock:'' d2)"

text \<open>\<^verbatim>\<open>PUT /api/purchases/:id\<close>. \<open>items_changed\<close> is
  \<^verbatim>\<open>JSON.stringify(originalItems) !== JSON.stringify(items)\<close>.\<close>

definition put_purchase :: "env \<Rightarrow> db \<Rightarrow> oid \<Rightarrow> purchase_req \<Rightarrow> response \<times> db" where
  "put_purchase e d ident rq =
     (case find (\<lambda>p. purchase_id p = ident) (purchases d) of
        None \<Rightarrow> (Err 404 ''Purchase not found'' [], d)
      | Some pur \<Rightarrow>
          (let originalTotalAmount = pu_totalAmount pur;
               originalItems = pu_items pur
           in case Purchase_save e (update_purchase_fields rq pur) d of
                Inl err \<Rightarrow>
                  (catch_response err ''Failed to update purchase'',
                   log_error ''Error updating purchase:'' d)
              | Inr (saved, d1) \<Rightarrow>
                  (case (case pu_partyId saved of
                           None \<Rightarrow> Inr d1
                         | Some pid \<Rightarrow>
                             if originalTotalAmount \<noteq> pu_totalAmount saved
                             then Party_updateBalance pid
                                    (num_sub (pu_totalAmount saved) originalTotalAmount) OpAdd d1
                             else Inr d1) of
                     Inl err \<Rightarrow>
                       (catch_response err ''Failed to update purchase'',
                        log_error ''Error updating purchase:'' d1)
                   | Inr d2 \<Rightarrow>
                       (case rq_items rq of
                          None \<Rightarrow> (Json 200 (PurchaseData saved), d2)
                        | Some items \<Rightarrow>
                            if items_changed e originalItems items
                            then (Json 200 (PurchaseData saved),
                                  restock_update e originalItems items d2)
                            else (Json 200 (PurchaseData saved), d2)))))"

text \<open>\<^verbatim>\<open>PATCH /api/purchases/:id/status\<close>: the status is stored; no ledger call.\<close>

definition patch_purchase_status :: "env \<Rightarrow> db \<Rightarrow> oid \<Rightarrow> string option \<Rightarrow> response \<times> db" where
  "patch_purchase_status e d ident st =
     (if falsy_str st \<or> default_to [] st \<notin> set [''pending'', ''completed'', ''cancelled'']
      then (Err 400 ''Valid status is required (pending, completed, cancelled)'' [], d)
      else case find (\<lambda>p. purchase_id p = ident) (purchases d) of
             None \<Rightarrow> (Err 404 ''Purchase not found'' [], d)
           | Some pur \<Rightarrow>
               (case Purchase_save e (pur\<lparr>pu_status := default_to [] st\<rparr>) d of
                  Inl err \<Rightarrow>
                    (Err 500 ''Failed to update purchase status'' [],
                     log_error ''Error updating purchase status:'' d)
                | Inr (saved, d1) \<Rightarrow> (Json 200 (PurchaseData saved), d1)))"

text \<open>\<^verbatim>\<open>DELETE /api/purchases/:id\<close>: the stock of every line is taken back, then the
  universal item's, then the party's balance is reduced, and the purchase is removed
  last.\<close>

definition delete_purchase :: "env \<Rightarrow> db \<Rightarrow> oid \<Rightarrow> response \<times> db" where
  "delete_purchase e d ident =
     (case find (\<lambda>p. purchase_id p = ident) (purchases d) of
        None \<Rightarrow> (Err 404 ''Purchase not found'' [], d)
      | Some pur \<Rightarrow>
          (let d2 = stock_out e (pu_items pur) d
           in case (case pu_partyId pur of
                      None \<Rightarrow> Inr d2
                    | Some pid \<Rightarrow> Party_updateBalance pid (pu_totalAmount pur) OpSubtract d2) of
                Inl err \<Rightarrow>
                  (Err 500 ''Failed to delete purchase'' [],
                   log_error ''Error deleting purchase:'' d2)
              | Inr d3 \<Rightarrow>
                  (Json 200 (Message ''Purchase deleted successfully''),
                   d3\<lparr>purchases := remove_first (\<lambda>p. purchase_id p = ident) (purchases d3)\<rparr>)))"

subsection \<open>Notions used to state the properties\<close>

text \<open>No call of the driver on the inventory throws.\<close>

definition reliable :: "env \<Rightarrow> bool" where
  "reliable e =
     (\<not> bardana_find_fails e \<and> (\<forall>k. \<not> item_find_fails e k) \<and> (\<forall>it. \<not> item_save_fails e it))"

text \<open>Lists of lines that differ have different JSON texts.\<close>

definition json_tells_apart :: "env \<Rightarrow> bool" where
  "json_tells_apart e = (\<forall>original items. original \<noteq> items \<longrightarrow> items_changed e original items)"

definition stocks_nonneg :: "item list \<Rightarrow> bool" where
  "stocks_nonneg xs = list_all (\<lambda>x. 0 \<le> openingStock x) xs"

definition quantities_nonneg :: "line_item list \<Rightarrow> bool" where
  "quantities_nonneg ls = list_all (\<lambda>l. 0 \<le> quantity l) ls"

definition request_nonneg :: "purchase_req \<Rightarrow> bool" where
  "request_nonneg rq = (case rq_items rq of None \<Rightarrow> True | Some ls \<Rightarrow> quantities_nonneg ls)"

text \<open>Whole numbers from 0 to \<open>2 ^ 50\<close>: sums and differences of a few of them are
  doubles, so the arithmetic of numbers is exact on them. An inventory of whole bags; lines
  of whole bags (the quantity is in kg, 30 to the bag) and whole amounts of money, with
  totals in the same range; a request with such lines, or without lines; a ledger of whole
  balances, owed or owing.\<close>

definition whole :: "rat \<Rightarrow> bool" where
  "whole x = (of_int \<lfloor>x\<rfloor> = x \<and> 0 \<le> x \<and> x \<le> 2 ^ 50)"

definition whole_stocks :: "item list \<Rightarrow> bool" where
  "whole_stocks xs = list_all (\<lambda>x. whole (openingStock x)) xs"

definition bag_lines :: "line_item list \<Rightarrow> bool" where
  "bag_lines ls =
     (list_all (\<lambda>l. whole (quantity l / 30)) ls \<and> sum_list (map quantity ls) \<le> 2 ^ 50)"

definition whole_lines :: "env \<Rightarrow> line_item list \<Rightarrow> bool" where
  "whole_lines e ls =
     (bag_lines ls \<and> list_all (\<lambda>l. whole (line_total e l)) ls \<and>
      sum_list (map (line_total e) ls) \<le> 2 ^ 50)"

definition whole_request :: "env \<Rightarrow> purchase_req \<Rightarrow> bool" where
  "whole_request e rq = (case rq_items rq of None \<Rightarrow> True | Some ls \<Rightarrow> whole_lines e ls)"

definition whole_ledger :: "party list \<Rightarrow> bool" where
  "whole_ledger ps = list_all (\<lambda>p. whole \<bar>balance p\<bar>) ps"

text \<open>The kg a list of lines holds for one item id, and the id of the universal item of an
  inventory.\<close>

definition kg_for :: "oid \<Rightarrow> line_item list \<Rightarrow> rat" where
  "kg_for k ls = sum_list (map quantity (filter (\<lambda>l. line_id l = k) ls))"

definition bardana_id :: "item list \<Rightarrow> oid option" where
  "bardana_id xs =
     map_option item_id (find (\<lambda>x. isUniversal x \<and> productName x = ''Bardana'') xs)"

text \<open>An inventory with the stock of every item moved by an amount that depends on the
  item's id; the bags a purchase with the given lines adds to an item of an inventory; the
  inventory with those bags added.\<close>

definition shift_stock :: "(oid \<Rightarrow> rat) \<Rightarrow> item list \<Rightarrow> item list" where
  "shift_stock g xs = map (\<lambda>x. x\<lparr>openingStock := openingStock x + g (item_id x)\<rparr>) xs"

definition purchase_bags :: "item list \<Rightarrow> line_item list \<Rightarrow> oid \<Rightarrow> rat" where
  "purchase_bags xs ls k =
     kg_for k ls / 30 +
     (if bardana_id xs = Some k then sum_list (map quantity ls) / 30 else 0)"

definition with_purchase :: "item list \<Rightarrow> line_item list \<Rightarrow> item list" where
  "with_purchase xs ls = shift_stock (purchase_bags xs ls) xs"

text \<open>A store holds one purchase on top of a ledger and an inventory: the purchase is
  stored with whole lines and their total, the ledger is the given one with the purchase's
  total added to the balance of its party, and the inventory is the given one with the
  purchase's bags added.\<close>

definition holds_purchase :: "env \<Rightarrow> db \<Rightarrow> oid \<Rightarrow> party list \<Rightarrow> item list \<Rightarrow> bool" where
  "holds_purchase e d i ps xs =
     (\<exists>pur pid bp.
        find (\<lambda>p. purchase_id p = i) (purchases d) = Some pur \<and>
        pu_partyId pur = Some pid \<and>
        find (\<lambda>p. party_id p = pid) ps = Some bp \<and>
        parties d = replace_first (\<lambda>x. party_id x = pid)
                      (bp\<lparr>balance := balance bp + pu_totalAmount pur\<rparr>) ps \<and>
        item_docs d = with_purchase xs (pu_items pur) \<and>
        pu_totalAmount pur = sum_list (map (line_total e) (pu_items pur)) \<and>
        whole_lines e (pu_items pur))"




text \<open>The updates of one purchase, run one after the other.\<close>

definition run_updates :: "env \<Rightarrow> oid \<Rightarrow> purchase_req list \<Rightarrow> db \<Rightarrow> db" where
  "run_updates e i rqs d = fold (\<lambda>rq s. snd (put_purchase e s i rq)) rqs d"

subsection \<open>Sequences of requests and sample data\<close>

text \<open>The same create request sent \<open>n\<close> times, one after the other.\<close>

fun repeat_post_payment :: "env \<Rightarrow> payment_req \<Rightarrow> nat \<Rightarrow> db \<Rightarrow> db" where
  "repeat_post_payment e rq 0 d = d"
| "repeat_post_payment e rq (Suc n) d = repeat_post_payment e rq n (snd (post_payment e d rq))"

text \<open>An environment in which no call of the driver throws; a purchase line costs its
  quantity times its price, and two lists of lines have the same JSON text when they are
  equal.\<close>

definition env0 :: env where
  "env0 = \<lparr>line_total = (\<lambda>l. quantity l * price l), purchase_valid = (\<lambda>p. True),
           next_bill_no = (\<lambda>ps. ''PUR-'' @ show_nat (Suc (length ps))),
           items_changed = (\<lambda>original items. original \<noteq> items),
           item_find_fails = (\<lambda>k. False), bardana_find_fails = False,
           item_save_fails = (\<lambda>it. False), payment_find_fails = False\<rparr>"

definition empty_store :: db where
  "empty_store = \<lparr>parties = [], item_docs = [], purchases = [], payments = [], next_oid = 0,
                   ledger_calls = [], console = []\<rparr>"

definition sample_payment_req :: payment_req where
  "sample_payment_req =
     \<lparr>rq_type = Some ''payment-in'', rq_partyName = Some ''Asha'',
      rq_phoneNumber = Some ''9876543210'', rq_amount = Some 500, rq_totalAmount = None,
      rq_date = Some ''1/12/2024'', rq_status = None, rq_description = None,
      rq_paymentMethod = None, rq_reference = None\<rparr>"

definition sample_payout_req :: payment_req where
  "sample_payout_req = sample_payment_req\<lparr>rq_type := Some ''payment-out''\<rparr>"

text \<open>The payment the sample request creates on the empty store, and its payment-out
  twin.\<close>

definition sample_paid :: payment where
  "sample_paid =
     \<lparr>payment_id = 1, paymentNo = ''PAY-IN-1'', pay_type = ''payment-in'',
      partyName = ''Asha'', pay_phoneNumber = ''+919876543210'', amount = 500,
      pay_totalAmount = 500, pay_date = ''1/12/2024'', pay_status = ''completed'',
      description = None, paymentMethod = ''cash'', reference = None, pay_partyId = Some 0\<rparr>"

definition sample_paid_out :: payment where
  "sample_paid_out = sample_paid\<lparr>paymentNo := ''PAY-OUT-1'', pay_type := ''payment-out''\<rparr>"

definition paid_store :: db where
  "paid_store = snd (post_payment env0 empty_store sample_payment_req)"

definition paid_out_store :: db where
  "paid_out_store = snd (post_payment env0 empty_store sample_payout_req)"

definition cancelled_store :: db where
  "cancelled_store = snd (patch_payment_status env0 paid_store 1 (Some ''cancelled''))"

definition recompleted_store :: db where
  "recompleted_store = snd (patch_payment_status env0 cancelled_store 1 (Some ''completed''))"

text \<open>Update requests: one that carries a new amount and nothing else, one that changes
  the name, the date, the description and the method and leaves the amount alone.\<close>

definition amount_only_req :: "rat \<Rightarrow> payment_req" where
  "amount_only_req a =
     \<lparr>rq_type = None, rq_partyName = None, rq_phoneNumber = None, rq_amount = Some a,
      rq_totalAmount = None, rq_date = None, rq_status = None, rq_description = None,
      rq_paymentMethod = None, rq_reference = None\<rparr>"


text \<open>A store with two items, rice and the universal item, and a purchase of 300 kg of
  rice and 60 kg of an item that is not in the store.\<close>

definition rice :: item where
  "rice = \<lparr>item_id = 10, productName = ''Rice'', isUniversal = False, openingStock = 4\<rparr>"

definition bardana :: item where
  "bardana = \<lparr>item_id = 11, productName = ''Bardana'', isUniversal = True, openingStock = 2\<rparr>"

definition stocked_store :: db where
  "stocked_store = \<lparr>parties = [], item_docs = [rice, bardana], purchases = [], payments = [],
                     next_oid = 20, ledger_calls = [], console = []\<rparr>"

definition sample_purchase_req :: purchase_req where
  "sample_purchase_req =
     \<lparr>rq_supplierName = Some ''Ravi'', rq_pu_phoneNumber = Some ''9123456780'',
      rq_items = Some [\<lparr>line_id = 10, quantity = 300, price = 2\<rparr>,
                       \<lparr>line_id = 99, quantity = 60, price = 1\<rparr>],
      rq_pu_date = Some ''3/4/2025'', rq_pu_status = Some ''completed'', rq_pdfUri = None\<rparr>"

definition purchased_store :: db where
  "purchased_store = snd (post_purchase env0 stocked_store sample_purchase_req)"

text \<open>The purchase the sample request creates on the stocked store; two updates of it, one
  that replaces the lines (half the rice, and 30 kg of the universal item itself), one that
  only sets the status; a purchase of 30 kg of the universal item.\<close>

definition sample_purchase :: purchase where
  "sample_purchase =
     \<lparr>purchase_id = 21, billNo = ''PUR-1'', supplierName = ''Ravi'',
      pu_phoneNumber = ''9123456780'',
      pu_items = [\<lparr>line_id = 10, quantity = 300, price = 2\<rparr>,
                  \<lparr>line_id = 99, quantity = 60, price = 1\<rparr>],
      pu_totalAmount = 660, pu_date = ''3/4/2025'', pu_status = ''completed'', pdfUri = None,
      pu_partyId = Some 20\<rparr>"

definition new_lines_req :: purchase_req where
  "new_lines_req =
     \<lparr>rq_supplierName = None, rq_pu_phoneNumber = None,
      rq_items = Some [\<lparr>line_id = 10, quantity = 150, price = 2\<rparr>,
                       \<lparr>line_id = 11, quantity = 30, price = 1\<rparr>],
      rq_pu_date = None, rq_pu_status = None, rq_pdfUri = None\<rparr>"

definition status_only_req :: purchase_req where
  "status_only_req =
     \<lparr>rq_supplierName = None, rq_pu_phoneNumber = None, rq_items = None,
      rq_pu_date = None, rq_pu_status = Some ''cancelled'', rq_pdfUri = Some ''bill.pdf''\<rparr>"

definition bardana_purchase_req :: purchase_req where
  "bardana_purchase_req =
     sample_purchase_req\<lparr>rq_items := Some [\<lparr>line_id = 11, quantity = 30, price = 1\<rparr>]\<rparr>"

text \<open>A purchase of 10 kg of rice, a third of a bag, and a purchase whose line has a
  negative quantity.\<close>

definition ten_kg_req :: purchase_req where
  "ten_kg_req =
     sample_purchase_req\<lparr>rq_items := Some [\<lparr>line_id = 10, quantity = 10, price = 2\<rparr>]\<rparr>"







section \<open>Properties\<close>

subsection \<open>Collections\<close>

lemma find_replace_first_same:
  "f y = k \<Longrightarrow> find (\<lambda>x. f x = k) (replace_first (\<lambda>x. f x = k) y xs) =
     (case find (\<lambda>x. f x = k) xs of None \<Rightarrow> None | Some z \<Rightarrow> Some y)"
  by (induction xs) auto

lemma find_replace_first_other:
  "f y = k \<Longrightarrow> q \<noteq> k \<Longrightarrow>
   find (\<lambda>x. f x = q) (replace_first (\<lambda>x. f x = k) y xs) = find (\<lambda>x. f x = q) xs"
  by (induction xs) auto

lemma find_append:
  "find P (xs @ ys) = (case find P xs of None \<Rightarrow> find P ys | Some x \<Rightarrow> Some x)"
  by (induction xs) auto

lemma find_None_list_ex: "(find P xs = None) = (\<not> list_ex P xs)"
  by (induction xs) auto

lemma find_Some_holds: "find P xs = Some x \<Longrightarrow> P x"
  by (induction xs) (auto split: if_splits)

lemma find_upsert_same: "find (\<lambda>x. ident x = ident d) (upsert ident d xs) = Some d"
proof (cases "list_ex (\<lambda>x. ident x = ident d) xs")
  case True
  then obtain z where "find (\<lambda>x. ident x = ident d) xs = Some z"
    using find_None_list_ex[of "\<lambda>x. ident x = ident d" xs] by (cases "find (\<lambda>x. ident x = ident d) xs") auto
  with True show ?thesis
    by (simp add: upsert_def find_replace_first_same[where f = ident])
next
  case False
  then have "find (\<lambda>x. ident x = ident d) xs = None"
    by (simp add: find_None_list_ex)
  with False show ?thesis
    by (simp add: upsert_def find_append)
qed

lemma find_upsert_other:
  "k \<noteq> ident d \<Longrightarrow> find (\<lambda>x. ident x = k) (upsert ident d xs) = find (\<lambda>x. ident x = k) xs"
  by (auto simp: upsert_def find_replace_first_other find_append split: option.splits)

lemma replace_first_id: "find P xs = Some x \<Longrightarrow> replace_first P x xs = xs"
  by (induction xs) (auto split: if_splits)

lemma replace_first_twice:
  "P z \<Longrightarrow> replace_first P y (replace_first P z xs) = replace_first P y xs"
  by (induction xs) auto

subsection \<open>The ledger operations\<close>

lemma Party_updateBalance_Inr:
  "Party_updateBalance pid amt opr d = Inr d' \<Longrightarrow>
   \<exists>p. find (\<lambda>p. party_id p = pid) (parties d) = Some p \<and>
       d' = d\<lparr>parties := replace_first (\<lambda>x. party_id x = pid)
                 (p\<lparr>balance := (case opr of OpAdd \<Rightarrow> balance p + amt
                                   | OpSubtract \<Rightarrow> balance p - amt | OpSet \<Rightarrow> amt)\<rparr>) (parties d),
              ledger_calls := ledger_calls d @ [(pid, amt, opr)]\<rparr>"
  by (auto simp: Party_updateBalance_def Let_def split: option.splits)

lemma Party_updateBalance_frame:
  assumes "Party_updateBalance pid amt opr d = Inr d'"
  shows "item_docs d' = item_docs d" "purchases d' = purchases d" "payments d' = payments d"
    "next_oid d' = next_oid d" "console d' = console d"
    "ledger_calls d' = ledger_calls d @ [(pid, amt, opr)]"
  using Party_updateBalance_Inr[OF assms] by auto

lemma Party_updateBalance_balance_of:
  assumes "Party_updateBalance pid amt opr d = Inr d'"
  shows "balance_of d' q =
     (if q = pid then (case opr of OpAdd \<Rightarrow> balance_of d pid + amt
                       | OpSubtract \<Rightarrow> balance_of d pid - amt | OpSet \<Rightarrow> amt)
      else balance_of d q)"
proof -
  from Party_updateBalance_Inr[OF assms] obtain p where
    p: "find (\<lambda>p. party_id p = pid) (parties d) = Some p" and
    d': "d' = d\<lparr>parties := replace_first (\<lambda>x. party_id x = pid)
                 (p\<lparr>balance := (case opr of OpAdd \<Rightarrow> balance p + amt
                                   | OpSubtract \<Rightarrow> balance p - amt | OpSet \<Rightarrow> amt)\<rparr>) (parties d),
              ledger_calls := ledger_calls d @ [(pid, amt, opr)]\<rparr>"
    by blast
  from p have pid: "party_id p = pid" by (auto dest: find_Some_holds)
  show ?thesis
  proof (cases "q = pid")
    case True
    with p pid show ?thesis
      by (cases opr) (simp_all add: balance_of_def d' find_replace_first_same[where f = party_id])
  next
    case False
    with pid show ?thesis
      by (simp add: balance_of_def d' find_replace_first_other[where f = party_id])
  qed
qed

lemma Party_updateBalance_fails:
  "(Party_updateBalance pid amt opr d = Inl err) =
   (find (\<lambda>p. party_id p = pid) (parties d) = None \<and> err = PartyNotFound)"
  by (auto simp: Party_updateBalance_def Let_def split: option.splits)

lemma Party_findOrCreate_balance_of:
  "Party_findOrCreate name phone ty d = (p, d1) \<Longrightarrow> balance_of d1 q = balance_of d q"
  by (auto simp: Party_findOrCreate_def Let_def balance_of_def find_append
      split: option.splits if_splits)

lemma find_Some_mem: "find P xs = Some x \<Longrightarrow> x \<in> set xs"
  by (induction xs) (auto split: if_splits)

lemma Party_findOrCreate_found:
  "Party_findOrCreate name phone ty d = (p, d1) \<Longrightarrow>
   find (\<lambda>x. party_id x = party_id p) (parties d1) \<noteq> None"
  by (auto simp: Party_findOrCreate_def Let_def find_None_list_ex list_ex_iff
      split: option.splits dest: find_Some_mem)

lemma Party_findOrCreate_frame:
  assumes "Party_findOrCreate name phone ty d = (p, d1)"
  shows "item_docs d1 = item_docs d" "purchases d1 = purchases d" "payments d1 = payments d"
    "console d1 = console d" "ledger_calls d1 = ledger_calls d"
  using assms by (auto simp: Party_findOrCreate_def Let_def split: option.splits)

subsection \<open>Saving a payment\<close>

lemma Payment_save_Inr:
  "Payment_save p d = Inr (saved, d1) \<Longrightarrow>
   saved = Payment_pre_save p \<and> d1 = d\<lparr>payments := upsert payment_id saved (payments d)\<rparr>"
  by (auto simp: Payment_save_def Let_def split: if_splits)

lemma Payment_pre_save_fields [simp]:
  "amount (Payment_pre_save p) = amount p"
  "pay_partyId (Payment_pre_save p) = pay_partyId p"
  "pay_status (Payment_pre_save p) = pay_status p"
  "pay_type (Payment_pre_save p) = pay_type p"
  "payment_id (Payment_pre_save p) = payment_id p"
  "paymentNo (Payment_pre_save p) = paymentNo p"
  by (simp_all add: Payment_pre_save_def Let_def)

lemma Payment_pre_save_totalAmount:
  "pay_totalAmount (Payment_pre_save p) =
     (if pay_totalAmount p = 0 \<and> amount p \<noteq> 0 then amount p else pay_totalAmount p)"
  by (simp add: Payment_pre_save_def Let_def)

lemma updatePartyBalance_None:
  "updatePartyBalance p d = (None, d') \<Longrightarrow>
   (case pay_partyId p of
      None \<Rightarrow> d' = d
    | Some pid \<Rightarrow> Party_updateBalance pid (amount p) OpSubtract d = Inr d')"
  by (auto simp: updatePartyBalance_def Let_def split: option.splits sum.splits)

lemma updatePartyBalance_Some:
  "updatePartyBalance p d = (Some err, d') \<Longrightarrow>
   d' = log_error ''Error updating party balance:'' d \<and>
   (\<exists>pid. pay_partyId p = Some pid \<and> Party_updateBalance pid (amount p) OpSubtract d = Inl err)"
  by (auto simp: updatePartyBalance_def Let_def split: option.splits sum.splits)

lemma log_error_fields [simp]:
  "parties (log_error m d) = parties d" "item_docs (log_error m d) = item_docs d"
  "purchases (log_error m d) = purchases d" "payments (log_error m d) = payments d"
  "ledger_calls (log_error m d) = ledger_calls d" "next_oid (log_error m d) = next_oid d"
  "console (log_error m d) = console d @ [m]"
  by (simp_all add: log_error_def)

lemma balance_of_parties: "parties d' = parties d \<Longrightarrow> balance_of d' q = balance_of d q"
  by (simp add: balance_of_def)

subsection \<open>The payment routes\<close>

lemma Payment_save_frame:
  assumes "Payment_save p d = Inr (saved, d1)"
  shows "parties d1 = parties d" "ledger_calls d1 = ledger_calls d" "item_docs d1 = item_docs d"
    "console d1 = console d" "purchases d1 = purchases d"
  using Payment_save_Inr[OF assms] by auto

lemma updatePartyBalance_no_party:
  "pay_partyId p = None \<Longrightarrow> updatePartyBalance p d = (None, d)"
  by (simp add: updatePartyBalance_def)

lemma updatePartyBalance_cases:
  obtains (skipped) "pay_partyId p = None" "updatePartyBalance p d = (None, d)"
  | (applied) pid d' where "pay_partyId p = Some pid"
      "Party_updateBalance pid (amount p) OpSubtract d = Inr d'"
      "updatePartyBalance p d = (None, d')"
  | (thrown) pid where "pay_partyId p = Some pid"
      "Party_updateBalance pid (amount p) OpSubtract d = Inl PartyNotFound"
      "updatePartyBalance p d = (Some PartyNotFound, log_error ''Error updating party balance:'' d)"
proof (cases "pay_partyId p")
  case None
  then show ?thesis using skipped by (simp add: updatePartyBalance_def)
next
  case (Some pid)
  show ?thesis
  proof (cases "Party_updateBalance pid (amount p) OpSubtract d")
    case (Inl err)
    then have "err = PartyNotFound" by (simp add: Party_updateBalance_fails)
    with Inl Some show ?thesis using thrown by (simp add: updatePartyBalance_def)
  next
    case (Inr d')
    with Some show ?thesis using applied by (simp add: updatePartyBalance_def)
  qed
qed

text \<open>The status route of payments and the ledger.\<close>

lemma patch_payment_status_saved:
  assumes "find (\<lambda>p. payment_id p = i) (payments d) = Some pay"
    and "s \<in> set [''pending'', ''completed'', ''cancelled'']"
    and "Payment_save (pay\<lparr>pay_status := s\<rparr>) d = Inr (saved, d1)"
  shows "patch_payment_status e d i (Some s) =
     (if (pay_status pay = ''completed'' \<and> s = ''cancelled'') \<or>
         (pay_status pay = ''cancelled'' \<and> s = ''completed'')
      then (case updatePartyBalance saved d1 of
              (Some err, d2) \<Rightarrow>
                (Err 500 ''Failed to update payment status'' [],
                 log_error ''Error updating payment status:'' d2)
            | (None, d2) \<Rightarrow> (Json 200 (PaymentData saved), d2))
      else (Json 200 (PaymentData saved), d1))"
proof -
  from assms(2) have "s \<noteq> []" by auto
  with assms show ?thesis
    unfolding patch_payment_status_def by (simp add: Let_def)
qed

lemma patch_payment_status_failed_save:
  assumes "find (\<lambda>p. payment_id p = i) (payments d) = Some pay"
    and "Payment_save (pay\<lparr>pay_status := s\<rparr>) d = Inl err"
  shows "parties (snd (patch_payment_status e d i (Some s))) = parties d \<and>
         ledger_calls (snd (patch_payment_status e d i (Some s))) = ledger_calls d \<and>
         (\<forall>c x. fst (patch_payment_status e d i (Some s)) \<noteq> Json c x)"
  using assms unfolding patch_payment_status_def by simp

lemma patch_payment_status_no_toggle:
  assumes found: "find (\<lambda>p. payment_id p = i) (payments d) = Some pay"
    and nt: "\<not> ((pay_status pay = ''completed'' \<and> s = ''cancelled'') \<or>
            (pay_status pay = ''cancelled'' \<and> s = ''completed''))"
  shows "parties (snd (patch_payment_status e d i (Some s))) = parties d \<and>
         ledger_calls (snd (patch_payment_status e d i (Some s))) = ledger_calls d"
proof (cases "s \<in> set [''pending'', ''completed'', ''cancelled'']")
  case False
  then show ?thesis unfolding patch_payment_status_def by simp
next
  case valid: True
  show ?thesis
  proof (cases "Payment_save (pay\<lparr>pay_status := s\<rparr>) d")
    case (Inl err)
    from patch_payment_status_failed_save[OF found Inl] show ?thesis by simp
  next
    case (Inr r)
    obtain saved d1 where r: "r = (saved, d1)" by (cases r)
    from Inr r have fr: "parties d1 = parties d" "ledger_calls d1 = ledger_calls d"
      by (auto dest: Payment_save_frame)
    from patch_payment_status_saved[OF found valid Inr[unfolded r]] nt
    have "patch_payment_status e d i (Some s) = (Json 200 (PaymentData saved), d1)"
      by simp
    with fr show ?thesis by simp
  qed
qed

lemma patch_payment_status_toggle:
  assumes found: "find (\<lambda>p. payment_id p = i) (payments d) = Some pay"
    and toggle: "(pay_status pay = ''completed'' \<and> s = ''cancelled'') \<or>
                 (pay_status pay = ''cancelled'' \<and> s = ''completed'')"
    and party: "pay_partyId pay = Some pid"
    and ok: "patch_payment_status e d i (Some s) = (Json c x, d')"
  shows "ledger_calls d' = ledger_calls d @ [(pid, amount pay, OpSubtract)] \<and>
         balance_of d' pid = balance_of d pid - amount pay \<and>
         (\<forall>q. q \<noteq> pid \<longrightarrow> balance_of d' q = balance_of d q)"
proof -
  from toggle have valid: "s \<in> set [''pending'', ''completed'', ''cancelled'']" by auto
  show ?thesis
  proof (cases "Payment_save (pay\<lparr>pay_status := s\<rparr>) d")
    case (Inl err)
    from patch_payment_status_failed_save[OF found Inl, of e] ok show ?thesis by simp
  next
    case (Inr r)
    obtain saved d1 where r: "r = (saved, d1)" by (cases r)
    from Inr r have saved: "saved = Payment_pre_save (pay\<lparr>pay_status := s\<rparr>)"
      and fr: "parties d1 = parties d" "ledger_calls d1 = ledger_calls d"
      by (auto dest: Payment_save_Inr Payment_save_frame)
    from saved party have sp: "pay_partyId saved = Some pid" "amount saved = amount pay"
      by simp_all
    have eq: "patch_payment_status e d i (Some s) =
        (case updatePartyBalance saved d1 of
              (Some err, d2) \<Rightarrow>
                (Err 500 ''Failed to update payment status'' [],
                 log_error ''Error updating payment status:'' d2)
            | (None, d2) \<Rightarrow> (Json 200 (PaymentData saved), d2))"
      using patch_payment_status_saved[OF found valid Inr[unfolded r], of e] toggle
      by (simp only: if_True)
    have upd: "updatePartyBalance saved d1 = (None, d')"
    proof (cases rule: updatePartyBalance_cases[of saved d1])
      case skipped
      with sp show ?thesis by simp
    next
      case (applied pid' d'')
      with eq ok show ?thesis by simp
    next
      case (thrown pid')
      with eq ok show ?thesis by simp
    qed
    from updatePartyBalance_None[OF upd] sp
    have pu: "Party_updateBalance pid (amount pay) OpSubtract d1 = Inr d'" by simp
    from Party_updateBalance_frame(6)[OF pu] Party_updateBalance_balance_of[OF pu] fr
    show ?thesis by (simp add: balance_of_parties[OF fr(1)])
  qed
qed

lemma generateNextPaymentNumber_frame:
  assumes "generateNextPaymentNumber e ty d = (n, d0)"
  shows "parties d0 = parties d" "ledger_calls d0 = ledger_calls d" "payments d0 = payments d"
    "item_docs d0 = item_docs d" "next_oid d0 = next_oid d"
  using assms
  by (auto simp: generateNextPaymentNumber_def Let_def split: if_splits option.splits)

text \<open>The create route of payments, when it answers with success.\<close>

lemma post_payment_Json:
  assumes ok: "post_payment e d rq = (Json c x, d')"
  shows "\<exists>a saved pid d3.
           rq_amount rq = Some a \<and> 0 < a \<and> c = 201 \<and> x = PaymentData saved \<and>
           amount saved = a \<and> pay_partyId saved = Some pid \<and>
           pay_type saved = default_to ''payment-in'' (rq_type rq) \<and>
           pay_totalAmount saved =
             (if falsy_num (rq_totalAmount rq) then a else default_to 0 (rq_totalAmount rq)) \<and>
           ledger_calls d3 = ledger_calls d \<and> (\<forall>q. balance_of d3 q = balance_of d q) \<and>
           find (\<lambda>p. payment_id p = payment_id saved) (payments d3) = Some saved \<and>
           Party_updateBalance pid a OpSubtract d3 = Inr d'"
proof -
  from ok have req: "\<not> falsy_str (rq_partyName rq)" "\<not> falsy_str (rq_phoneNumber rq)"
    "\<not> falsy_num (rq_amount rq)" "\<not> falsy_str (rq_date rq)"
    by (auto simp: post_payment_def Let_def split: if_splits)
  then obtain a where a: "rq_amount rq = Some a" "a \<noteq> 0"
    by (cases "rq_amount rq") auto
  from ok req a have pos: "0 < a"
    by (auto simp: post_payment_def Let_def split: if_splits)
  define ty where "ty = default_to ''payment-in'' (rq_type rq)"
  obtain number d0 where gen: "generateNextPaymentNumber e ty d = (number, d0)"
    by (cases "generateNextPaymentNumber e ty d")
  obtain pty d1 where foc: "Party_findOrCreate (default_to [] (rq_partyName rq))
                              (default_to [] (rq_phoneNumber rq)) None d0 = (pty, d1)"
    by (cases "Party_findOrCreate (default_to [] (rq_partyName rq))
                              (default_to [] (rq_phoneNumber rq)) None d0")
  define pay where "pay = \<lparr>payment_id = next_oid d1,
                       paymentNo = trim number,
                       pay_type = ty,
                       partyName = trim (default_to [] (rq_partyName rq)),
                       pay_phoneNumber = trim (default_to [] (rq_phoneNumber rq)),
                       amount = default_to 0 (rq_amount rq),
                       pay_totalAmount = (if falsy_num (rq_totalAmount rq)
                                          then default_to 0 (rq_amount rq)
                                          else default_to 0 (rq_totalAmount rq)),
                       pay_date = default_to [] (rq_date rq),
                       pay_status = default_to ''completed'' (rq_status rq),
                       description = map_option trim (rq_description rq),
                       paymentMethod = default_to ''cash'' (rq_paymentMethod rq),
                       reference = map_option trim (rq_reference rq),
                       pay_partyId = Some (party_id pty)\<rparr>"
  define d2 where "d2 = d1\<lparr>next_oid := Suc (next_oid d1)\<rparr>"
  have unfold: "post_payment e d rq =
      (case Payment_save pay d2 of
                 Inl err \<Rightarrow>
                   (catch_response err ''Failed to create payment'',
                    log_error ''Error creating payment:'' d2)
               | Inr (saved, d3) \<Rightarrow>
                   (case updatePartyBalance saved d3 of
                      (Some err, d4) \<Rightarrow>
                        (catch_response err ''Failed to create payment'',
                         log_error ''Error creating payment:'' d4)
                    | (None, d4) \<Rightarrow> (Json 201 (PaymentData saved), d4)))"
    unfolding post_payment_def ty_def pay_def d2_def
    using req a pos gen[unfolded ty_def] foc
    by (simp add: Let_def)
  show ?thesis
  proof (cases "Payment_save pay d2")
    case (Inl err)
    with unfold ok show ?thesis by (cases err) simp_all
  next
    case (Inr r)
    obtain saved d3 where r: "r = (saved, d3)" by (cases r)
    from Payment_save_Inr[OF Inr[unfolded r]]
    have saved: "saved = Payment_pre_save pay"
      and d3: "d3 = d2\<lparr>payments := upsert payment_id saved (payments d2)\<rparr>" by simp_all
    have fields: "amount saved = a" "pay_partyId saved = Some (party_id pty)"
      "pay_type saved = ty"
      using a by (simp_all add: saved pay_def)
    have total: "pay_totalAmount saved =
        (if falsy_num (rq_totalAmount rq) then a else default_to 0 (rq_totalAmount rq))"
      using a by (cases "rq_totalAmount rq")
        (auto simp: saved pay_def Payment_pre_save_totalAmount)
    have led: "ledger_calls d3 = ledger_calls d"
      using generateNextPaymentNumber_frame(2)[OF gen] Party_findOrCreate_frame(5)[OF foc]
      by (simp add: d3 d2_def)
    have "parties d3 = parties d1" by (simp add: d3 d2_def)
    then have bal: "balance_of d3 q = balance_of d q" for q
      using Party_findOrCreate_balance_of[OF foc, of q]
        balance_of_parties[OF generateNextPaymentNumber_frame(1)[OF gen], of q]
      by (simp add: balance_of_def)
    have stored: "find (\<lambda>p. payment_id p = payment_id saved) (payments d3) = Some saved"
      by (simp add: d3 find_upsert_same)
    have upd: "updatePartyBalance saved d3 = (None, d') \<and> c = 201 \<and> x = PaymentData saved"
    proof (cases rule: updatePartyBalance_cases[of saved d3])
      case skipped
      with fields show ?thesis by simp
    next
      case (applied pid' d'')
      with unfold Inr r ok show ?thesis by simp
    next
      case (thrown pid')
      with unfold Inr r ok show ?thesis by simp
    qed
    from updatePartyBalance_None[of saved d3 d'] upd fields
    have "Party_updateBalance (party_id pty) a OpSubtract d3 = Inr d'" by simp
    with a pos upd fields total led bal stored show ?thesis
      unfolding ty_def by blast
  qed
qed

lemma update_payment_fields_simps [simp]:
  "amount (update_payment_fields rq p) = default_to (amount p) (rq_amount rq)"
  "pay_totalAmount (update_payment_fields rq p) = default_to (pay_totalAmount p) (rq_totalAmount rq)"
  "pay_partyId (update_payment_fields rq p) = pay_partyId p"
  "payment_id (update_payment_fields rq p) = payment_id p"
  "pay_type (update_payment_fields rq p) = pay_type p"
  by (simp_all add: update_payment_fields_def)

text \<open>The update route of payments.\<close>

lemma put_payment_failed_save:
  assumes "find (\<lambda>p. payment_id p = i) (payments d) = Some pay"
    and "Payment_save (update_payment_fields rq pay) d = Inl err"
  shows "parties (snd (put_payment e d i rq)) = parties d \<and>
         ledger_calls (snd (put_payment e d i rq)) = ledger_calls d \<and>
         (\<forall>c x. fst (put_payment e d i rq) \<noteq> Json c x)"
  using assms unfolding put_payment_def by (cases err) (simp_all add: Let_def)

lemma put_payment_saved:
  assumes "find (\<lambda>p. payment_id p = i) (payments d) = Some pay"
    and "Payment_save (update_payment_fields rq pay) d = Inr (saved, d1)"
  shows "put_payment e d i rq =
     (if amount pay \<noteq> amount saved \<and> pay_partyId saved \<noteq> None
      then
        (case (case pay_partyId pay of
                 None \<Rightarrow> Inl PartyNotFound
               | Some opid \<Rightarrow> Party_updateBalance opid (amount pay) OpAdd d1) of
           Inl err \<Rightarrow>
             (catch_response err ''Failed to update payment'',
              log_error ''Error updating payment:'' d1)
         | Inr d2 \<Rightarrow>
             (case updatePartyBalance saved d2 of
                (Some err, d3) \<Rightarrow>
                  (catch_response err ''Failed to update payment'',
                   log_error ''Error updating payment:'' d3)
              | (None, d3) \<Rightarrow> (Json 200 (PaymentData saved), d3)))
      else (Json 200 (PaymentData saved), d1))"
  using assms unfolding put_payment_def by (simp add: Let_def)



subsection \<open>Numbers\<close>

lemma bit_length_le: "n < 2 ^ k \<Longrightarrow> bit_length n \<le> k"
proof (induction k arbitrary: n)
  case 0
  then show ?case by (simp add: bit_length.simps)
next
  case (Suc k)
  show ?case
  proof (cases "n = 0")
    case True
    then show ?thesis by (simp add: bit_length.simps)
  next
    case False
    from Suc.prems have "n div 2 < 2 ^ k" by simp
    from Suc.IH[OF this] False show ?thesis by (simp add: bit_length.simps[of n])
  qed
qed

lemma bit_length_pos: "0 < n \<Longrightarrow> 0 < bit_length n"
  by (simp add: bit_length.simps[of n])


lemma round_half_even_of_int: "round_half_even (of_int n) = n"
  by (simp add: round_half_even_def)



lemma round_double_whole:
  assumes "x \<in> \<int>" and "\<bar>x\<bar> < 2 ^ 53"
  shows "round_double x = x"
proof (cases "x = 0")
  case True
  then show ?thesis by (simp add: round_double_def)
next
  case False
  from assms(1) obtain n where n: "x = of_int n" by (auto elim: Ints_cases)
  with False have n0: "n \<noteq> 0" by auto
  define b where "b = bit_length (nat \<bar>n\<bar>)"
  from n0 have "0 < nat \<bar>n\<bar>" by simp
  then have b1: "0 < b" unfolding b_def by (rule bit_length_pos)
  from assms(2) n have "\<bar>n\<bar> < 2 ^ 53"
    by (metis of_int_abs of_int_less_numeral_power_cancel_iff)
  then have "nat \<bar>n\<bar> < 2 ^ 53" by (simp add: nat_less_iff)
  then have b53: "b \<le> 53" unfolding b_def by (rule bit_length_le)
  have one: "1 \<le> \<bar>x\<bar>" using n n0 by (simp flip: of_int_abs)
  have fl: "\<lfloor>\<bar>x\<bar>\<rfloor> = \<bar>n\<bar>" by (simp add: n flip: of_int_abs)
  have e: "ilog2 \<bar>x\<bar> = int b - 1" using one by (simp add: ilog2_def fl b_def)
  have m: "max (ilog2 \<bar>x\<bar>) (- 1022) - 52 = - int (53 - b)" using b1 b53 by (simp add: e)
  have ulp: "pow2 (max (ilog2 \<bar>x\<bar>) (- 1022) - 52) = 1 / 2 ^ (53 - b)"
  proof -
    have "nat (int (53 - b)) = 53 - b" by simp
    then show ?thesis unfolding m by (simp add: pow2_def del: of_nat_diff)
  qed
  have "x / (1 / 2 ^ (53 - b)) = of_int (n * 2 ^ (53 - b))" by (simp add: n)
  then have r: "round_half_even (x / (1 / 2 ^ (53 - b))) = n * 2 ^ (53 - b)"
    by (simp only: round_half_even_of_int)
  have "round_double x = of_int (round_half_even (x / (1 / 2 ^ (53 - b)))) * (1 / 2 ^ (53 - b))"
    using False unfolding round_double_def Let_def ulp by (simp only: if_False)
  also have "\<dots> = x" unfolding r by (simp add: n)
  finally show ?thesis .
qed

lemma num_add_exact: "x \<in> \<int> \<Longrightarrow> y \<in> \<int> \<Longrightarrow> \<bar>x + y\<bar> < 2 ^ 53 \<Longrightarrow> num_add x y = x + y"
  by (simp add: num_add_def round_double_whole)

lemma num_sub_exact: "x \<in> \<int> \<Longrightarrow> y \<in> \<int> \<Longrightarrow> \<bar>x - y\<bar> < 2 ^ 53 \<Longrightarrow> num_sub x y = x - y"
  by (simp add: num_sub_def round_double_whole)

lemma num_div_exact: "x / y \<in> \<int> \<Longrightarrow> \<bar>x / y\<bar> < 2 ^ 53 \<Longrightarrow> num_div x y = x / y"
  by (simp add: num_div_def round_double_whole)



lemma whole_Ints: "whole x \<Longrightarrow> x \<in> \<int>"
  unfolding whole_def by (metis Ints_of_int)

lemma whole_bounds: "whole x \<Longrightarrow> 0 \<le> x \<and> x \<le> 2 ^ 50"
  by (simp add: whole_def)

lemma sum_list_Ints: "(\<forall>x \<in> set xs. f x \<in> \<int>) \<Longrightarrow> sum_list (map f xs) \<in> \<int>"
  by (induction xs) simp_all

lemma sum_list_nonneg_le:
  fixes f :: "'a \<Rightarrow> rat"
  shows "(\<forall>x \<in> set xs. 0 \<le> f x) \<Longrightarrow>
    sum_list (map f (filter P xs)) \<le> sum_list (map f xs)"
  by (induction xs) (simp_all add: add_increasing)

lemma sum_list_nonneg:
  fixes f :: "'a \<Rightarrow> rat"
  shows "(\<forall>x \<in> set xs. 0 \<le> f x) \<Longrightarrow> 0 \<le> sum_list (map f xs)"
  by (induction xs) simp_all

lemma pow_53: "(2::rat) ^ 53 = 8 * 2 ^ 50"
  by simp

lemma pow_50_pos: "0 < (2::rat) ^ 50"
  by simp

subsection \<open>The inventory\<close>

lemma shift_stock_ids [simp]: "map item_id (shift_stock g xs) = map item_id xs"
  by (simp add: shift_stock_def)

lemma shift_stock_zero: "(\<forall>x \<in> set xs. g (item_id x) = 0) \<Longrightarrow> shift_stock g xs = xs"
  by (induction xs) (simp_all add: shift_stock_def)

lemma shift_stock_twice:
  "shift_stock g (shift_stock h xs) = shift_stock (\<lambda>k. h k + g k) xs"
  by (induction xs) (simp_all add: shift_stock_def add.assoc)

lemma shift_stock_cong:
  "(\<forall>x \<in> set xs. g (item_id x) = h (item_id x)) \<Longrightarrow> shift_stock g xs = shift_stock h xs"
  by (induction xs) (simp_all add: shift_stock_def)

lemma bardana_id_shift_stock [simp]: "bardana_id (shift_stock g xs) = bardana_id xs"
  by (induction xs) (simp_all add: bardana_id_def shift_stock_def)

lemma kg_for_nonneg: "quantities_nonneg ls \<Longrightarrow> 0 \<le> kg_for k ls"
  by (induction ls) (simp_all add: kg_for_def quantities_nonneg_def)

lemma kg_for_Cons:
  "kg_for k (l # ls) = (if line_id l = k then quantity l else 0) + kg_for k ls"
  by (simp add: kg_for_def)

lemma kg_for_Nil [simp]: "kg_for k [] = 0"
  by (simp add: kg_for_def)

text \<open>One pass of a stock loop when nothing throws and ids are unique: the item with the
  line's id, if there is one, has its stock changed.\<close>

lemma stock_try_reliable:
  assumes "reliable e" and "distinct (map item_id xs)"
  shows "stock_try e f k xs =
     Inr (map (\<lambda>x. if item_id x = k then x\<lparr>openingStock := f (openingStock x)\<rparr> else x) xs)"
proof -
  have "(case find (\<lambda>x. item_id x = k) xs of
           None \<Rightarrow> xs
         | Some it \<Rightarrow> replace_first (\<lambda>x. item_id x = k) (it\<lparr>openingStock := f (openingStock it)\<rparr>) xs) =
        map (\<lambda>x. if item_id x = k then x\<lparr>openingStock := f (openingStock x)\<rparr> else x) xs"
    using assms(2)
  proof (induction xs)
    case Nil
    then show ?case by simp
  next
    case (Cons x xs)
    show ?case
    proof (cases "item_id x = k")
      case True
      from Cons.prems have "item_id x \<notin> item_id ` set xs" by simp
      with True have "\<forall>y \<in> set xs. item_id y \<noteq> k" by blast
      then have "map (\<lambda>x. if item_id x = k then x\<lparr>openingStock := f (openingStock x)\<rparr> else x) xs = xs"
        by (induction xs) simp_all
      with True show ?thesis by simp
    next
      case False
      with Cons show ?thesis by (simp split: option.splits)
    qed
  qed
  note eq = this
  from assms(1) have ok: "\<not> item_find_fails e k" "\<And>it. \<not> item_save_fails e it"
    by (simp_all add: reliable_def)
  show ?thesis
  proof (cases "find (\<lambda>x. item_id x = k) xs")
    case None
    with eq ok show ?thesis by (simp add: stock_try_def)
  next
    case (Some it)
    from find_Some_holds[OF Some] have "item_id it = k" .
    with eq ok Some show ?thesis by (simp add: stock_try_def Let_def)
  qed
qed

lemma bardana_try_reliable:
  assumes "reliable e" and "distinct (map item_id xs)"
  shows "bardana_try e f xs =
     Inr (case bardana_id xs of
            None \<Rightarrow> xs
          | Some k \<Rightarrow> map (\<lambda>x. if item_id x = k then x\<lparr>openingStock := f (openingStock x)\<rparr> else x) xs)"
proof (cases "find (\<lambda>x. isUniversal x \<and> productName x = ''Bardana'') xs")
  case None
  with assms(1) show ?thesis by (simp add: bardana_try_def bardana_id_def reliable_def)
next
  case (Some b)
  then have mem: "b \<in> set xs" by (rule find_Some_mem)
  have first: "find (\<lambda>x. item_id x = item_id b) xs = Some b"
    using assms(2) mem
  proof (induction xs)
    case Nil
    then show ?case by simp
  next
    case (Cons x xs)
    then show ?case by (cases "x = b") (auto simp: image_iff)
  qed
  from stock_try_reliable[OF assms, of f "item_id b"] first assms(1)
  have "replace_first (\<lambda>x. item_id x = item_id b) (b\<lparr>openingStock := f (openingStock b)\<rparr>) xs =
        map (\<lambda>x. if item_id x = item_id b then x\<lparr>openingStock := f (openingStock x)\<rparr> else x) xs"
    by (simp add: stock_try_def reliable_def Let_def)
  with Some assms(1) show ?thesis
    by (simp add: bardana_try_def bardana_id_def reliable_def Let_def)
qed

text \<open>Lines of whole bags: what the sums of the routes then are.\<close>

lemma bag_lines_facts:
  assumes "bag_lines ls"
  shows "\<forall>l \<in> set ls. quantity l / 30 \<in> \<int> \<and> 0 \<le> quantity l"
    and "sum_list (map quantity ls) \<le> 2 ^ 50"
    and "quantities_nonneg ls"
proof -
  show a: "\<forall>l \<in> set ls. quantity l / 30 \<in> \<int> \<and> 0 \<le> quantity l"
  proof
    fix l assume "l \<in> set ls"
    with assms have w: "whole (quantity l / 30)" by (simp add: bag_lines_def list_all_iff)
    from whole_bounds[OF w] have "0 \<le> quantity l" by simp
    with whole_Ints[OF w] show "quantity l / 30 \<in> \<int> \<and> 0 \<le> quantity l" by simp
  qed
  from assms show "sum_list (map quantity ls) \<le> 2 ^ 50" by (simp add: bag_lines_def)
  from a show "quantities_nonneg ls" by (simp add: quantities_nonneg_def list_all_iff)
qed

lemma bags_Ints:
  assumes "\<forall>l \<in> set ls. quantity l / 30 \<in> \<int> \<and> 0 \<le> quantity l"
  shows "kg_for k ls / 30 \<in> \<int>" and "sum_list (map quantity ls) / 30 \<in> \<int>"
    and "sum_list (map quantity ls) \<in> \<int>"
    and "0 \<le> kg_for k ls" and "kg_for k ls \<le> sum_list (map quantity ls)"
proof -
  have split: "sum_list (map quantity xs) / 30 = sum_list (map (\<lambda>l. quantity l / 30) xs)"
    for xs :: "line_item list"
    by (induction xs) (simp_all add: add_divide_distrib)
  have "sum_list (map (\<lambda>l. quantity l / 30) (filter (\<lambda>l. line_id l = k) ls)) \<in> \<int>"
    by (rule sum_list_Ints) (use assms in simp)
  then show "kg_for k ls / 30 \<in> \<int>" by (simp add: kg_for_def split)
  have "sum_list (map (\<lambda>l. quantity l / 30) ls) \<in> \<int>"
    by (rule sum_list_Ints) (use assms in simp)
  then show whole: "sum_list (map quantity ls) / 30 \<in> \<int>" by (simp add: split)
  have "sum_list (map quantity ls) = 30 * (sum_list (map quantity ls) / 30)" by simp
  also have "\<dots> \<in> \<int>" using whole by (intro Ints_mult) simp_all
  finally show "sum_list (map quantity ls) \<in> \<int>" .
  from assms have nn: "\<forall>l \<in> set ls. 0 \<le> quantity l" by simp
  then have "\<forall>l \<in> set (filter (\<lambda>l. line_id l = k) ls). 0 \<le> quantity l" by simp
  then show "0 \<le> kg_for k ls" unfolding kg_for_def by (rule sum_list_nonneg)
  from nn show "kg_for k ls \<le> sum_list (map quantity ls)"
    unfolding kg_for_def by (rule sum_list_nonneg_le)
qed

lemma total_kg_sum:
  assumes "\<forall>l \<in> set ls. quantity l / 30 \<in> \<int> \<and> 0 \<le> quantity l"
    and "sum_list (map quantity ls) < 2 ^ 53"
  shows "total_kg ls = sum_list (map quantity ls)"
proof -
  have "foldl (\<lambda>sum l. num_add sum (quantity l)) a ls = a + sum_list (map quantity ls)"
    if "a \<in> \<int>" and "0 \<le> a" and "a + sum_list (map quantity ls) < 2 ^ 53"
      and "\<forall>l \<in> set ls. quantity l / 30 \<in> \<int> \<and> 0 \<le> quantity l" for a
    using that
  proof (induction ls arbitrary: a)
    case Nil
    then show ?case by simp
  next
    case (Cons l ls)
    from Cons.prems(4) have q: "quantity l / 30 \<in> \<int>" "0 \<le> quantity l"
      and rest: "\<forall>l \<in> set ls. quantity l / 30 \<in> \<int> \<and> 0 \<le> quantity l"
      by simp_all
    have "quantity l = 30 * (quantity l / 30)" by simp
    also have "\<dots> \<in> \<int>" using q(1) by (intro Ints_mult) simp_all
    finally have qi: "quantity l \<in> \<int>" .
    from rest have "\<forall>l \<in> set ls. 0 \<le> quantity l" by simp
    then have s0: "0 \<le> sum_list (map quantity ls)" by (rule sum_list_nonneg)
    from Cons.prems(3) have b: "a + quantity l + sum_list (map quantity ls) < 2 ^ 53"
      by (simp add: add.assoc)
    with s0 Cons.prems(2) q(2) have "\<bar>a + quantity l\<bar> < 2 ^ 53" by simp
    then have step: "num_add a (quantity l) = a + quantity l"
      by (rule num_add_exact[OF Cons.prems(1) qi])
    have "a + quantity l \<in> \<int>" using Cons.prems(1) qi by simp
    moreover have "0 \<le> a + quantity l" using Cons.prems(2) q(2) by simp
    ultimately show ?case using Cons.IH[OF _ _ b rest] by (simp add: step add.assoc)
  qed
  from this[of 0] assms show ?thesis by (simp add: total_kg_def)
qed

text \<open>The three adjustments of a stock, on whole bags.\<close>

lemma add_bags_exact:
  assumes "q / 30 \<in> \<int>" and "0 \<le> q" and "s \<in> \<int>" and "0 \<le> s" and "s + q / 30 < 2 ^ 53"
  shows "add_bags q s = s + q / 30"
proof -
  from assms(2) have q0: "0 \<le> q / 30" by simp
  with assms(4,5) have "\<bar>q / 30\<bar> < 2 ^ 53" by simp
  then have d: "num_div q 30 = q / 30" by (rule num_div_exact[OF assms(1)])
  from q0 assms(4,5) have "\<bar>s + q / 30\<bar> < 2 ^ 53" by simp
  then have "num_add s (q / 30) = s + q / 30" by (rule num_add_exact[OF assms(3,1)])
  then show ?thesis unfolding add_bags_def Let_def d .
qed

lemma remove_bags_exact:
  assumes "q / 30 \<in> \<int>" and "0 \<le> q" and "s \<in> \<int>" and "q / 30 \<le> s" and "s < 2 ^ 53"
  shows "remove_bags q s = s - q / 30"
proof -
  from assms(2) have q0: "0 \<le> q / 30" by simp
  with assms(4,5) have "\<bar>q / 30\<bar> < 2 ^ 53" by simp
  then have d: "num_div q 30 = q / 30" by (rule num_div_exact[OF assms(1)])
  from q0 assms(4,5) have "\<bar>s - q / 30\<bar> < 2 ^ 53" by simp
  then have r: "num_sub s (q / 30) = s - q / 30" by (rule num_sub_exact[OF assms(3,1)])
  from assms(4) have "\<not> s - q / 30 < 0" by linarith
  then show ?thesis unfolding remove_bags_def Let_def d r by (simp only: if_False)
qed

lemma shift_bags_exact:
  assumes "q / 30 \<in> \<int>" and "\<bar>q / 30\<bar> < 2 ^ 53" and "s \<in> \<int>"
    and "0 \<le> s + q / 30" and "s + q / 30 < 2 ^ 53"
  shows "shift_bags q s = s + q / 30"
proof -
  have d: "num_div q 30 = q / 30" by (rule num_div_exact[OF assms(1,2)])
  from assms(4,5) have "\<bar>s + q / 30\<bar> < 2 ^ 53" by simp
  then have r: "num_add s (q / 30) = s + q / 30" by (rule num_add_exact[OF assms(3,1)])
  from assms(4) have "\<not> s + q / 30 < 0" by linarith
  then show ?thesis unfolding shift_bags_def Let_def d r by (simp only: if_False)
qed



lemma map_stock_shift:
  assumes "\<forall>x \<in> set xs. item_id x = k \<longrightarrow> f (openingStock x) = openingStock x + c"
  shows "map (\<lambda>x. if item_id x = k then x\<lparr>openingStock := f (openingStock x)\<rparr> else x) xs =
   shift_stock (\<lambda>j. if j = k then c else 0) xs"
  using assms by (induction xs) (simp_all add: shift_stock_def)

lemma increase_stock_frame [simp]:
  "parties (increase_stock e l d) = parties d" "purchases (increase_stock e l d) = purchases d"
  "ledger_calls (increase_stock e l d) = ledger_calls d"
  "payments (increase_stock e l d) = payments d" "next_oid (increase_stock e l d) = next_oid d"
  by (simp_all add: increase_stock_def split: sum.splits)

lemma restore_stock_frame [simp]:
  "parties (restore_stock e l d) = parties d" "purchases (restore_stock e l d) = purchases d"
  "ledger_calls (restore_stock e l d) = ledger_calls d"
  "payments (restore_stock e l d) = payments d" "next_oid (restore_stock e l d) = next_oid d"
  by (simp_all add: restore_stock_def split: sum.splits)

lemma update_bardana_frame [simp]:
  "parties (update_bardana e f m d) = parties d" "purchases (update_bardana e f m d) = purchases d"
  "ledger_calls (update_bardana e f m d) = ledger_calls d"
  "payments (update_bardana e f m d) = payments d" "next_oid (update_bardana e f m d) = next_oid d"
  by (simp_all add: update_bardana_def split: sum.splits)

lemma fold_increase_frame [simp]:
  "parties (fold (increase_stock e) ls d) = parties d"
  "purchases (fold (increase_stock e) ls d) = purchases d"
  "ledger_calls (fold (increase_stock e) ls d) = ledger_calls d"
  by (induction ls arbitrary: d) simp_all

lemma fold_restore_frame [simp]:
  "parties (fold (restore_stock e) ls d) = parties d"
  "purchases (fold (restore_stock e) ls d) = purchases d"
  "ledger_calls (fold (restore_stock e) ls d) = ledger_calls d"
  by (induction ls arbitrary: d) simp_all

lemma stock_steps_frame [simp]:
  "parties (stock_in e ls d) = parties d" "purchases (stock_in e ls d) = purchases d"
  "ledger_calls (stock_in e ls d) = ledger_calls d"
  "parties (stock_out e ls d) = parties d" "purchases (stock_out e ls d) = purchases d"
  "ledger_calls (stock_out e ls d) = ledger_calls d"
  "parties (restock_update e old ls d) = parties d"
  "purchases (restock_update e old ls d) = purchases d"
  "ledger_calls (restock_update e old ls d) = ledger_calls d"
  by (simp_all add: stock_in_def stock_out_def restock_update_def Let_def)

text \<open>The loops when nothing throws and ids are unique, on whole bags.\<close>

lemma increase_stock_reliable:
  assumes "reliable e" and "distinct (map item_id (item_docs d))"
    and "quantity l / 30 \<in> \<int>" and "0 \<le> quantity l"
    and "\<forall>x \<in> set (item_docs d). item_id x = line_id l \<longrightarrow>
           openingStock x \<in> \<int> \<and> 0 \<le> openingStock x \<and>
           openingStock x + quantity l / 30 < 2 ^ 53"
  shows "item_docs (increase_stock e l d) =
     shift_stock (\<lambda>j. if j = line_id l then quantity l / 30 else 0) (item_docs d)"
proof -
  have "\<forall>x \<in> set (item_docs d). item_id x = line_id l \<longrightarrow>
      add_bags (quantity l) (openingStock x) = openingStock x + quantity l / 30"
  proof (intro ballI impI)
    fix x assume "x \<in> set (item_docs d)" "item_id x = line_id l"
    with assms(5) have "openingStock x \<in> \<int>" "0 \<le> openingStock x"
      "openingStock x + quantity l / 30 < 2 ^ 53"
      by blast+
    then show "add_bags (quantity l) (openingStock x) = openingStock x + quantity l / 30"
      by (rule add_bags_exact[OF assms(3,4)])
  qed
  from map_stock_shift[OF this]
    stock_try_reliable[OF assms(1,2), of "add_bags (quantity l)" "line_id l"]
  show ?thesis by (simp add: increase_stock_def)
qed

lemma fold_increase_reliable:
  assumes "reliable e" and "distinct (map item_id (item_docs d))"
    and "\<forall>l \<in> set ls. quantity l / 30 \<in> \<int> \<and> 0 \<le> quantity l"
    and "\<forall>x \<in> set (item_docs d). openingStock x \<in> \<int> \<and> 0 \<le> openingStock x \<and>
           openingStock x + kg_for (item_id x) ls / 30 < 2 ^ 53"
  shows "item_docs (fold (increase_stock e) ls d) =
     shift_stock (\<lambda>k. kg_for k ls / 30) (item_docs d)"
  using assms(2-4)
proof (induction ls arbitrary: d)
  case Nil
  then show ?case by (simp add: shift_stock_zero)
next
  case (Cons l ls)
  from Cons.prems(2) have q: "quantity l / 30 \<in> \<int>" "0 \<le> quantity l"
    and rest: "\<forall>l \<in> set ls. quantity l / 30 \<in> \<int> \<and> 0 \<le> quantity l"
    by simp_all
  have eq: "kg_for k (l # ls) / 30 =
      (if line_id l = k then quantity l / 30 else 0) + kg_for k ls / 30" for k
    by (simp add: kg_for_Cons add_divide_distrib)
  have rest0: "0 \<le> kg_for k ls / 30" for k
    using bags_Ints(4)[OF rest, of k] by simp
  have room: "\<forall>x \<in> set (item_docs d). item_id x = line_id l \<longrightarrow>
           openingStock x \<in> \<int> \<and> 0 \<le> openingStock x \<and>
           openingStock x + quantity l / 30 < 2 ^ 53"
  proof (intro ballI impI)
    fix x assume x: "x \<in> set (item_docs d)" "item_id x = line_id l"
    from Cons.prems(3) x(1) have h: "openingStock x \<in> \<int>" "0 \<le> openingStock x"
      "openingStock x + kg_for (item_id x) (l # ls) / 30 < 2 ^ 53"
      by blast+
    from h(3) x(2) have "openingStock x + (quantity l / 30 + kg_for (item_id x) ls / 30) < 2 ^ 53"
      unfolding eq by (simp only: refl if_True)
    with rest0[of "item_id x"] have "openingStock x + quantity l / 30 < 2 ^ 53" by linarith
    with h(1,2) show "openingStock x \<in> \<int> \<and> 0 \<le> openingStock x \<and>
           openingStock x + quantity l / 30 < 2 ^ 53"
      by blast
  qed
  have step: "item_docs (increase_stock e l d) =
     shift_stock (\<lambda>j. if j = line_id l then quantity l / 30 else 0) (item_docs d)"
    by (rule increase_stock_reliable[OF assms(1) Cons.prems(1) q room])
  then have dist: "distinct (map item_id (item_docs (increase_stock e l d)))"
    using Cons.prems(1) by simp
  have left: "\<forall>y \<in> set (item_docs (increase_stock e l d)).
      openingStock y \<in> \<int> \<and> 0 \<le> openingStock y \<and>
      openingStock y + kg_for (item_id y) ls / 30 < 2 ^ 53"
  proof
    fix y assume "y \<in> set (item_docs (increase_stock e l d))"
    then obtain x where x: "x \<in> set (item_docs d)"
      and y: "y = x\<lparr>openingStock := openingStock x +
                 (if item_id x = line_id l then quantity l / 30 else 0)\<rparr>"
      by (auto simp: step shift_stock_def)
    from Cons.prems(3) x have h: "openingStock x \<in> \<int>" "0 \<le> openingStock x"
      "openingStock x + kg_for (item_id x) (l # ls) / 30 < 2 ^ 53"
      by blast+
    have oy: "item_id y = item_id x"
      "openingStock y = openingStock x +
         (if item_id x = line_id l then quantity l / 30 else 0)"
      by (simp_all add: y)
    show "openingStock y \<in> \<int> \<and> 0 \<le> openingStock y \<and>
      openingStock y + kg_for (item_id y) ls / 30 < 2 ^ 53"
    proof (cases "item_id x = line_id l")
      case True
      then have same: "line_id l = item_id x" by simp
      from h(3) have "openingStock x + (quantity l / 30 + kg_for (item_id x) ls / 30) < 2 ^ 53"
        unfolding eq same by (simp only: refl if_True)
      then have b: "openingStock x + quantity l / 30 + kg_for (item_id x) ls / 30 < 2 ^ 53"
        by linarith
      from q(2) have "0 \<le> quantity l / 30" by simp
      with h(2) have nn: "0 \<le> openingStock x + quantity l / 30" by linarith
      from h(1) q(1) have "openingStock x + quantity l / 30 \<in> \<int>" by simp
      with b nn True show ?thesis unfolding oy by (simp only: refl if_True simp_thms)
    next
      case False
      then have "line_id l \<noteq> item_id x" by auto
      with h(3) have "openingStock x + kg_for (item_id x) ls / 30 < 2 ^ 53"
        unfolding eq by (simp only: if_False add_0_left)
      with h(1,2) False show ?thesis unfolding oy by (simp only: if_False add_0_right simp_thms)
    qed
  qed
  from Cons.IH[OF dist rest left] step
  have "item_docs (fold (increase_stock e) (l # ls) d) =
      shift_stock (\<lambda>k. (if k = line_id l then quantity l / 30 else 0) + kg_for k ls / 30)
        (item_docs d)"
    by (simp add: shift_stock_twice)
  also have "(\<lambda>k. (if k = line_id l then quantity l / 30 else 0) + kg_for k ls / 30) =
      (\<lambda>k. kg_for k (l # ls) / 30)"
    by (rule ext) (simp add: kg_for_Cons add_divide_distrib)
  finally show ?case .
qed

lemma restore_stock_reliable:
  assumes "reliable e" and "distinct (map item_id (item_docs d))"
    and "quantity l / 30 \<in> \<int>" and "0 \<le> quantity l"
    and "\<forall>x \<in> set (item_docs d). item_id x = line_id l \<longrightarrow>
           openingStock x \<in> \<int> \<and> openingStock x < 2 ^ 53 \<and> quantity l / 30 \<le> openingStock x"
  shows "item_docs (restore_stock e l d) =
     shift_stock (\<lambda>j. if j = line_id l then - (quantity l / 30) else 0) (item_docs d)"
proof -
  have "\<forall>x \<in> set (item_docs d). item_id x = line_id l \<longrightarrow>
      remove_bags (quantity l) (openingStock x) = openingStock x + - (quantity l / 30)"
  proof (intro ballI impI)
    fix x assume "x \<in> set (item_docs d)" "item_id x = line_id l"
    with assms(5) have h: "openingStock x \<in> \<int>" "quantity l / 30 \<le> openingStock x"
      "openingStock x < 2 ^ 53"
      by blast+
    from remove_bags_exact[OF assms(3,4) h]
    show "remove_bags (quantity l) (openingStock x) = openingStock x + - (quantity l / 30)"
      by simp
  qed
  from map_stock_shift[OF this]
    stock_try_reliable[OF assms(1,2), of "remove_bags (quantity l)" "line_id l"]
  show ?thesis by (simp add: restore_stock_def)
qed

lemma fold_restore_reliable:
  assumes "reliable e" and "distinct (map item_id (item_docs d))"
    and "\<forall>l \<in> set ls. quantity l / 30 \<in> \<int> \<and> 0 \<le> quantity l"
    and "\<forall>x \<in> set (item_docs d). openingStock x \<in> \<int> \<and> openingStock x < 2 ^ 53 \<and>
           kg_for (item_id x) ls / 30 \<le> openingStock x"
  shows "item_docs (fold (restore_stock e) ls d) =
     shift_stock (\<lambda>k. - (kg_for k ls / 30)) (item_docs d)"
  using assms(2-4)
proof (induction ls arbitrary: d)
  case Nil
  then show ?case by (simp add: shift_stock_zero)
next
  case (Cons l ls)
  from Cons.prems(2) have q: "quantity l / 30 \<in> \<int>" "0 \<le> quantity l"
    and rest: "\<forall>l \<in> set ls. quantity l / 30 \<in> \<int> \<and> 0 \<le> quantity l"
    by simp_all
  have eq: "kg_for k (l # ls) / 30 =
      (if line_id l = k then quantity l / 30 else 0) + kg_for k ls / 30" for k
    by (simp add: kg_for_Cons add_divide_distrib)
  have rest0: "0 \<le> kg_for k ls / 30" for k
    using bags_Ints(4)[OF rest, of k] by simp
  from q(2) have q0: "0 \<le> quantity l / 30" by simp
  have enough: "\<forall>x \<in> set (item_docs d). item_id x = line_id l \<longrightarrow>
      openingStock x \<in> \<int> \<and> openingStock x < 2 ^ 53 \<and> quantity l / 30 \<le> openingStock x"
  proof (intro ballI impI)
    fix x assume x: "x \<in> set (item_docs d)" "item_id x = line_id l"
    from Cons.prems(3) x(1) have h: "openingStock x \<in> \<int>" "openingStock x < 2 ^ 53"
      "kg_for (item_id x) (l # ls) / 30 \<le> openingStock x"
      by blast+
    from h(3) x(2) have "quantity l / 30 + kg_for (item_id x) ls / 30 \<le> openingStock x"
      unfolding eq by (simp only: refl if_True)
    with rest0[of "item_id x"] have "quantity l / 30 \<le> openingStock x" by linarith
    with h(1,2) show "openingStock x \<in> \<int> \<and> openingStock x < 2 ^ 53 \<and>
        quantity l / 30 \<le> openingStock x"
      by blast
  qed
  have step: "item_docs (restore_stock e l d) =
     shift_stock (\<lambda>j. if j = line_id l then - (quantity l / 30) else 0) (item_docs d)"
    by (rule restore_stock_reliable[OF assms(1) Cons.prems(1) q enough])
  then have dist: "distinct (map item_id (item_docs (restore_stock e l d)))"
    using Cons.prems(1) by simp
  have left: "\<forall>y \<in> set (item_docs (restore_stock e l d)).
      openingStock y \<in> \<int> \<and> openingStock y < 2 ^ 53 \<and>
      kg_for (item_id y) ls / 30 \<le> openingStock y"
  proof
    fix y assume "y \<in> set (item_docs (restore_stock e l d))"
    then obtain x where x: "x \<in> set (item_docs d)"
      and y: "y = x\<lparr>openingStock := openingStock x +
                 (if item_id x = line_id l then - (quantity l / 30) else 0)\<rparr>"
      by (auto simp: step shift_stock_def)
    from Cons.prems(3) x have h: "openingStock x \<in> \<int>" "openingStock x < 2 ^ 53"
      "kg_for (item_id x) (l # ls) / 30 \<le> openingStock x"
      by blast+
    have oy: "item_id y = item_id x"
      "openingStock y = openingStock x +
         (if item_id x = line_id l then - (quantity l / 30) else 0)"
      by (simp_all add: y)
    show "openingStock y \<in> \<int> \<and> openingStock y < 2 ^ 53 \<and>
      kg_for (item_id y) ls / 30 \<le> openingStock y"
    proof (cases "item_id x = line_id l")
      case True
      then have same: "line_id l = item_id x" by simp
      from h(3) have "quantity l / 30 + kg_for (item_id x) ls / 30 \<le> openingStock x"
        unfolding eq same by (simp only: refl if_True)
      then have b: "kg_for (item_id x) ls / 30 \<le> openingStock x + - (quantity l / 30)"
        by linarith
      from h(2) q0 have lt: "openingStock x + - (quantity l / 30) < 2 ^ 53" by linarith
      from h(1) q(1) have "openingStock x + - (quantity l / 30) \<in> \<int>" by simp
      with b lt True show ?thesis unfolding oy by (simp only: refl if_True simp_thms)
    next
      case False
      then have "line_id l \<noteq> item_id x" by auto
      with h(3) have "kg_for (item_id x) ls / 30 \<le> openingStock x"
        unfolding eq by (simp only: if_False add_0_left)
      with h(1,2) False show ?thesis unfolding oy by (simp only: if_False add_0_right simp_thms)
    qed
  qed
  from Cons.IH[OF dist rest left] step
  have "item_docs (fold (restore_stock e) (l # ls) d) =
      shift_stock (\<lambda>k. (if k = line_id l then - (quantity l / 30) else 0) + - (kg_for k ls / 30))
        (item_docs d)"
    by (simp add: shift_stock_twice)
  also have "(\<lambda>k. (if k = line_id l then - (quantity l / 30) else 0) + - (kg_for k ls / 30)) =
      (\<lambda>k. - (kg_for k (l # ls) / 30))"
    by (rule ext) (simp add: kg_for_Cons add_divide_distrib)
  finally show ?case .
qed

lemma update_bardana_reliable:
  assumes "reliable e" and "distinct (map item_id (item_docs d))"
  shows "item_docs (update_bardana e f m d) =
     (case bardana_id (item_docs d) of
        None \<Rightarrow> item_docs d
      | Some k \<Rightarrow> map (\<lambda>x. if item_id x = k then x\<lparr>openingStock := f (openingStock x)\<rparr> else x)
                    (item_docs d))"
  using bardana_try_reliable[OF assms, of f]
  by (simp add: update_bardana_def split: option.splits)

text \<open>The three stock parts, on an inventory of whole bags that holds a purchase of whole
  bags.\<close>

lemma whole_stocks_facts:
  assumes "whole_stocks xs" and "x \<in> set xs"
  shows "openingStock x \<in> \<int>" and "0 \<le> openingStock x" and "openingStock x \<le> 2 ^ 50"
proof -
  from assms have w: "whole (openingStock x)" by (simp add: whole_stocks_def list_all_iff)
  from whole_Ints[OF w] show "openingStock x \<in> \<int>" .
  from whole_bounds[OF w] show "0 \<le> openingStock x" and "openingStock x \<le> 2 ^ 50" by simp_all
qed

lemma shift_stock_mem:
  assumes "y \<in> set (shift_stock g xs)"
  obtains x where "x \<in> set xs" and "item_id y = item_id x"
    and "openingStock y = openingStock x + g (item_id x)"
  using assms by (auto simp: shift_stock_def)

lemma stock_in_reliable:
  assumes rel: "reliable e" and dist: "distinct (map item_id (item_docs d))"
    and ws: "whole_stocks (item_docs d)" and bl: "bag_lines ls"
  shows "item_docs (stock_in e ls d) = with_purchase (item_docs d) ls"
proof -
  note lines = bag_lines_facts(1)[OF bl] and total = bag_lines_facts(2)[OF bl]
  note kg = bags_Ints[OF lines]
  note stock = whole_stocks_facts[OF ws]
  have small: "0 \<le> kg_for k ls / 30" "kg_for k ls / 30 \<le> 2 ^ 50" for k
    using kg(4,5)[of k] total by simp_all
  from kg(4,5)[of 0] total
  have sum: "0 \<le> sum_list (map quantity ls)" "sum_list (map quantity ls) / 30 \<le> 2 ^ 50"
    by simp_all
  have room: "\<forall>x \<in> set (item_docs d). openingStock x \<in> \<int> \<and> 0 \<le> openingStock x \<and>
           openingStock x + kg_for (item_id x) ls / 30 < 2 ^ 53"
  proof
    fix x assume x: "x \<in> set (item_docs d)"
    from stock(3)[OF x] small(2)[of "item_id x"] pow_50_pos
    have "openingStock x + kg_for (item_id x) ls / 30 < 2 ^ 53" unfolding pow_53 by linarith
    with stock(1,2)[OF x] show "openingStock x \<in> \<int> \<and> 0 \<le> openingStock x \<and>
           openingStock x + kg_for (item_id x) ls / 30 < 2 ^ 53"
      by blast
  qed
  let ?d1 = "fold (increase_stock e) ls d"
  have xs1: "item_docs ?d1 = shift_stock (\<lambda>k. kg_for k ls / 30) (item_docs d)"
    by (rule fold_increase_reliable[OF rel dist lines room])
  then have d1: "distinct (map item_id (item_docs ?d1))" using dist by simp
  show ?thesis
  proof (cases "bardana_id (item_docs d)")
    case None
    then have "purchase_bags (item_docs d) ls = (\<lambda>k. kg_for k ls / 30)"
      by (intro ext) (simp add: purchase_bags_def)
    with None xs1 update_bardana_reliable[OF rel d1] show ?thesis
      by (simp add: stock_in_def with_purchase_def)
  next
    case (Some kb)
    have tk: "total_kg ls = sum_list (map quantity ls)"
    proof (rule total_kg_sum[OF lines])
      from total pow_50_pos show "sum_list (map quantity ls) < 2 ^ 53"
        unfolding pow_53 by linarith
    qed
    have ex: "\<forall>y \<in> set (item_docs ?d1). item_id y = kb \<longrightarrow>
        add_bags (total_kg ls) (openingStock y) =
        openingStock y + sum_list (map quantity ls) / 30"
    proof (intro ballI impI)
      fix y assume "y \<in> set (item_docs ?d1)"
      then obtain x where x: "x \<in> set (item_docs d)"
        and oy: "openingStock y = openingStock x + kg_for (item_id x) ls / 30"
        unfolding xs1 by (rule shift_stock_mem)
      from stock(1)[OF x] kg(1)[of "item_id x"] have i: "openingStock y \<in> \<int>"
        unfolding oy by simp
      from stock(2)[OF x] small(1)[of "item_id x"] have n: "0 \<le> openingStock y"
        unfolding oy by linarith
      from stock(3)[OF x] small(2)[of "item_id x"] sum(2) pow_50_pos
      have b: "openingStock y + sum_list (map quantity ls) / 30 < 2 ^ 53"
        unfolding oy pow_53 by linarith
      show "add_bags (total_kg ls) (openingStock y) =
        openingStock y + sum_list (map quantity ls) / 30"
        unfolding tk by (rule add_bags_exact[OF kg(2) sum(1) i n b])
    qed
    have "purchase_bags (item_docs d) ls =
        (\<lambda>k. kg_for k ls / 30 + (if k = kb then sum_list (map quantity ls) / 30 else 0))"
      by (rule ext) (auto simp: purchase_bags_def Some)
    with Some xs1 update_bardana_reliable[OF rel d1, of "add_bags (total_kg ls)"]
      map_stock_shift[OF ex]
    show ?thesis
      by (simp add: stock_in_def with_purchase_def shift_stock_twice)
  qed
qed

lemma with_purchase_mem:
  assumes ws: "whole_stocks base" and bl: "bag_lines ls"
    and y: "y \<in> set (with_purchase base ls)"
  obtains x where "x \<in> set base" and "item_id y = item_id x"
    and "openingStock y = openingStock x + purchase_bags base ls (item_id x)"
    and "openingStock y \<in> \<int>" and "openingStock y < 2 ^ 53"
    and "kg_for (item_id y) ls / 30 \<le> openingStock y"
proof -
  note lines = bag_lines_facts(1)[OF bl] and total = bag_lines_facts(2)[OF bl]
  note kg = bags_Ints[OF lines]
  from y obtain x where x: "x \<in> set base" and id: "item_id y = item_id x"
    and oy: "openingStock y = openingStock x + purchase_bags base ls (item_id x)"
    unfolding with_purchase_def by (rule shift_stock_mem)
  note stock = whole_stocks_facts[OF ws x]
  have small: "0 \<le> kg_for (item_id x) ls / 30" "kg_for (item_id x) ls / 30 \<le> 2 ^ 50"
    using kg(4,5)[of "item_id x"] total by simp_all
  from kg(4,5)[of 0] total
  have sum: "0 \<le> sum_list (map quantity ls) / 30" "sum_list (map quantity ls) / 30 \<le> 2 ^ 50"
    by simp_all
  have pb: "purchase_bags base ls (item_id x) \<in> \<int>"
    "kg_for (item_id x) ls / 30 \<le> purchase_bags base ls (item_id x)"
    "purchase_bags base ls (item_id x) \<le> 2 * 2 ^ 50"
    using kg(1)[of "item_id x"] kg(2) small sum by (simp_all add: purchase_bags_def)
  from stock(1) pb(1) have "openingStock y \<in> \<int>" unfolding oy by simp
  moreover from stock(3) pb(3) pow_50_pos have "openingStock y < 2 ^ 53"
    unfolding oy pow_53 by linarith
  moreover from stock(2) pb(2) have "kg_for (item_id y) ls / 30 \<le> openingStock y"
    unfolding oy id by linarith
  ultimately show thesis using that[OF x id oy] by blast
qed

lemma restore_purchase_reliable:
  assumes rel: "reliable e" and dist: "distinct (map item_id base)"
    and ws: "whole_stocks base" and bl: "bag_lines ls"
    and holds: "item_docs d = with_purchase base ls"
  shows "item_docs (fold (restore_stock e) ls d) =
      shift_stock (\<lambda>k. if bardana_id base = Some k then sum_list (map quantity ls) / 30 else 0)
        base"
proof -
  note lines = bag_lines_facts(1)[OF bl]
  from holds dist have d0: "distinct (map item_id (item_docs d))"
    by (simp add: with_purchase_def)
  have enough: "\<forall>y \<in> set (item_docs d). openingStock y \<in> \<int> \<and> openingStock y < 2 ^ 53 \<and>
           kg_for (item_id y) ls / 30 \<le> openingStock y"
  proof
    fix y assume "y \<in> set (item_docs d)"
    then have "y \<in> set (with_purchase base ls)" by (simp add: holds)
    from ws bl this show "openingStock y \<in> \<int> \<and> openingStock y < 2 ^ 53 \<and>
           kg_for (item_id y) ls / 30 \<le> openingStock y"
      by (rule with_purchase_mem) blast
  qed
  have "item_docs (fold (restore_stock e) ls d) =
      shift_stock (\<lambda>k. - (kg_for k ls / 30)) (item_docs d)"
    by (rule fold_restore_reliable[OF rel d0 lines enough])
  also have "\<dots> = shift_stock (\<lambda>k. purchase_bags base ls k + - (kg_for k ls / 30)) base"
    by (simp add: holds with_purchase_def shift_stock_twice)
  also have "(\<lambda>k. purchase_bags base ls k + - (kg_for k ls / 30)) =
      (\<lambda>k. if bardana_id base = Some k then sum_list (map quantity ls) / 30 else 0)"
    by (rule ext) (simp add: purchase_bags_def)
  finally show ?thesis .
qed

lemma stock_out_reliable:
  assumes rel: "reliable e" and dist: "distinct (map item_id base)"
    and ws: "whole_stocks base" and bl: "bag_lines ls"
    and holds: "item_docs d = with_purchase base ls"
  shows "item_docs (stock_out e ls d) = base"
proof -
  note lines = bag_lines_facts(1)[OF bl] and total = bag_lines_facts(2)[OF bl]
  note kg = bags_Ints[OF lines]
  note stock = whole_stocks_facts[OF ws]
  from kg(4,5)[of 0] total
  have sum: "0 \<le> sum_list (map quantity ls)" "0 \<le> sum_list (map quantity ls) / 30"
    "sum_list (map quantity ls) / 30 \<le> 2 ^ 50"
    by simp_all
  let ?d1 = "fold (restore_stock e) ls d"
  have xs1: "item_docs ?d1 =
      shift_stock (\<lambda>k. if bardana_id base = Some k then sum_list (map quantity ls) / 30 else 0)
        base"
    by (rule restore_purchase_reliable[OF rel dist ws bl holds])
  then have d1: "distinct (map item_id (item_docs ?d1))" using dist by simp
  show ?thesis
  proof (cases "bardana_id base")
    case None
    with xs1 update_bardana_reliable[OF rel d1] show ?thesis
      by (simp add: stock_out_def shift_stock_zero)
  next
    case (Some kb)
    have tk: "total_kg ls = sum_list (map quantity ls)"
    proof (rule total_kg_sum[OF lines])
      from total pow_50_pos show "sum_list (map quantity ls) < 2 ^ 53"
        unfolding pow_53 by linarith
    qed
    have ex: "\<forall>y \<in> set (item_docs ?d1). item_id y = kb \<longrightarrow>
        remove_bags (total_kg ls) (openingStock y) =
        openingStock y + - (sum_list (map quantity ls) / 30)"
    proof (intro ballI impI)
      fix y assume y: "y \<in> set (item_docs ?d1)" and kb: "item_id y = kb"
      from y obtain x where x: "x \<in> set base" and id: "item_id y = item_id x"
        and oy: "openingStock y = openingStock x +
          (if bardana_id base = Some (item_id x) then sum_list (map quantity ls) / 30 else 0)"
        unfolding xs1 by (rule shift_stock_mem)
      from kb id Some have oy': "openingStock y = openingStock x + sum_list (map quantity ls) / 30"
        unfolding oy by simp
      from stock(1)[OF x] kg(2) have i: "openingStock y \<in> \<int>" unfolding oy' by simp
      from stock(2)[OF x] have le: "sum_list (map quantity ls) / 30 \<le> openingStock y"
        unfolding oy' by linarith
      from stock(3)[OF x] sum(3) pow_50_pos have b: "openingStock y < 2 ^ 53"
        unfolding oy' pow_53 by linarith
      from remove_bags_exact[OF kg(2) sum(1) i le b]
      show "remove_bags (total_kg ls) (openingStock y) =
        openingStock y + - (sum_list (map quantity ls) / 30)"
        unfolding tk by simp
    qed
    have "item_docs (stock_out e ls d) =
        shift_stock (\<lambda>j. if j = kb then - (sum_list (map quantity ls) / 30) else 0)
          (item_docs ?d1)"
      using update_bardana_reliable[OF rel d1, of "remove_bags (total_kg ls)"] Some xs1
        map_stock_shift[OF ex]
      by (simp add: stock_out_def)
    also have "\<dots> = shift_stock
        (\<lambda>k. (if bardana_id base = Some k then sum_list (map quantity ls) / 30 else 0) +
              (if k = kb then - (sum_list (map quantity ls) / 30) else 0)) base"
      by (simp add: xs1 shift_stock_twice)
    also have "\<dots> = base"
      by (rule shift_stock_zero) (simp add: Some)
    finally show ?thesis .
  qed
qed

lemma restock_update_reliable:
  assumes rel: "reliable e" and dist: "distinct (map item_id base)"
    and ws: "whole_stocks base" and bl: "bag_lines old" and bl': "bag_lines new"
    and holds: "item_docs d = with_purchase base old"
  shows "item_docs (restock_update e old new d) = with_purchase base new"
proof -
  note lines = bag_lines_facts(1)[OF bl] and total = bag_lines_facts(2)[OF bl]
  note lines' = bag_lines_facts(1)[OF bl'] and total' = bag_lines_facts(2)[OF bl']
  note kg = bags_Ints[OF lines] and kg' = bags_Ints[OF lines']
  note stock = whole_stocks_facts[OF ws]
  from kg(4,5)[of 0] total
  have sum: "0 \<le> sum_list (map quantity old)" "0 \<le> sum_list (map quantity old) / 30"
    "sum_list (map quantity old) / 30 \<le> 2 ^ 50"
    by simp_all
  from kg'(4,5)[of 0] total'
  have sum': "0 \<le> sum_list (map quantity new)" "0 \<le> sum_list (map quantity new) / 30"
    "sum_list (map quantity new) / 30 \<le> 2 ^ 50"
    by simp_all
  have small': "0 \<le> kg_for k new / 30" "kg_for k new / 30 \<le> 2 ^ 50" for k
    using kg'(4,5)[of k] total' by simp_all
  let ?d1 = "fold (restore_stock e) old d"
  have xs1: "item_docs ?d1 =
      shift_stock (\<lambda>k. if bardana_id base = Some k then sum_list (map quantity old) / 30 else 0)
        base"
    by (rule restore_purchase_reliable[OF rel dist ws bl holds])
  then have d1: "distinct (map item_id (item_docs ?d1))" using dist by simp
  have room: "\<forall>y \<in> set (item_docs ?d1). openingStock y \<in> \<int> \<and> 0 \<le> openingStock y \<and>
           openingStock y + kg_for (item_id y) new / 30 < 2 ^ 53"
  proof
    fix y assume "y \<in> set (item_docs ?d1)"
    then obtain x where x: "x \<in> set base" and id: "item_id y = item_id x"
      and oy: "openingStock y = openingStock x +
        (if bardana_id base = Some (item_id x) then sum_list (map quantity old) / 30 else 0)"
      unfolding xs1 by (rule shift_stock_mem)
    have c: "(if bardana_id base = Some (item_id x) then sum_list (map quantity old) / 30 else 0)
        \<in> \<int>"
      "0 \<le> (if bardana_id base = Some (item_id x) then sum_list (map quantity old) / 30 else 0)"
      "(if bardana_id base = Some (item_id x) then sum_list (map quantity old) / 30 else 0)
        \<le> 2 ^ 50"
      using kg(2) sum(2,3) by simp_all
    from stock(1)[OF x] c(1) have "openingStock y \<in> \<int>" unfolding oy by simp
    moreover from stock(2)[OF x] c(2) have "0 \<le> openingStock y" unfolding oy by linarith
    moreover from stock(3)[OF x] c(3) small'(2)[of "item_id y"] pow_50_pos
    have "openingStock y + kg_for (item_id y) new / 30 < 2 ^ 53" unfolding oy pow_53 by linarith
    ultimately show "openingStock y \<in> \<int> \<and> 0 \<le> openingStock y \<and>
           openingStock y + kg_for (item_id y) new / 30 < 2 ^ 53"
      by blast
  qed
  let ?d2 = "fold (increase_stock e) new ?d1"
  have xs2: "item_docs ?d2 =
      shift_stock (\<lambda>k. (if bardana_id base = Some k then sum_list (map quantity old) / 30 else 0) +
                       kg_for k new / 30) base"
    using fold_increase_reliable[OF rel d1 lines' room] by (simp add: xs1 shift_stock_twice)
  then have d2: "distinct (map item_id (item_docs ?d2))" using dist by simp
  show ?thesis
  proof (cases "bardana_id base")
    case None
    then have "purchase_bags base new = (\<lambda>k. kg_for k new / 30)"
      by (intro ext) (simp add: purchase_bags_def)
    with None xs2 update_bardana_reliable[OF rel d2] show ?thesis
      by (simp add: restock_update_def with_purchase_def Let_def)
  next
    case (Some kb)
    let ?q = "sum_list (map quantity new) - sum_list (map quantity old)"
    have tk: "total_kg old = sum_list (map quantity old)"
    proof (rule total_kg_sum[OF lines])
      from total pow_50_pos show "sum_list (map quantity old) < 2 ^ 53"
        unfolding pow_53 by linarith
    qed
    have tk': "total_kg new = sum_list (map quantity new)"
    proof (rule total_kg_sum[OF lines'])
      from total' pow_50_pos show "sum_list (map quantity new) < 2 ^ 53"
        unfolding pow_53 by linarith
    qed
    from sum(1) sum'(1) total total' pow_50_pos have "\<bar>?q\<bar> < 2 ^ 53"
      unfolding pow_53 by linarith
    then have diff: "num_sub (total_kg new) (total_kg old) = ?q"
      unfolding tk tk' by (rule num_sub_exact[OF kg'(3) kg(3)])
    have q30: "?q / 30 =
        sum_list (map quantity new) / 30 - sum_list (map quantity old) / 30"
      by (simp add: diff_divide_distrib)
    from kg'(2) kg(2) have qi: "?q / 30 \<in> \<int>" unfolding q30 by simp
    from sum(2,3) sum'(2,3) pow_50_pos have qb: "\<bar>?q / 30\<bar> < 2 ^ 53"
      unfolding q30 pow_53 by linarith
    have ex: "\<forall>y \<in> set (item_docs ?d2). item_id y = kb \<longrightarrow>
        shift_bags (num_sub (total_kg new) (total_kg old)) (openingStock y) =
        openingStock y + ?q / 30"
    proof (intro ballI impI)
      fix y assume y: "y \<in> set (item_docs ?d2)" and kb: "item_id y = kb"
      from y obtain x where x: "x \<in> set base" and id: "item_id y = item_id x"
        and oy: "openingStock y = openingStock x +
          ((if bardana_id base = Some (item_id x) then sum_list (map quantity old) / 30 else 0) +
           kg_for (item_id x) new / 30)"
        unfolding xs2 by (rule shift_stock_mem)
      from kb id Some have oy': "openingStock y =
          openingStock x + (sum_list (map quantity old) / 30 + kg_for (item_id x) new / 30)"
        unfolding oy by simp
      from stock(1)[OF x] kg(2) kg'(1)[of "item_id x"] have i: "openingStock y \<in> \<int>"
        unfolding oy' by simp
      from stock(2)[OF x] small'(1)[of "item_id x"] sum'(2)
      have lo: "0 \<le> openingStock y + ?q / 30" unfolding oy' q30 by linarith
      from stock(3)[OF x] small'(2)[of "item_id x"] sum'(3) pow_50_pos
      have hi: "openingStock y + ?q / 30 < 2 ^ 53" unfolding oy' q30 pow_53 by linarith
      show "shift_bags (num_sub (total_kg new) (total_kg old)) (openingStock y) =
        openingStock y + ?q / 30"
        unfolding diff by (rule shift_bags_exact[OF qi qb i lo hi])
    qed
    have "item_docs (restock_update e old new d) =
        shift_stock (\<lambda>j. if j = kb then ?q / 30 else 0) (item_docs ?d2)"
      using update_bardana_reliable[OF rel d2,
          of "shift_bags (num_sub (total_kg new) (total_kg old))"]
        Some xs2 map_stock_shift[OF ex]
      by (simp add: restock_update_def Let_def)
    also have "\<dots> = shift_stock
        (\<lambda>k. (if bardana_id base = Some k then sum_list (map quantity old) / 30 else 0) +
              kg_for k new / 30 + (if k = kb then ?q / 30 else 0)) base"
      by (simp add: xs2 shift_stock_twice)
    also have "(\<lambda>k. (if bardana_id base = Some k then sum_list (map quantity old) / 30 else 0) +
                     kg_for k new / 30 + (if k = kb then ?q / 30 else 0)) =
        purchase_bags base new"
      by (rule ext) (simp add: purchase_bags_def Some diff_divide_distrib)
    finally show ?thesis by (simp add: with_purchase_def)
  qed
qed

text \<open>What the universal item receives on create, on whole bags.\<close>

lemma add_bags_total_whole:
  assumes w: "whole s" and bl: "bag_lines ls"
  shows "add_bags (total_kg ls) s = s + sum_list (map quantity ls) / 30"
proof -
  note lines = bag_lines_facts(1)[OF bl] and total = bag_lines_facts(2)[OF bl]
  note kg = bags_Ints[OF lines]
  from kg(4,5)[of 0] total
  have sum: "0 \<le> sum_list (map quantity ls)" "sum_list (map quantity ls) / 30 \<le> 2 ^ 50"
    by simp_all
  have tk: "total_kg ls = sum_list (map quantity ls)"
  proof (rule total_kg_sum[OF lines])
    from total pow_50_pos show "sum_list (map quantity ls) < 2 ^ 53"
      unfolding pow_53 by linarith
  qed
  from whole_bounds[OF w] sum(2) pow_50_pos
  have b: "s + sum_list (map quantity ls) / 30 < 2 ^ 53" unfolding pow_53 by linarith
  from whole_bounds[OF w] have n: "0 \<le> s" by simp
  show ?thesis unfolding tk by (rule add_bags_exact[OF kg(2) sum(1) whole_Ints[OF w] n b])
qed

subsection \<open>The purchase routes\<close>

lemma Purchase_save_valid:
  "purchase_valid e p \<Longrightarrow>
   Purchase_save e p d =
     Inr (p\<lparr>pu_totalAmount := sum_list (map (line_total e) (pu_items p))\<rparr>,
          d\<lparr>purchases := upsert purchase_id
                 (p\<lparr>pu_totalAmount := sum_list (map (line_total e) (pu_items p))\<rparr>) (purchases d)\<rparr>)"
  by (simp add: Purchase_save_def Let_def)

lemma Purchase_save_invalid:
  "\<not> purchase_valid e p \<Longrightarrow> Purchase_save e p d = Inl (ValidationError [])"
  by (simp add: Purchase_save_def)

text \<open>The create route: the request is refused, or the purchase is invalid, or the
  purchase is stored, the balance of its party raised and the stock taken in.\<close>

lemma post_purchase_refused:
  assumes "falsy_str (rq_supplierName rq) \<or> falsy_str (rq_pu_phoneNumber rq) \<or>
           rq_items rq = None \<or> falsy_str (rq_pu_date rq) \<or> rq_items rq = Some []"
  shows "snd (post_purchase e d rq) = d \<and> (\<exists>m. fst (post_purchase e d rq) = Err 400 m [])"
  using assms by (auto simp: post_purchase_def)

lemma post_purchase_accepted:
  assumes req: "\<not> falsy_str (rq_supplierName rq)" "\<not> falsy_str (rq_pu_phoneNumber rq)"
      "rq_items rq = Some items" "items \<noteq> []" "\<not> falsy_str (rq_pu_date rq)"
    and foc: "Party_findOrCreate (default_to [] (rq_supplierName rq))
                (default_to [] (rq_pu_phoneNumber rq)) (Some ''supplier'') d = (pty, d1)"
    and pur: "pur = new_purchase rq (next_bill_no e (purchases d)) (next_oid d1) (party_id pty)"
    and saved: "saved = pur\<lparr>pu_totalAmount := sum_list (map (line_total e) items)\<rparr>"
  shows "post_purchase e d rq =
     (if purchase_valid e pur
      then (case Party_updateBalance (party_id pty) (pu_totalAmount saved) OpAdd
                   (d1\<lparr>next_oid := Suc (next_oid d1),
                       purchases := upsert purchase_id saved (purchases d1)\<rparr>) of
              Inl err \<Rightarrow>
                (catch_response err ''Failed to create purchase'',
                 log_error ''Error creating purchase:''
                   (d1\<lparr>next_oid := Suc (next_oid d1),
                       purchases := upsert purchase_id saved (purchases d1)\<rparr>))
            | Inr d4 \<Rightarrow> (Json 201 (PurchaseData saved), stock_in e items d4))
      else (Err 400 ''Validation failed'' [],
            log_error ''Error creating purchase:'' (d1\<lparr>next_oid := Suc (next_oid d1)\<rparr>)))"
proof -
  have items: "pu_items pur = items" by (simp add: pur new_purchase_def req)
  show ?thesis
  proof (cases "purchase_valid e pur")
    case True
    from Purchase_save_valid[OF True, of "d1\<lparr>next_oid := Suc (next_oid d1)\<rparr>"] req foc True
    show ?thesis
      unfolding post_purchase_def saved items pur[symmetric]
      by (simp add: Let_def pur[symmetric] items)
  next
    case False
    from Purchase_save_invalid[OF False, of "d1\<lparr>next_oid := Suc (next_oid d1)\<rparr>"] req foc False
    show ?thesis
      unfolding post_purchase_def
      by (simp add: Let_def pur[symmetric])
  qed
qed

lemma Party_updateBalance_found:
  assumes "find (\<lambda>p. party_id p = pid) (parties d) = Some p"
  shows "Party_updateBalance pid amt opr d =
     Inr (d\<lparr>parties := replace_first (\<lambda>x. party_id x = pid)
                 (p\<lparr>balance := (case opr of OpAdd \<Rightarrow> balance p + amt
                                   | OpSubtract \<Rightarrow> balance p - amt | OpSet \<Rightarrow> amt)\<rparr>) (parties d),
             ledger_calls := ledger_calls d @ [(pid, amt, opr)]\<rparr>)"
  using assms by (simp add: Party_updateBalance_def Let_def)

lemma post_purchase_created:
  assumes ok: "post_purchase e d rq = (Json c x, d')"
  obtains items pty d1 p saved d4 where
    "rq_items rq = Some items"
    "Party_findOrCreate (default_to [] (rq_supplierName rq))
       (default_to [] (rq_pu_phoneNumber rq)) (Some ''supplier'') d = (pty, d1)"
    "find (\<lambda>x. party_id x = party_id pty) (parties d1) = Some p"
    "saved = (new_purchase rq (next_bill_no e (purchases d)) (next_oid d1) (party_id pty))
               \<lparr>pu_totalAmount := sum_list (map (line_total e) items)\<rparr>"
    "c = 201" "x = PurchaseData saved"
    "d4 = d1\<lparr>next_oid := Suc (next_oid d1),
              purchases := upsert purchase_id saved (purchases d1),
              parties := replace_first (\<lambda>x. party_id x = party_id pty)
                 (p\<lparr>balance := balance p + pu_totalAmount saved\<rparr>) (parties d1),
              ledger_calls := ledger_calls d1 @ [(party_id pty, pu_totalAmount saved, OpAdd)]\<rparr>"
    "d' = stock_in e items d4"
proof -
  have nr: "\<not> (falsy_str (rq_supplierName rq) \<or> falsy_str (rq_pu_phoneNumber rq) \<or>
           rq_items rq = None \<or> falsy_str (rq_pu_date rq) \<or> rq_items rq = Some [])"
  proof
    assume "falsy_str (rq_supplierName rq) \<or> falsy_str (rq_pu_phoneNumber rq) \<or>
           rq_items rq = None \<or> falsy_str (rq_pu_date rq) \<or> rq_items rq = Some []"
    from post_purchase_refused[OF this, of e d] ok show False by auto
  qed
  then obtain items where items: "rq_items rq = Some items" "items \<noteq> []"
    by (cases "rq_items rq") auto
  obtain pty d1 where foc: "Party_findOrCreate (default_to [] (rq_supplierName rq))
       (default_to [] (rq_pu_phoneNumber rq)) (Some ''supplier'') d = (pty, d1)"
    by (cases "Party_findOrCreate (default_to [] (rq_supplierName rq))
       (default_to [] (rq_pu_phoneNumber rq)) (Some ''supplier'') d")
  from Party_findOrCreate_found[OF foc] obtain p where
    p: "find (\<lambda>x. party_id x = party_id pty) (parties d1) = Some p"
    by (cases "find (\<lambda>x. party_id x = party_id pty) (parties d1)") auto
  define pur where "pur = new_purchase rq (next_bill_no e (purchases d)) (next_oid d1) (party_id pty)"
  define saved where "saved = pur\<lparr>pu_totalAmount := sum_list (map (line_total e) items)\<rparr>"
  define d3 where "d3 = d1\<lparr>next_oid := Suc (next_oid d1),
                       purchases := upsert purchase_id saved (purchases d1)\<rparr>"
  have p3: "find (\<lambda>x. party_id x = party_id pty) (parties d3) = Some p"
    using p by (simp add: d3_def)
  have eq: "post_purchase e d rq =
     (if purchase_valid e pur
      then (case Party_updateBalance (party_id pty) (pu_totalAmount saved) OpAdd d3 of
              Inl err \<Rightarrow>
                (catch_response err ''Failed to create purchase'',
                 log_error ''Error creating purchase:'' d3)
            | Inr d4 \<Rightarrow> (Json 201 (PurchaseData saved), stock_in e items d4))
      else (Err 400 ''Validation failed'' [],
            log_error ''Error creating purchase:'' (d1\<lparr>next_oid := Suc (next_oid d1)\<rparr>)))"
    unfolding d3_def
    using nr items foc by (intro post_purchase_accepted) (auto simp: pur_def saved_def)
  from eq ok have valid: "purchase_valid e pur" by (auto split: if_splits)
  from eq ok valid Party_updateBalance_found[OF p3, of "pu_totalAmount saved" OpAdd]
  have res: "c = 201" "x = PurchaseData saved"
    "d' = stock_in e items
       (d3\<lparr>parties := replace_first (\<lambda>x. party_id x = party_id pty)
                 (p\<lparr>balance := balance p + pu_totalAmount saved\<rparr>) (parties d3),
           ledger_calls := ledger_calls d3 @ [(party_id pty, pu_totalAmount saved, OpAdd)]\<rparr>)"
    by simp_all
  show ?thesis
  proof (rule that[OF items(1) foc p])
    show "saved = (new_purchase rq (next_bill_no e (purchases d)) (next_oid d1) (party_id pty))
               \<lparr>pu_totalAmount := sum_list (map (line_total e) items)\<rparr>"
      by (simp add: saved_def pur_def)
    show "c = 201" "x = PurchaseData saved" by (rule res)+
    show "d' = stock_in e items (d1\<lparr>next_oid := Suc (next_oid d1),
              purchases := upsert purchase_id saved (purchases d1),
              parties := replace_first (\<lambda>x. party_id x = party_id pty)
                 (p\<lparr>balance := balance p + pu_totalAmount saved\<rparr>) (parties d1),
              ledger_calls := ledger_calls d1 @ [(party_id pty, pu_totalAmount saved, OpAdd)]\<rparr>)"
      using res(3) by (simp add: d3_def)
  qed simp
qed

text \<open>The update route on a stored purchase.\<close>

lemma put_purchase_missing:
  "find (\<lambda>p. purchase_id p = i) (purchases d) = None \<Longrightarrow>
   put_purchase e d i rq = (Err 404 ''Purchase not found'' [], d)"
  by (simp add: put_purchase_def)

lemma put_purchase_invalid:
  assumes "find (\<lambda>p. purchase_id p = i) (purchases d) = Some pur"
    and "\<not> purchase_valid e (update_purchase_fields rq pur)"
  shows "put_purchase e d i rq =
     (Err 400 ''Validation failed'' [], log_error ''Error updating purchase:'' d)"
  using assms Purchase_save_invalid[OF assms(2), of d]
  by (simp add: put_purchase_def Let_def)

lemma put_purchase_valid:
  assumes "find (\<lambda>p. purchase_id p = i) (purchases d) = Some pur"
    and "purchase_valid e (update_purchase_fields rq pur)"
    and "saved = (update_purchase_fields rq pur)
            \<lparr>pu_totalAmount := sum_list (map (line_total e)
                                  (pu_items (update_purchase_fields rq pur)))\<rparr>"
    and "d1 = d\<lparr>purchases := upsert purchase_id saved (purchases d)\<rparr>"
  shows "put_purchase e d i rq =
     (case (case pu_partyId saved of
              None \<Rightarrow> Inr d1
            | Some pid \<Rightarrow>
                if pu_totalAmount pur \<noteq> pu_totalAmount saved
                then Party_updateBalance pid
                       (num_sub (pu_totalAmount saved) (pu_totalAmount pur)) OpAdd d1
                else Inr d1) of
        Inl err \<Rightarrow>
          (catch_response err ''Failed to update purchase'',
           log_error ''Error updating purchase:'' d1)
      | Inr d2 \<Rightarrow>
          (case rq_items rq of
             None \<Rightarrow> (Json 200 (PurchaseData saved), d2)
           | Some items \<Rightarrow>
               if items_changed e (pu_items pur) items
               then (Json 200 (PurchaseData saved), restock_update e (pu_items pur) items d2)
               else (Json 200 (PurchaseData saved), d2)))"
  using assms(1) Purchase_save_valid[OF assms(2), of d]
  unfolding put_purchase_def assms(3,4)
  by (simp add: Let_def)


lemma delete_purchase_found:
  assumes "find (\<lambda>p. purchase_id p = i) (purchases d) = Some pur"
  shows "delete_purchase e d i =
     (case (case pu_partyId pur of
              None \<Rightarrow> Inr (stock_out e (pu_items pur) d)
            | Some pid \<Rightarrow> Party_updateBalance pid (pu_totalAmount pur) OpSubtract
                            (stock_out e (pu_items pur) d)) of
        Inl err \<Rightarrow>
          (Err 500 ''Failed to delete purchase'' [],
           log_error ''Error deleting purchase:'' (stock_out e (pu_items pur) d))
      | Inr d3 \<Rightarrow>
          (Json 200 (Message ''Purchase deleted successfully''),
           d3\<lparr>purchases := remove_first (\<lambda>p. purchase_id p = i) (purchases d3)\<rparr>))"
  using assms by (simp add: delete_purchase_def Let_def)

subsection \<open>A purchase on top of a ledger and an inventory\<close>

lemma whole_lines_total:
  assumes "whole_lines e ls"
  shows "sum_list (map (line_total e) ls) \<in> \<int>" and "0 \<le> sum_list (map (line_total e) ls)"
    and "sum_list (map (line_total e) ls) \<le> 2 ^ 50" and "bag_lines ls"
proof -
  have w: "whole (line_total e l)" if "l \<in> set ls" for l
    using assms that by (simp add: whole_lines_def list_all_iff)
  show "sum_list (map (line_total e) ls) \<in> \<int>"
    by (rule sum_list_Ints) (use w whole_Ints in blast)
  show "0 \<le> sum_list (map (line_total e) ls)"
    by (rule sum_list_nonneg) (use w whole_bounds in blast)
  from assms show "sum_list (map (line_total e) ls) \<le> 2 ^ 50" and "bag_lines ls"
    by (simp_all add: whole_lines_def)
qed

lemma holds_after_create:
  assumes rel: "reliable e" and dist: "distinct (map item_id (item_docs d))"
    and ws: "whole_stocks (item_docs d)"
    and ok: "post_purchase e d rq = (Json c (PurchaseData pur), d')"
    and wr: "whole_request e rq"
  shows "holds_purchase e d' (purchase_id pur)
           (parties (snd (Party_findOrCreate (default_to [] (rq_supplierName rq))
                            (default_to [] (rq_pu_phoneNumber rq)) (Some ''supplier'') d)))
           (item_docs d)"
proof -
  from ok obtain items pty d1 p saved d4 where
    items: "rq_items rq = Some items"
    and foc: "Party_findOrCreate (default_to [] (rq_supplierName rq))
       (default_to [] (rq_pu_phoneNumber rq)) (Some ''supplier'') d = (pty, d1)"
    and p: "find (\<lambda>x. party_id x = party_id pty) (parties d1) = Some p"
    and saved: "saved = (new_purchase rq (next_bill_no e (purchases d)) (next_oid d1) (party_id pty))
               \<lparr>pu_totalAmount := sum_list (map (line_total e) items)\<rparr>"
    and x: "PurchaseData pur = PurchaseData saved"
    and d4: "d4 = d1\<lparr>next_oid := Suc (next_oid d1),
              purchases := upsert purchase_id saved (purchases d1),
              parties := replace_first (\<lambda>x. party_id x = party_id pty)
                 (p\<lparr>balance := balance p + pu_totalAmount saved\<rparr>) (parties d1),
              ledger_calls := ledger_calls d1 @ [(party_id pty, pu_totalAmount saved, OpAdd)]\<rparr>"
    and d': "d' = stock_in e items d4"
    by (rule post_purchase_created)
  from x have pur: "pur = saved" by simp
  have fields: "pu_items saved = items" "pu_partyId saved = Some (party_id pty)"
    by (simp_all add: saved new_purchase_def items)
  have docs: "item_docs d4 = item_docs d"
    using Party_findOrCreate_frame(1)[OF foc] by (simp add: d4)
  have "find (\<lambda>x. purchase_id x = purchase_id saved) (purchases d') = Some saved"
    by (simp add: d' d4 find_upsert_same)
  moreover have "parties d' = replace_first (\<lambda>x. party_id x = party_id pty)
                 (p\<lparr>balance := balance p + pu_totalAmount saved\<rparr>) (parties d1)"
    by (simp add: d' d4)
  moreover from wr have wl: "whole_lines e items" by (simp add: whole_request_def items)
  have "item_docs d' = with_purchase (item_docs d) (pu_items saved)"
    using stock_in_reliable[OF rel _ _ whole_lines_total(4)[OF wl], of d4] dist ws docs
    by (simp add: d' fields)
  moreover have "pu_totalAmount saved = sum_list (map (line_total e) (pu_items saved))"
    by (simp add: saved new_purchase_def items)
  moreover from wl have "whole_lines e (pu_items saved)" by (simp add: fields)
  ultimately show ?thesis
    unfolding holds_purchase_def pur using fields(2) p foc by auto
qed

lemma holds_after_update:
  assumes rel: "reliable e" and cmp: "json_tells_apart e" and dist: "distinct (map item_id xs)"
    and ws: "whole_stocks xs" and wr: "whole_request e rq"
    and holds: "holds_purchase e d i ps xs"
  shows "holds_purchase e (snd (put_purchase e d i rq)) i ps xs"
proof -
  from holds obtain pur pid bp where
    found: "find (\<lambda>p. purchase_id p = i) (purchases d) = Some pur"
    and party: "pu_partyId pur = Some pid"
    and bp: "find (\<lambda>p. party_id p = pid) ps = Some bp"
    and led: "parties d = replace_first (\<lambda>x. party_id x = pid)
                      (bp\<lparr>balance := balance bp + pu_totalAmount pur\<rparr>) ps"
    and inv: "item_docs d = with_purchase xs (pu_items pur)"
    and tot: "pu_totalAmount pur = sum_list (map (line_total e) (pu_items pur))"
    and wl: "whole_lines e (pu_items pur)"
    unfolding holds_purchase_def by blast
  from find_Some_holds[OF found] have i: "purchase_id pur = i" .
  from find_Some_holds[OF bp] have bpid: "party_id bp = pid" .
  show ?thesis
  proof (cases "purchase_valid e (update_purchase_fields rq pur)")
    case False
    from put_purchase_invalid[OF found False] holds show ?thesis
      by (simp add: holds_purchase_def)
  next
    case True
    define saved where "saved = (update_purchase_fields rq pur)
            \<lparr>pu_totalAmount := sum_list (map (line_total e)
                                  (pu_items (update_purchase_fields rq pur)))\<rparr>"
    define d1 where "d1 = d\<lparr>purchases := upsert purchase_id saved (purchases d)\<rparr>"
    have sf: "purchase_id saved = i" "pu_partyId saved = Some pid"
      "pu_items saved = default_to (pu_items pur) (rq_items rq)"
      "pu_totalAmount saved = sum_list (map (line_total e) (pu_items saved))"
      by (simp_all add: saved_def update_purchase_fields_def i party)
    have wl': "whole_lines e (pu_items saved)"
      using wl wr by (cases "rq_items rq") (simp_all add: sf(3) whole_request_def)
    note t0 = whole_lines_total(1-3)[OF wl, folded tot]
    note t1 = whole_lines_total(1-3)[OF wl', folded sf(4)]
    from t0(2,3) t1(2,3) pow_50_pos have "\<bar>pu_totalAmount saved - pu_totalAmount pur\<bar> < 2 ^ 53"
      unfolding pow_53 by linarith
    then have diff: "num_sub (pu_totalAmount saved) (pu_totalAmount pur) =
        pu_totalAmount saved - pu_totalAmount pur"
      by (rule num_sub_exact[OF t1(1) t0(1)])
    have here: "find (\<lambda>p. party_id p = pid) (parties d1) =
        Some (bp\<lparr>balance := balance bp + pu_totalAmount pur\<rparr>)"
      using bp bpid by (simp add: d1_def led find_replace_first_same[where f = party_id])
    define d2 where "d2 = (if pu_totalAmount pur \<noteq> pu_totalAmount saved
        then d1\<lparr>parties := replace_first (\<lambda>x. party_id x = pid)
                 (bp\<lparr>balance := balance bp + pu_totalAmount pur +
                        (pu_totalAmount saved - pu_totalAmount pur)\<rparr>) (parties d1),
               ledger_calls := ledger_calls d1 @
                 [(pid, pu_totalAmount saved - pu_totalAmount pur, OpAdd)]\<rparr>
        else d1)"
    have ledger: "(case pu_partyId saved of
              None \<Rightarrow> Inr d1
            | Some pid \<Rightarrow>
                if pu_totalAmount pur \<noteq> pu_totalAmount saved
                then Party_updateBalance pid (num_sub (pu_totalAmount saved) (pu_totalAmount pur))
                       OpAdd d1
                else Inr d1) = Inr d2"
      using Party_updateBalance_found[OF here, of "pu_totalAmount saved - pu_totalAmount pur" OpAdd]
      unfolding diff by (simp add: sf(1-3) d2_def)
    have eq: "put_purchase e d i rq =
          (case rq_items rq of
             None \<Rightarrow> (Json 200 (PurchaseData saved), d2)
           | Some items \<Rightarrow>
               if items_changed e (pu_items pur) items
               then (Json 200 (PurchaseData saved), restock_update e (pu_items pur) items d2)
               else (Json 200 (PurchaseData saved), d2))"
      using put_purchase_valid[OF found True saved_def d1_def] ledger by simp
    have p2: "parties d2 = replace_first (\<lambda>x. party_id x = pid)
                      (bp\<lparr>balance := balance bp + pu_totalAmount saved\<rparr>) ps"
      using bpid by (auto simp: d2_def d1_def led replace_first_twice)
    have s2: "find (\<lambda>p. purchase_id p = i) (purchases d2) = Some saved"
      using find_upsert_same[of purchase_id saved "purchases d"] by (simp add: d2_def d1_def sf)
    have x2: "item_docs d2 = with_purchase xs (pu_items pur)"
      by (simp add: d2_def d1_def inv)
    show ?thesis
    proof (cases "rq_items rq")
      case None
      with eq have "snd (put_purchase e d i rq) = d2" by simp
      moreover from None have "pu_items saved = pu_items pur" by (simp add: sf)
      ultimately show ?thesis
        unfolding holds_purchase_def using s2 sf(2,4) bp p2 x2 wl' by auto
    next
      case (Some items)
      then have si: "pu_items saved = items" by (simp add: sf)
      from wl' si have wi: "whole_lines e items" by simp
      show ?thesis
      proof (cases "items_changed e (pu_items pur) items")
        case False
        with cmp have same: "pu_items pur = items" by (auto simp: json_tells_apart_def)
        from False eq Some have "snd (put_purchase e d i rq) = d2" by simp
        then show ?thesis
          unfolding holds_purchase_def using s2 sf(2,4) bp p2 x2 wl' same si by auto
      next
        case True
        with eq Some
        have res: "snd (put_purchase e d i rq) = restock_update e (pu_items pur) items d2"
          by simp
        have "item_docs (restock_update e (pu_items pur) items d2) = with_purchase xs items"
          by (rule restock_update_reliable[OF rel dist ws whole_lines_total(4)[OF wl]
                whole_lines_total(4)[OF wi] x2])
        then show ?thesis
          unfolding holds_purchase_def res using s2 sf(2,4) bp p2 wl' si by auto
      qed
    qed
  qed
qed

lemma holds_undone_by_delete:
  assumes rel: "reliable e" and dist: "distinct (map item_id xs)" and ws: "whole_stocks xs"
    and holds: "holds_purchase e d i ps xs"
  shows "fst (delete_purchase e d i) = Json 200 (Message ''Purchase deleted successfully'') \<and>
         parties (snd (delete_purchase e d i)) = ps \<and>
         item_docs (snd (delete_purchase e d i)) = xs"
proof -
  from holds obtain pur pid bp where
    found: "find (\<lambda>p. purchase_id p = i) (purchases d) = Some pur"
    and party: "pu_partyId pur = Some pid"
    and bp: "find (\<lambda>p. party_id p = pid) ps = Some bp"
    and led: "parties d = replace_first (\<lambda>x. party_id x = pid)
                      (bp\<lparr>balance := balance bp + pu_totalAmount pur\<rparr>) ps"
    and inv: "item_docs d = with_purchase xs (pu_items pur)"
    and tot: "pu_totalAmount pur = sum_list (map (line_total e) (pu_items pur))"
    and wl: "whole_lines e (pu_items pur)"
    unfolding holds_purchase_def by blast
  from find_Some_holds[OF bp] have bpid: "party_id bp = pid" .
  let ?d2 = "stock_out e (pu_items pur) d"
  have here: "find (\<lambda>p. party_id p = pid) (parties ?d2) =
        Some (bp\<lparr>balance := balance bp + pu_totalAmount pur\<rparr>)"
    using bp bpid by (simp add: led find_replace_first_same[where f = party_id])
  have docs: "item_docs ?d2 = xs"
    by (rule stock_out_reliable[OF rel dist ws whole_lines_total(4)[OF wl] inv])
  have restored: "replace_first (\<lambda>x. party_id x = pid) bp ps = ps"
    using bp by (rule replace_first_id)
  from delete_purchase_found[OF found, of e] party
    Party_updateBalance_found[OF here, of "pu_totalAmount pur" OpSubtract]
  show ?thesis
    using bpid docs restored by (simp add: led replace_first_twice)
qed

lemma holds_run_updates:
  assumes rel: "reliable e" and cmp: "json_tells_apart e" and dist: "distinct (map item_id xs)"
    and ws: "whole_stocks xs" and wr: "list_all (whole_request e) rqs"
    and holds: "holds_purchase e d i ps xs"
  shows "holds_purchase e (run_updates e i rqs d) i ps xs"
  using wr holds
proof (induction rqs arbitrary: d)
  case Nil
  then show ?case by (simp add: run_updates_def)
next
  case (Cons rq rqs)
  from Cons.prems have "whole_request e rq" "list_all (whole_request e) rqs" by simp_all
  with holds_after_update[OF rel cmp dist ws _ Cons.prems(2), of rq] Cons.IH
  show ?case by (simp add: run_updates_def)
qed

subsection \<open>The round trip of a purchase\<close>

text \<open>
  C1, as amended. A purchase is created, updated any number of times (lines and other
  fields) and deleted, one request after the other. When the create succeeds, the delete
  succeeds too, and afterwards every item of the inventory, the universal item included,
  and every balance of the ledger is what it was before the create, provided that
  \<^item> the stocks are whole bags and the lines of every request are whole bags (quantities
    that are multiples of 30 kg, not negative) with whole amounts of money, and all of them
    stay within \<open>2 ^ 50\<close>, so that no sum, difference or division by 30 of the routes is
    rounded and no clamp at 0 is reached;
  \<^item> the balances of the ledger are whole and within \<open>2 ^ 50\<close> (the sums of the party
    model are exact in the embedding; on whole balances and totals they are exact on
    doubles as well);
  \<^item> the ids of the items are unique and the driver does not throw on the inventory;
  \<^item> the comparison of JSON texts of the update route reports lists of lines that differ
    as changed.

  An update that is refused leaves the store as it is and does not disturb the round trip.
\<close>

theorem purchase_round_trip:
  assumes "reliable e"
    and "json_tells_apart e"
    and "distinct (map item_id (item_docs d))"
    and "whole_stocks (item_docs d)"
    and "whole_ledger (parties d)"
    and "post_purchase e d rq = (Json c (PurchaseData pur), d1)"
    and "whole_request e rq"
    and "list_all (whole_request e) updates"
    and "d2 = run_updates e (purchase_id pur) updates d1"
  shows "fst (delete_purchase e d2 (purchase_id pur)) =
           Json 200 (Message ''Purchase deleted successfully'') \<and>
         item_docs (snd (delete_purchase e d2 (purchase_id pur))) = item_docs d \<and>
         (\<forall>q. balance_of (snd (delete_purchase e d2 (purchase_id pur))) q = balance_of d q)"
proof -
  let ?foc = "Party_findOrCreate (default_to [] (rq_supplierName rq))
                (default_to [] (rq_pu_phoneNumber rq)) (Some ''supplier'') d"
  have "holds_purchase e d1 (purchase_id pur) (parties (snd ?foc)) (item_docs d)"
    by (rule holds_after_create[OF assms(1,3,4,6,7)])
  then have "holds_purchase e d2 (purchase_id pur) (parties (snd ?foc)) (item_docs d)"
    unfolding assms(9) by (rule holds_run_updates[OF assms(1,2,3,4,8)])
  from holds_undone_by_delete[OF assms(1,3,4) this]
  have res: "fst (delete_purchase e d2 (purchase_id pur)) =
           Json 200 (Message ''Purchase deleted successfully'')"
    "parties (snd (delete_purchase e d2 (purchase_id pur))) = parties (snd ?foc)"
    "item_docs (snd (delete_purchase e d2 (purchase_id pur))) = item_docs d"
    by simp_all
  have "balance_of (snd (delete_purchase e d2 (purchase_id pur))) q = balance_of d q" for q
    using balance_of_parties[OF res(2), of q]
      Party_findOrCreate_balance_of[of _ _ _ d "fst ?foc" "snd ?foc" q]
    by simp
  with res show ?thesis by simp
qed

theorem purchase_round_trip_witness:
  "reliable env0 \<and> json_tells_apart env0 \<and>
   distinct (map item_id (item_docs stocked_store)) \<and>
   whole_stocks (item_docs stocked_store) \<and> whole_ledger (parties stocked_store) \<and>
   post_purchase env0 stocked_store sample_purchase_req =
     (Json 201 (PurchaseData sample_purchase), purchased_store) \<and>
   whole_request env0 sample_purchase_req \<and>
   list_all (whole_request env0) [new_lines_req, status_only_req] \<and>
   map openingStock (item_docs purchased_store) = [14, 14] \<and>
   balance_of purchased_store 20 = 660 \<and>
   map openingStock
     (item_docs (run_updates env0 21 [new_lines_req, status_only_req] purchased_store)) = [9, 9] \<and>
   item_docs (snd (delete_purchase env0
       (run_updates env0 21 [new_lines_req, status_only_req] purchased_store) 21)) =
     [rice, bardana] \<and>
   balance_of (snd (delete_purchase env0
       (run_updates env0 21 [new_lines_req, status_only_req] purchased_store) 21)) 20 = 0"
proof -
  have rel: "reliable env0" by (simp add: reliable_def env0_def)
  have cmp: "json_tells_apart env0" by (simp add: json_tells_apart_def env0_def)
  have dist: "distinct (map item_id (item_docs stocked_store))"
    by (simp add: stocked_store_def rice_def bardana_def)
  have ws: "whole_stocks (item_docs stocked_store)" by code_simp
  have wl: "whole_ledger (parties stocked_store)" by code_simp
  have created: "post_purchase env0 stocked_store sample_purchase_req =
     (Json 201 (PurchaseData sample_purchase), purchased_store)"
  proof -
    have "fst (post_purchase env0 stocked_store sample_purchase_req) =
        Json 201 (PurchaseData sample_purchase)"
      by code_simp
    then show ?thesis by (simp add: purchased_store_def prod_eq_iff)
  qed
  have wr: "whole_request env0 sample_purchase_req" by code_simp
  have wrs: "list_all (whole_request env0) [new_lines_req, status_only_req]" by code_simp
  have i: "purchase_id sample_purchase = 21" by (simp add: sample_purchase_def)
  have before: "item_docs stocked_store = [rice, bardana]" "balance_of stocked_store 20 = 0"
    by (simp_all add: stocked_store_def balance_of_def)
  have mid: "map openingStock (item_docs purchased_store) = [14, 14]"
    "balance_of purchased_store 20 = 660"
    "map openingStock
     (item_docs (run_updates env0 21 [new_lines_req, status_only_req] purchased_store)) = [9, 9]"
    by code_simp+
  from purchase_round_trip[OF rel cmp dist ws wl created wr wrs refl] i before
  have "item_docs (snd (delete_purchase env0
       (run_updates env0 21 [new_lines_req, status_only_req] purchased_store) 21)) =
     [rice, bardana] \<and>
   balance_of (snd (delete_purchase env0
       (run_updates env0 21 [new_lines_req, status_only_req] purchased_store) 21)) 20 = 0"
    by simp
  with rel cmp dist ws wl created wr wrs mid show ?thesis by simp
qed

text \<open>
  The claim as stated fails on a purchase that is not of whole bags: 10 kg of rice are
  bought and the purchase is deleted, both requests succeed, and the stock of rice, 4 bags
  before the create, is 3.9999999999999996 after the delete, because a third of a bag is
  not a double and the sum \<^verbatim>\<open>4 + 10 / 30\<close> is rounded before the third is taken back.
\<close>

theorem rounded_round_trip_counterexample:
  "reliable env0 \<and> json_tells_apart env0 \<and>
   distinct (map item_id (item_docs stocked_store)) \<and>
   stocks_nonneg (item_docs stocked_store) \<and> request_nonneg ten_kg_req \<and>
   map openingStock (item_docs stocked_store) = [4, 2] \<and>
   fst (post_purchase env0 stocked_store ten_kg_req) =
     Json 201 (PurchaseData (sample_purchase\<lparr>pu_items := [\<lparr>line_id = 10, quantity = 10, price = 2\<rparr>],
                                              pu_totalAmount := 20\<rparr>)) \<and>
   map openingStock (item_docs (snd (post_purchase env0 stocked_store ten_kg_req))) =
     [4878899596318037 / 2 ^ 50, 5254199565265579 / 2 ^ 51] \<and>
   fst (delete_purchase env0 (snd (post_purchase env0 stocked_store ten_kg_req)) 21) =
     Json 200 (Message ''Purchase deleted successfully'') \<and>
   map openingStock
     (item_docs (snd (delete_purchase env0 (snd (post_purchase env0 stocked_store ten_kg_req)) 21))) =
     [4 - 1 / 2 ^ 51, 2]"
proof -
  have "reliable env0" by (simp add: reliable_def env0_def)
  moreover have "json_tells_apart env0" by (simp add: json_tells_apart_def env0_def)
  moreover have "distinct (map item_id (item_docs stocked_store))"
    "stocks_nonneg (item_docs stocked_store)" "request_nonneg ten_kg_req"
    "map openingStock (item_docs stocked_store) = [4, 2]"
    by code_simp+
  moreover have "fst (post_purchase env0 stocked_store ten_kg_req) =
     Json 201 (PurchaseData (sample_purchase\<lparr>pu_items := [\<lparr>line_id = 10, quantity = 10, price = 2\<rparr>],
                                              pu_totalAmount := 20\<rparr>))"
    by code_simp
  moreover have "map openingStock (item_docs (snd (post_purchase env0 stocked_store ten_kg_req))) =
     [4878899596318037 / 2 ^ 50, 5254199565265579 / 2 ^ 51]"
    by code_simp
  moreover have "fst (delete_purchase env0 (snd (post_purchase env0 stocked_store ten_kg_req)) 21) =
     Json 200 (Message ''Purchase deleted successfully'')"
    by code_simp
  moreover have "map openingStock
     (item_docs (snd (delete_purchase env0 (snd (post_purchase env0 stocked_store ten_kg_req)) 21))) =
     [4 - 1 / 2 ^ 51, 2]"
    by code_simp
  ultimately show ?thesis by blast
qed

subsection \<open>Stocks that are not negative\<close>






lemma log_error_item_docs: "item_docs (log_error m d) = item_docs d"
  by (simp add: log_error_def)
















subsection \<open>Payment numbers\<close>

text \<open>
  C3. Sequential calls of \<^verbatim>\<open>generateNextPaymentNumber\<close> for one payment type, each followed
  by the save of a payment with the returned number, are claimed to produce strictly
  increasing suffixes, starting at 1. Ten creates of payment-in on the empty store do
  produce \<^verbatim>\<open>PAY-IN-1\<close> to \<^verbatim>\<open>PAY-IN-10\<close>. The next call returns \<^verbatim>\<open>PAY-IN-10\<close> again: the
  last payment is found by sorting the numbers as strings, where \<^verbatim>\<open>PAY-IN-9\<close> is the
  greatest, and the eleventh create is refused by the unique index.
\<close>

theorem payment_number_repeats_after_ten:
  "fst (generateNextPaymentNumber env0 ''payment-in'' empty_store) = ''PAY-IN-1'' \<and>
   map paymentNo (payments (repeat_post_payment env0 sample_payment_req 10 empty_store)) =
     [''PAY-IN-1'', ''PAY-IN-2'', ''PAY-IN-3'', ''PAY-IN-4'', ''PAY-IN-5'', ''PAY-IN-6'',
      ''PAY-IN-7'', ''PAY-IN-8'', ''PAY-IN-9'', ''PAY-IN-10''] \<and>
   fst (generateNextPaymentNumber env0 ''payment-in''
          (repeat_post_payment env0 sample_payment_req 10 empty_store)) = ''PAY-IN-10'' \<and>
   fst (post_payment env0 (repeat_post_payment env0 sample_payment_req 10 empty_store)
          sample_payment_req) = Err 500 ''Failed to create payment'' []"
  by code_simp

subsection \<open>Saving a purchase\<close>

lemma Purchase_save_Inr:
  "Purchase_save e p d = Inr (saved, d1) \<Longrightarrow>
   saved = p\<lparr>pu_totalAmount := sum_list (map (line_total e) (pu_items p))\<rparr> \<and>
   d1 = d\<lparr>purchases := upsert purchase_id saved (purchases d)\<rparr>"
  by (auto simp: Purchase_save_def Let_def split: if_splits)

lemma Purchase_save_Inl:
  "Purchase_save e p d = Inl err \<Longrightarrow> err = ValidationError []"
  by (auto simp: Purchase_save_def Let_def split: if_splits)

lemma patch_purchase_status_ledger:
  "parties (snd (patch_purchase_status e d i st)) = parties d \<and>
   ledger_calls (snd (patch_purchase_status e d i st)) = ledger_calls d"
proof (cases "find (\<lambda>p. purchase_id p = i) (purchases d)")
  case None
  then show ?thesis by (simp add: patch_purchase_status_def)
next
  case (Some pur)
  show ?thesis
  proof (cases "Purchase_save e (pur\<lparr>pu_status := default_to [] st\<rparr>) d")
    case (Inl err)
    with Some show ?thesis by (simp add: patch_purchase_status_def)
  next
    case (Inr r)
    obtain saved d1 where r: "r = (saved, d1)" by (cases r)
    from Purchase_save_Inr[OF Inr[unfolded r]]
    have "parties d1 = parties d" "ledger_calls d1 = ledger_calls d" by simp_all
    with Some Inr r show ?thesis by (simp add: patch_purchase_status_def)
  qed
qed

subsection \<open>Status changes and the ledger\<close>

text \<open>
  C4. A payment with a party is claimed to be reconciled when its status goes from
  completed to cancelled and again when it goes back to completed, with a net effect of
  zero on the party's balance. Both transitions do call \<^verbatim>\<open>updatePartyBalance\<close>, and both
  calls subtract the amount: for the payment of 500 created on the empty store the balance
  goes from -500 to -1000 to -1500, a net effect of -1000.
\<close>

theorem payment_status_round_trip_subtracts_twice:
  "find (\<lambda>p. payment_id p = 1) (payments paid_store) = Some sample_paid \<and>
   fst (patch_payment_status env0 paid_store 1 (Some ''cancelled'')) =
     Json 200 (PaymentData (sample_paid\<lparr>pay_status := ''cancelled''\<rparr>)) \<and>
   fst (patch_payment_status env0 cancelled_store 1 (Some ''completed'')) =
     Json 200 (PaymentData sample_paid) \<and>
   balance_of paid_store 0 = - 500 \<and>
   balance_of cancelled_store 0 = - 1000 \<and>
   balance_of recompleted_store 0 = - 1500 \<and>
   ledger_calls recompleted_store =
     ledger_calls paid_store @ [(0, 500, OpSubtract), (0, 500, OpSubtract)]"
  by code_simp

text \<open>
  C5, as amended. The status route of purchases never calls the ledger: whatever the
  transition, the parties and the list of ledger calls are as before. The status route of
  payments leaves both untouched on every transition other than completed to cancelled and
  cancelled to completed (so on every transition that involves pending); on those two, when
  it answers with success and the payment has a party, it makes one more ledger call, the
  subtraction of the amount.
\<close>

theorem status_routes_and_ledger:
  "parties (snd (patch_purchase_status e d j st)) = parties d \<and>
   ledger_calls (snd (patch_purchase_status e d j st)) = ledger_calls d \<and>
   (find (\<lambda>p. payment_id p = i) (payments d) = Some pay \<longrightarrow>
      (\<not> ((pay_status pay = ''completed'' \<and> s = ''cancelled'') \<or>
           (pay_status pay = ''cancelled'' \<and> s = ''completed'')) \<longrightarrow>
         parties (snd (patch_payment_status e d i (Some s))) = parties d \<and>
         ledger_calls (snd (patch_payment_status e d i (Some s))) = ledger_calls d) \<and>
      (((pay_status pay = ''completed'' \<and> s = ''cancelled'') \<or>
        (pay_status pay = ''cancelled'' \<and> s = ''completed'')) \<and>
       pay_partyId pay = Some pid \<and>
       patch_payment_status e d i (Some s) = (Json c x, d') \<longrightarrow>
         ledger_calls d' = ledger_calls d @ [(pid, amount pay, OpSubtract)]))"
  using patch_purchase_status_ledger[of e d j st]
    patch_payment_status_no_toggle[of i d pay s e]
    patch_payment_status_toggle[of i d pay s pid e c x d']
  by blast

theorem status_routes_and_ledger_witness:
  "find (\<lambda>p. payment_id p = 1) (payments paid_store) = Some sample_paid \<and>
   parties (snd (patch_payment_status env0 paid_store 1 (Some ''pending''))) = parties paid_store \<and>
   ledger_calls (snd (patch_payment_status env0 paid_store 1 (Some ''pending''))) =
     ledger_calls paid_store \<and>
   patch_payment_status env0 paid_store 1 (Some ''cancelled'') =
     (Json 200 (PaymentData (sample_paid\<lparr>pay_status := ''cancelled''\<rparr>)), cancelled_store) \<and>
   ledger_calls cancelled_store = ledger_calls paid_store @ [(0, 500, OpSubtract)] \<and>
   parties (snd (patch_purchase_status env0 purchased_store 21 (Some ''cancelled''))) =
     parties purchased_store"
proof -
  have found: "find (\<lambda>p. payment_id p = 1) (payments paid_store) = Some sample_paid"
    by code_simp
  have st: "pay_status sample_paid = ''completed''" "pay_partyId sample_paid = Some 0"
    "amount sample_paid = 500"
    by (simp_all add: sample_paid_def)
  have ok: "patch_payment_status env0 paid_store 1 (Some ''cancelled'') =
     (Json 200 (PaymentData (sample_paid\<lparr>pay_status := ''cancelled''\<rparr>)), cancelled_store)"
  proof -
    have "fst (patch_payment_status env0 paid_store 1 (Some ''cancelled'')) =
       Json 200 (PaymentData (sample_paid\<lparr>pay_status := ''cancelled''\<rparr>))"
      by code_simp
    then show ?thesis by (simp add: cancelled_store_def prod_eq_iff)
  qed
  note inst = status_routes_and_ledger[where e = env0 and d = paid_store and i = 1
      and pay = sample_paid]
  from inst[where s = "''pending''"] found st
  have pending: "parties (snd (patch_payment_status env0 paid_store 1 (Some ''pending''))) =
        parties paid_store \<and>
      ledger_calls (snd (patch_payment_status env0 paid_store 1 (Some ''pending''))) =
        ledger_calls paid_store"
    by simp
  from inst[where s = "''cancelled''" and pid = 0 and c = 200
      and x = "PaymentData (sample_paid\<lparr>pay_status := ''cancelled''\<rparr>)"
      and d' = cancelled_store] found st ok
  have toggled: "ledger_calls cancelled_store = ledger_calls paid_store @ [(0, 500, OpSubtract)]"
    by simp
  from status_routes_and_ledger[where e = env0 and d = purchased_store and j = 21
      and st = "Some ''cancelled''"]
  have purchase: "parties (snd (patch_purchase_status env0 purchased_store 21 (Some ''cancelled''))) =
     parties purchased_store"
    by simp
  from found pending ok toggled purchase show ?thesis by simp
qed

text \<open>
  The claim as stated fails for purchases: the completed purchase of the sample store is
  set to cancelled, the route answers with success, and no ledger call is made.
\<close>

theorem purchase_status_no_ledger_call_counterexample:
  "map pu_status (purchases purchased_store) = [''completed''] \<and>
   map pu_status (purchases (snd (patch_purchase_status env0 purchased_store 21
                                   (Some ''cancelled'')))) = [''cancelled''] \<and>
   ledger_calls purchased_store = [(20, 660, OpAdd)] \<and>
   ledger_calls (snd (patch_purchase_status env0 purchased_store 21 (Some ''cancelled''))) =
     [(20, 660, OpAdd)] \<and>
   parties (snd (patch_purchase_status env0 purchased_store 21 (Some ''cancelled''))) =
     parties purchased_store"
  by code_simp

subsection \<open>The sign of a payment\<close>

text \<open>
  C6. When a payment is created (the create route answers with success, the party being
  the one found or created for the request) and when its status is toggled between
  completed and cancelled, one ledger call is made: the subtraction of the payment's amount
  from the balance of its party. The type of the payment, payment-in or payment-out, plays
  no part.
\<close>

theorem payment_subtracts_amount:
  "(post_payment e d rq = (Json c (PaymentData saved), d') \<longrightarrow>
      (\<exists>pid. pay_partyId saved = Some pid \<and>
             rq_amount rq = Some (amount saved) \<and>
             pay_type saved = default_to ''payment-in'' (rq_type rq) \<and>
             ledger_calls d' = ledger_calls d @ [(pid, amount saved, OpSubtract)] \<and>
             balance_of d' pid = balance_of d pid - amount saved)) \<and>
   (find (\<lambda>p. payment_id p = i) (payments d) = Some pay \<and>
    ((pay_status pay = ''completed'' \<and> s = ''cancelled'') \<or>
     (pay_status pay = ''cancelled'' \<and> s = ''completed'')) \<and>
    pay_partyId pay = Some pid' \<and>
    patch_payment_status e d i (Some s) = (Json c' x', d'') \<longrightarrow>
      ledger_calls d'' = ledger_calls d @ [(pid', amount pay, OpSubtract)] \<and>
      balance_of d'' pid' = balance_of d pid' - amount pay)"
proof (intro conjI impI)
  assume ok: "post_payment e d rq = (Json c (PaymentData saved), d')"
  from post_payment_Json[OF ok] obtain a sv pid d3 where
    f: "rq_amount rq = Some a" "PaymentData saved = PaymentData sv" "amount sv = a"
      "pay_partyId sv = Some pid" "pay_type sv = default_to ''payment-in'' (rq_type rq)"
      "ledger_calls d3 = ledger_calls d" "\<forall>q. balance_of d3 q = balance_of d q"
      "Party_updateBalance pid a OpSubtract d3 = Inr d'"
    by blast
  from f(2) have sv: "sv = saved" by simp
  from Party_updateBalance_frame(6)[OF f(8)] Party_updateBalance_balance_of[OF f(8), of pid] f
  show "\<exists>pid. pay_partyId saved = Some pid \<and>
             rq_amount rq = Some (amount saved) \<and>
             pay_type saved = default_to ''payment-in'' (rq_type rq) \<and>
             ledger_calls d' = ledger_calls d @ [(pid, amount saved, OpSubtract)] \<and>
             balance_of d' pid = balance_of d pid - amount saved"
    by (auto simp: sv)
next
  assume h: "find (\<lambda>p. payment_id p = i) (payments d) = Some pay \<and>
    ((pay_status pay = ''completed'' \<and> s = ''cancelled'') \<or>
     (pay_status pay = ''cancelled'' \<and> s = ''completed'')) \<and>
    pay_partyId pay = Some pid' \<and>
    patch_payment_status e d i (Some s) = (Json c' x', d'')"
  then have t: "ledger_calls d'' = ledger_calls d @ [(pid', amount pay, OpSubtract)] \<and>
         balance_of d'' pid' = balance_of d pid' - amount pay \<and>
         (\<forall>q. q \<noteq> pid' \<longrightarrow> balance_of d'' q = balance_of d q)"
    using patch_payment_status_toggle[of i d pay s pid' e c' x' d''] by blast
  from t show "ledger_calls d'' = ledger_calls d @ [(pid', amount pay, OpSubtract)]" by simp
  from t show "balance_of d'' pid' = balance_of d pid' - amount pay" by simp
qed

theorem payment_subtracts_amount_witness:
  "post_payment env0 empty_store sample_payout_req =
     (Json 201 (PaymentData sample_paid_out), paid_out_store) \<and>
   ledger_calls paid_out_store = [(0, 500, OpSubtract)] \<and>
   balance_of paid_out_store 0 = - 500 \<and>
   find (\<lambda>p. payment_id p = 1) (payments cancelled_store) =
     Some (sample_paid\<lparr>pay_status := ''cancelled''\<rparr>) \<and>
   patch_payment_status env0 cancelled_store 1 (Some ''completed'') =
     (Json 200 (PaymentData sample_paid), recompleted_store) \<and>
   ledger_calls recompleted_store = ledger_calls cancelled_store @ [(0, 500, OpSubtract)] \<and>
   balance_of recompleted_store 0 = balance_of cancelled_store 0 - 500"
proof -
  have created: "post_payment env0 empty_store sample_payout_req =
     (Json 201 (PaymentData sample_paid_out), paid_out_store)"
  proof -
    have "fst (post_payment env0 empty_store sample_payout_req) =
        Json 201 (PaymentData sample_paid_out)"
      by code_simp
    then show ?thesis by (simp add: paid_out_store_def prod_eq_iff)
  qed
  have out: "pay_partyId sample_paid_out = Some 0" "amount sample_paid_out = 500"
    by (simp_all add: sample_paid_out_def sample_paid_def)
  have before: "ledger_calls empty_store = []" "balance_of empty_store 0 = 0"
    by (simp_all add: empty_store_def balance_of_def)
  from payment_subtracts_amount[THEN conjunct1, rule_format, OF created] out before
  have first: "ledger_calls paid_out_store = [(0, 500, OpSubtract)] \<and>
      balance_of paid_out_store 0 = - 500"
    by auto
  have found: "find (\<lambda>p. payment_id p = 1) (payments cancelled_store) =
     Some (sample_paid\<lparr>pay_status := ''cancelled''\<rparr>)"
    by code_simp
  have toggled: "patch_payment_status env0 cancelled_store 1 (Some ''completed'') =
     (Json 200 (PaymentData sample_paid), recompleted_store)"
  proof -
    have "fst (patch_payment_status env0 cancelled_store 1 (Some ''completed'')) =
        Json 200 (PaymentData sample_paid)"
      by code_simp
    then show ?thesis by (simp add: recompleted_store_def prod_eq_iff)
  qed
  have st: "pay_status (sample_paid\<lparr>pay_status := ''cancelled''\<rparr>) = ''cancelled''"
    "pay_partyId (sample_paid\<lparr>pay_status := ''cancelled''\<rparr>) = Some 0"
    "amount (sample_paid\<lparr>pay_status := ''cancelled''\<rparr>) = 500"
    by (simp_all add: sample_paid_def)
  from payment_subtracts_amount[THEN conjunct2, rule_format,
      where i = 1 and d = cancelled_store and s = "''completed''" and pid' = 0
      and pay = "sample_paid\<lparr>pay_status := ''cancelled''\<rparr>"
      and e = env0 and c' = 200 and x' = "PaymentData sample_paid" and d'' = recompleted_store]
    found toggled st
  have second: "ledger_calls recompleted_store =
        ledger_calls cancelled_store @ [(0, 500, OpSubtract)] \<and>
      balance_of recompleted_store 0 = balance_of cancelled_store 0 - 500"
    by simp
  from created first found toggled second show ?thesis by simp
qed

subsection \<open>Updating a payment\<close>



subsection \<open>The total of a stored transaction\<close>

lemma post_purchase_total:
  assumes "post_purchase e d rq = (Json c (PurchaseData pur), d')"
  shows "pu_totalAmount pur = sum_list (map (line_total e) (pu_items pur)) \<and>
         find (\<lambda>p. purchase_id p = purchase_id pur) (purchases d') = Some pur"
proof -
  from assms obtain items pty d1 p saved d4 where
    items: "rq_items rq = Some items"
    and foc: "Party_findOrCreate (default_to [] (rq_supplierName rq))
       (default_to [] (rq_pu_phoneNumber rq)) (Some ''supplier'') d = (pty, d1)"
    and p: "find (\<lambda>x. party_id x = party_id pty) (parties d1) = Some p"
    and saved: "saved = (new_purchase rq (next_bill_no e (purchases d)) (next_oid d1) (party_id pty))
               \<lparr>pu_totalAmount := sum_list (map (line_total e) items)\<rparr>"
    and x: "PurchaseData pur = PurchaseData saved"
    and d4: "d4 = d1\<lparr>next_oid := Suc (next_oid d1),
              purchases := upsert purchase_id saved (purchases d1),
              parties := replace_first (\<lambda>x. party_id x = party_id pty)
                 (p\<lparr>balance := balance p + pu_totalAmount saved\<rparr>) (parties d1),
              ledger_calls := ledger_calls d1 @ [(party_id pty, pu_totalAmount saved, OpAdd)]\<rparr>"
    and d': "d' = stock_in e items d4"
    by (rule post_purchase_created)
  note f = items saved x d4 d'
  from f(3) have pur: "pur = saved" by simp
  have "pu_items saved = items" by (simp add: f(1,2) new_purchase_def)
  then have "pu_totalAmount saved = sum_list (map (line_total e) (pu_items saved))"
    by (simp add: f(2))
  moreover have "find (\<lambda>p. purchase_id p = purchase_id saved) (purchases d') = Some saved"
    by (simp add: f(4,5) find_upsert_same)
  ultimately show ?thesis by (simp add: pur)
qed

lemma put_purchase_total:
  assumes "put_purchase e d i rq = (Json c (PurchaseData pur), d')"
  shows "pu_totalAmount pur = sum_list (map (line_total e) (pu_items pur)) \<and>
         find (\<lambda>p. purchase_id p = i) (purchases d') = Some pur"
proof (cases "find (\<lambda>p. purchase_id p = i) (purchases d)")
  case None
  from put_purchase_missing[OF None, of e rq] assms show ?thesis by simp
next
  case (Some old)
  from find_Some_holds[OF Some] have i: "purchase_id old = i" .
  show ?thesis
  proof (cases "purchase_valid e (update_purchase_fields rq old)")
    case False
    from put_purchase_invalid[OF Some False] assms show ?thesis by simp
  next
    case True
    define saved where "saved = (update_purchase_fields rq old)
            \<lparr>pu_totalAmount := sum_list (map (line_total e)
                                  (pu_items (update_purchase_fields rq old)))\<rparr>"
    define d1 where "d1 = d\<lparr>purchases := upsert purchase_id saved (purchases d)\<rparr>"
    define ledger where "ledger = (case pu_partyId saved of
              None \<Rightarrow> Inr d1
            | Some pid \<Rightarrow>
                if pu_totalAmount old \<noteq> pu_totalAmount saved
                then Party_updateBalance pid
                       (num_sub (pu_totalAmount saved) (pu_totalAmount old)) OpAdd d1
                else Inr d1)"
    note eq = put_purchase_valid[OF Some True saved_def d1_def, folded ledger_def]
    have id: "purchase_id saved = i" by (simp add: saved_def update_purchase_fields_def i)
    have total: "pu_totalAmount saved = sum_list (map (line_total e) (pu_items saved))"
      by (simp add: saved_def)
    show ?thesis
    proof (cases ledger)
      case (Inl err)
      with eq assms show ?thesis by (cases err) simp_all
    next
      case (Inr d2)
      then have "purchases d2 = purchases d1"
        by (auto simp: ledger_def split: option.splits if_splits
            dest: Party_updateBalance_frame(2))
      then have stored: "find (\<lambda>p. purchase_id p = i) (purchases d2) = Some saved"
        using find_upsert_same[of purchase_id saved "purchases d"] by (simp add: d1_def id)
      from eq Inr assms have "pur = saved \<and> purchases d' = purchases d2"
        by (auto split: option.splits if_splits)
      with stored total show ?thesis by simp
    qed
  qed
qed

lemma post_payment_total:
  assumes "post_payment e d rq = (Json c (PaymentData pay), d')"
  shows "pay_totalAmount pay =
           (if falsy_num (rq_totalAmount rq) then amount pay
            else default_to 0 (rq_totalAmount rq)) \<and>
         find (\<lambda>p. payment_id p = payment_id pay) (payments d') = Some pay"
proof -
  from post_payment_Json[OF assms] obtain a saved pid d3 where
    f: "rq_amount rq = Some a" "PaymentData pay = PaymentData saved" "amount saved = a"
      "pay_totalAmount saved =
             (if falsy_num (rq_totalAmount rq) then a else default_to 0 (rq_totalAmount rq))"
      "find (\<lambda>p. payment_id p = payment_id saved) (payments d3) = Some saved"
      "Party_updateBalance pid a OpSubtract d3 = Inr d'"
    by blast
  from f(2) have "pay = saved" by simp
  with f Party_updateBalance_frame(3)[OF f(6)] show ?thesis by simp
qed

lemma put_payment_total:
  assumes found: "find (\<lambda>p. payment_id p = i) (payments d) = Some old"
    and ok: "put_payment e d i rq = (Json c (PaymentData pay), d')"
  shows "pay = Payment_pre_save (update_payment_fields rq old) \<and>
         find (\<lambda>p. payment_id p = i) (payments d') = Some pay"
proof (cases "Payment_save (update_payment_fields rq old) d")
  case (Inl err)
  from put_payment_failed_save[OF found Inl, of e] ok show ?thesis by simp
next
  case (Inr r)
  obtain saved d1 where r: "r = (saved, d1)" by (cases r)
  from Payment_save_Inr[OF Inr[unfolded r]]
  have saved: "saved = Payment_pre_save (update_payment_fields rq old)"
    and d1: "d1 = d\<lparr>payments := upsert payment_id saved (payments d)\<rparr>" by simp_all
  from find_Some_holds[OF found] have "payment_id saved = i" by (simp add: saved)
  then have stored: "find (\<lambda>p. payment_id p = i) (payments d1) = Some saved"
    using find_upsert_same[of payment_id saved "payments d"] by (simp add: d1)
  note eq = put_payment_saved[OF found Inr[unfolded r], of e]
  have "pay = saved \<and> payments d' = payments d1"
  proof (cases "amount old \<noteq> amount saved \<and> pay_partyId saved \<noteq> None")
    case False
    with eq ok show ?thesis by auto
  next
    case True
    show ?thesis
    proof (cases "case pay_partyId old of
                 None \<Rightarrow> Inl PartyNotFound
               | Some opid \<Rightarrow> Party_updateBalance opid (amount old) OpAdd d1")
      case (Inl err)
      with eq ok True show ?thesis by (cases err) simp_all
    next
      case added: (Inr d2)
      then have p2: "payments d2 = payments d1"
        by (auto split: option.splits dest: Party_updateBalance_frame(3))
      show ?thesis
      proof (cases rule: updatePartyBalance_cases[of saved d2])
        case skipped
        with eq ok True added p2 show ?thesis by simp
      next
        case (applied pid d3)
        with eq ok True added p2 Party_updateBalance_frame(3)[OF applied(2)]
        show ?thesis by simp
      next
        case (thrown pid)
        with eq ok True added show ?thesis by simp
      qed
    qed
  qed
  with saved stored show ?thesis by simp
qed

text \<open>
  C7, as amended. A purchase that the create or the update route has stored carries the
  sum of the totals of its current lines as \<^verbatim>\<open>totalAmount\<close> (recomputed by the pre-save
  middleware of the purchase model). A payment stored by the create route carries its
  amount as \<^verbatim>\<open>totalAmount\<close> when the request gives none (or 0), and the request's value
  otherwise. A payment stored by the update route carries the request's \<^verbatim>\<open>totalAmount\<close>,
  or else the one it had before, and only a \<^verbatim>\<open>totalAmount\<close> of 0 is replaced by the
  amount: a new amount alone leaves a \<^verbatim>\<open>totalAmount\<close> that is not 0 as it was.
\<close>

theorem total_amount_on_save:
  "(post_purchase e d prq = (Json c (PurchaseData pur), d') \<longrightarrow>
      pu_totalAmount pur = sum_list (map (line_total e) (pu_items pur)) \<and>
      find (\<lambda>p. purchase_id p = purchase_id pur) (purchases d') = Some pur) \<and>
   (put_purchase e d j prq = (Json c (PurchaseData pur), d') \<longrightarrow>
      pu_totalAmount pur = sum_list (map (line_total e) (pu_items pur)) \<and>
      find (\<lambda>p. purchase_id p = j) (purchases d') = Some pur) \<and>
   (post_payment e d rq = (Json c (PaymentData pay), d') \<longrightarrow>
      pay_totalAmount pay =
        (if falsy_num (rq_totalAmount rq) then amount pay else default_to 0 (rq_totalAmount rq)) \<and>
      find (\<lambda>p. payment_id p = payment_id pay) (payments d') = Some pay) \<and>
   (find (\<lambda>p. payment_id p = i) (payments d) = Some old \<and>
    put_payment e d i rq = (Json c (PaymentData pay), d') \<longrightarrow>
      amount pay = default_to (amount old) (rq_amount rq) \<and>
      pay_totalAmount pay =
        (if default_to (pay_totalAmount old) (rq_totalAmount rq) = 0 \<and> amount pay \<noteq> 0
         then amount pay else default_to (pay_totalAmount old) (rq_totalAmount rq)) \<and>
      find (\<lambda>p. payment_id p = i) (payments d') = Some pay)"
proof (intro conjI impI)
  assume "post_purchase e d prq = (Json c (PurchaseData pur), d')"
  from post_purchase_total[OF this]
  show "pu_totalAmount pur = sum_list (map (line_total e) (pu_items pur))"
    "find (\<lambda>p. purchase_id p = purchase_id pur) (purchases d') = Some pur"
    by simp_all
next
  assume "put_purchase e d j prq = (Json c (PurchaseData pur), d')"
  from put_purchase_total[OF this]
  show "pu_totalAmount pur = sum_list (map (line_total e) (pu_items pur))"
    "find (\<lambda>p. purchase_id p = j) (purchases d') = Some pur"
    by simp_all
next
  assume "post_payment e d rq = (Json c (PaymentData pay), d')"
  from post_payment_total[OF this]
  show "pay_totalAmount pay =
        (if falsy_num (rq_totalAmount rq) then amount pay else default_to 0 (rq_totalAmount rq))"
    "find (\<lambda>p. payment_id p = payment_id pay) (payments d') = Some pay"
    by simp_all
next
  assume h: "find (\<lambda>p. payment_id p = i) (payments d) = Some old \<and>
    put_payment e d i rq = (Json c (PaymentData pay), d')"
  from put_payment_total[of i d old e rq c pay d'] h
  have p: "pay = Payment_pre_save (update_payment_fields rq old)"
    "find (\<lambda>p. payment_id p = i) (payments d') = Some pay"
    by simp_all
  show "amount pay = default_to (amount old) (rq_amount rq)" by (simp add: p(1))
  show "pay_totalAmount pay =
        (if default_to (pay_totalAmount old) (rq_totalAmount rq) = 0 \<and> amount pay \<noteq> 0
         then amount pay else default_to (pay_totalAmount old) (rq_totalAmount rq))"
    by (simp add: p(1) Payment_pre_save_totalAmount)
  show "find (\<lambda>p. payment_id p = i) (payments d') = Some pay" by (rule p(2))
qed

theorem total_amount_on_save_witness:
  "post_purchase env0 stocked_store sample_purchase_req =
     (Json 201 (PurchaseData sample_purchase), purchased_store) \<and>
   pu_totalAmount sample_purchase = 300 * 2 + 60 * 1 \<and>
   fst (put_purchase env0 purchased_store 21 new_lines_req) =
     Json 200 (PurchaseData (sample_purchase\<lparr>pu_items := default_to [] (rq_items new_lines_req),
                                              pu_totalAmount := 330\<rparr>)) \<and>
   post_payment env0 empty_store sample_payment_req =
     (Json 201 (PaymentData sample_paid), paid_store) \<and>
   rq_totalAmount sample_payment_req = None \<and>
   pay_totalAmount sample_paid = amount sample_paid \<and>
   find (\<lambda>p. payment_id p = 1) (payments paid_store) = Some sample_paid \<and>
   fst (put_payment env0 paid_store 1 (amount_only_req 300)) =
     Json 200 (PaymentData (sample_paid\<lparr>amount := 300\<rparr>)) \<and>
   pay_totalAmount (sample_paid\<lparr>amount := 300\<rparr>) = 500 \<and>
   find (\<lambda>p. payment_id p = 1)
     (payments (snd (put_payment env0 paid_store 1 (amount_only_req 300)))) =
     Some (sample_paid\<lparr>amount := 300\<rparr>)"
proof -
  have bought: "post_purchase env0 stocked_store sample_purchase_req =
     (Json 201 (PurchaseData sample_purchase), purchased_store)"
  proof -
    have "fst (post_purchase env0 stocked_store sample_purchase_req) =
        Json 201 (PurchaseData sample_purchase)"
      by code_simp
    then show ?thesis by (simp add: purchased_store_def prod_eq_iff)
  qed
  from total_amount_on_save[THEN conjunct1, rule_format, OF bought]
  have t1: "pu_totalAmount sample_purchase = 300 * 2 + 60 * 1"
    by (simp add: sample_purchase_def env0_def)
  have rebought: "fst (put_purchase env0 purchased_store 21 new_lines_req) =
     Json 200 (PurchaseData (sample_purchase\<lparr>pu_items := default_to [] (rq_items new_lines_req),
                                              pu_totalAmount := 330\<rparr>))"
    by code_simp
  then have rebought': "put_purchase env0 purchased_store 21 new_lines_req =
     (Json 200 (PurchaseData (sample_purchase\<lparr>pu_items := default_to [] (rq_items new_lines_req),
                                              pu_totalAmount := 330\<rparr>)),
      snd (put_purchase env0 purchased_store 21 new_lines_req))"
    by (simp add: prod_eq_iff)
  from total_amount_on_save[THEN conjunct2, THEN conjunct1, rule_format, OF rebought']
  have t2: "pu_totalAmount (sample_purchase\<lparr>pu_items := default_to [] (rq_items new_lines_req),
                                              pu_totalAmount := 330\<rparr>) =
      sum_list (map (line_total env0) (default_to [] (rq_items new_lines_req)))"
    by simp
  have paid: "post_payment env0 empty_store sample_payment_req =
     (Json 201 (PaymentData sample_paid), paid_store)"
  proof -
    have "fst (post_payment env0 empty_store sample_payment_req) =
        Json 201 (PaymentData sample_paid)"
      by code_simp
    then show ?thesis by (simp add: paid_store_def prod_eq_iff)
  qed
  have none: "rq_totalAmount sample_payment_req = None" "rq_totalAmount (amount_only_req 300) = None"
    "rq_amount (amount_only_req 300) = Some 300"
    by (simp_all add: sample_payment_req_def amount_only_req_def)
  from total_amount_on_save[THEN conjunct2, THEN conjunct2, THEN conjunct1, rule_format, OF paid]
    none
  have t3: "pay_totalAmount sample_paid = amount sample_paid"
    "find (\<lambda>p. payment_id p = 1) (payments paid_store) = Some sample_paid"
    by (simp_all add: sample_paid_def)
  have changed: "fst (put_payment env0 paid_store 1 (amount_only_req 300)) =
     Json 200 (PaymentData (sample_paid\<lparr>amount := 300\<rparr>))"
    by code_simp
  then have changed': "put_payment env0 paid_store 1 (amount_only_req 300) =
     (Json 200 (PaymentData (sample_paid\<lparr>amount := 300\<rparr>)),
      snd (put_payment env0 paid_store 1 (amount_only_req 300)))"
    by (simp add: prod_eq_iff)
  from total_amount_on_save[THEN conjunct2, THEN conjunct2, THEN conjunct2, rule_format,
      OF conjI[OF t3(2) changed']] none
  have t4: "pay_totalAmount (sample_paid\<lparr>amount := 300\<rparr>) = 500"
    "find (\<lambda>p. payment_id p = 1)
     (payments (snd (put_payment env0 paid_store 1 (amount_only_req 300)))) =
     Some (sample_paid\<lparr>amount := 300\<rparr>)"
    by (simp_all add: sample_paid_def)
  from bought t1 t2 rebought paid none(1) t3 changed t4 show ?thesis by simp
qed

text \<open>
  The claim as stated fails on the update path of payments: the payment of 500 is updated
  with a new amount of 300 and no \<^verbatim>\<open>totalAmount\<close>; the stored payment then has amount 300
  and \<^verbatim>\<open>totalAmount\<close> 500.
\<close>

theorem payment_total_stale_counterexample:
  "rq_totalAmount (amount_only_req 300) = None \<and>
   map amount (payments paid_store) = [500] \<and>
   map pay_totalAmount (payments paid_store) = [500] \<and>
   fst (put_payment env0 paid_store 1 (amount_only_req 300)) =
     Json 200 (PaymentData (sample_paid\<lparr>amount := 300\<rparr>)) \<and>
   map amount (payments (snd (put_payment env0 paid_store 1 (amount_only_req 300)))) = [300] \<and>
   map pay_totalAmount (payments (snd (put_payment env0 paid_store 1 (amount_only_req 300)))) =
     [500]"
  by code_simp

subsection \<open>Failures of the ledger and of the inventory\<close>




lemma inventory_faults_fields [simp]:
  "line_total (e\<lparr>item_find_fails := ff, bardana_find_fails := bf, item_save_fails := sf\<rparr>) =
     line_total e"
  "purchase_valid (e\<lparr>item_find_fails := ff, bardana_find_fails := bf, item_save_fails := sf\<rparr>) =
     purchase_valid e"
  "next_bill_no (e\<lparr>item_find_fails := ff, bardana_find_fails := bf, item_save_fails := sf\<rparr>) =
     next_bill_no e"
  by simp_all








subsection \<open>The universal item on create\<close>

lemma replace_first_keeps_find:
  assumes "find P xs = Some x0" and "Q y = Q x0" and "find Q xs = Some b" and "\<not> P b"
  shows "find Q (replace_first P y xs) = Some b"
  using assms by (induction xs) (auto split: if_splits)

lemma replace_first_moves_find:
  assumes "find Q xs = Some b" and "find P xs = Some b" and "Q y"
  shows "find Q (replace_first P y xs) = Some y"
  using assms
proof (induction xs)
  case Nil
  then show ?case by simp
next
  case (Cons a as)
  show ?case
  proof (cases "P a")
    case True
    with Cons.prems show ?thesis by simp
  next
    case False
    with Cons.prems(2) have pb: "find P as = Some b" by simp
    from find_Some_holds[OF pb] False have "a \<noteq> b" by auto
    with Cons.prems(1) have "\<not> Q a" "find Q as = Some b" by (auto split: if_splits)
    with False Cons.IH[OF _ pb Cons.prems(3)] show ?thesis by simp
  qed
qed

lemma replace_first_ids:
  "f y = k \<Longrightarrow> map f (replace_first (\<lambda>x. f x = k) y xs) = map f xs"
  by (induction xs) simp_all

lemma find_own_id:
  assumes "distinct (map item_id xs)" and "b \<in> set xs"
  shows "find (\<lambda>x. item_id x = item_id b) xs = Some b"
  using assms
proof (induction xs)
  case Nil
  then show ?case by simp
next
  case (Cons x xs)
  then show ?case by (cases "x = b") (auto simp: image_iff)
qed

lemma stock_try_keeps_bardana:
  assumes ok: "stock_try e f k xs = Inr ys"
    and b: "find (\<lambda>x. isUniversal x \<and> productName x = ''Bardana'') xs = Some b"
    and other: "item_id b \<noteq> k"
  shows "find (\<lambda>x. isUniversal x \<and> productName x = ''Bardana'') ys = Some b \<and>
         map item_id ys = map item_id xs"
proof (cases "find (\<lambda>x. item_id x = k) xs")
  case None
  with ok b show ?thesis by (simp add: stock_try_def split: if_splits)
next
  case (Some it)
  from find_Some_holds[OF Some] have k: "item_id it = k" .
  let ?it = "it\<lparr>openingStock := f (openingStock it)\<rparr>"
  from ok Some k have ys: "ys = replace_first (\<lambda>x. item_id x = k) ?it xs"
    by (simp add: stock_try_def Let_def split: if_splits)
  have "find (\<lambda>x. isUniversal x \<and> productName x = ''Bardana'') ys = Some b"
    unfolding ys by (rule replace_first_keeps_find[OF Some _ b other]) simp
  moreover have "map item_id ys = map item_id xs"
    unfolding ys using k by (intro replace_first_ids) simp
  ultimately show ?thesis by simp
qed

lemma increase_stock_keeps_bardana:
  assumes "find (\<lambda>x. isUniversal x \<and> productName x = ''Bardana'') (item_docs d) = Some b"
    and "line_id l \<noteq> item_id b"
  shows "find (\<lambda>x. isUniversal x \<and> productName x = ''Bardana'')
           (item_docs (increase_stock e l d)) = Some b \<and>
         map item_id (item_docs (increase_stock e l d)) = map item_id (item_docs d)"
proof (cases "stock_try e (add_bags (quantity l)) (line_id l) (item_docs d)")
  case (Inl err)
  with assms(1) show ?thesis by (simp add: increase_stock_def)
next
  case (Inr ys)
  from stock_try_keeps_bardana[OF Inr assms(1)] assms(2) Inr show ?thesis
    by (simp add: increase_stock_def)
qed

lemma fold_increase_keeps_bardana:
  assumes "find (\<lambda>x. isUniversal x \<and> productName x = ''Bardana'') (item_docs d) = Some b"
    and "\<forall>l \<in> set ls. line_id l \<noteq> item_id b"
  shows "find (\<lambda>x. isUniversal x \<and> productName x = ''Bardana'')
           (item_docs (fold (increase_stock e) ls d)) = Some b \<and>
         map item_id (item_docs (fold (increase_stock e) ls d)) = map item_id (item_docs d)"
  using assms
proof (induction ls arbitrary: d)
  case Nil
  then show ?case by simp
next
  case (Cons l ls)
  from Cons.prems(2) have l: "line_id l \<noteq> item_id b" and ls: "\<forall>l \<in> set ls. line_id l \<noteq> item_id b"
    by simp_all
  from increase_stock_keeps_bardana[OF Cons.prems(1) l, of e]
  have step: "find (\<lambda>x. isUniversal x \<and> productName x = ''Bardana'')
           (item_docs (increase_stock e l d)) = Some b"
    "map item_id (item_docs (increase_stock e l d)) = map item_id (item_docs d)"
    by simp_all
  from Cons.IH[OF step(1) ls] step(2) show ?case by simp
qed

lemma update_bardana_found:
  assumes dist: "distinct (map item_id (item_docs d))"
    and b: "find (\<lambda>x. isUniversal x \<and> productName x = ''Bardana'') (item_docs d) = Some b"
    and ok: "\<not> bardana_find_fails e" "\<not> item_save_fails e (b\<lparr>openingStock := f (openingStock b)\<rparr>)"
  shows "find (\<lambda>x. isUniversal x \<and> productName x = ''Bardana'')
           (item_docs (update_bardana e f m d)) = Some (b\<lparr>openingStock := f (openingStock b)\<rparr>)"
proof -
  let ?b = "b\<lparr>openingStock := f (openingStock b)\<rparr>"
  from b ok have "item_docs (update_bardana e f m d) =
      replace_first (\<lambda>x. item_id x = item_id b) ?b (item_docs d)"
    by (simp add: update_bardana_def bardana_try_def Let_def)
  moreover have "find (\<lambda>x. isUniversal x \<and> productName x = ''Bardana'')
      (replace_first (\<lambda>x. item_id x = item_id b) ?b (item_docs d)) = Some ?b"
  proof (rule replace_first_moves_find[OF b])
    show "find (\<lambda>x. item_id x = item_id b) (item_docs d) = Some b"
      by (rule find_own_id[OF dist find_Some_mem[OF b]])
    from find_Some_holds[OF b] show "isUniversal ?b \<and> productName ?b = ''Bardana''" by simp
  qed
  ultimately show ?thesis by simp
qed

text \<open>
  C10, as amended. When a purchase is created and the universal item exists (and its own
  update does not throw), its stock rises by the total of the quantities of all lines,
  divided by 30, provided no line names the universal item itself. Whether the id of a line
  resolves to an item, and whether the adjustment of a line throws, makes no difference: the
  total counts every line. The total, the division and the addition are those of JavaScript
  numbers; on whole bags they are the exact ones.
\<close>

theorem bardana_rises_by_total:
  assumes "post_purchase e d rq = (Json c x, d')"
    and "rq_items rq = Some items"
    and "distinct (map item_id (item_docs d))"
    and "find (\<lambda>x. isUniversal x \<and> productName x = ''Bardana'') (item_docs d) = Some b"
    and "\<forall>l \<in> set items. line_id l \<noteq> item_id b"
    and "\<not> bardana_find_fails e"
    and "\<not> item_save_fails e (b\<lparr>openingStock := add_bags (total_kg items) (openingStock b)\<rparr>)"
  shows "find (\<lambda>x. isUniversal x \<and> productName x = ''Bardana'') (item_docs d') =
           Some (b\<lparr>openingStock := add_bags (total_kg items) (openingStock b)\<rparr>) \<and>
         (whole (openingStock b) \<and> bag_lines items \<longrightarrow>
            add_bags (total_kg items) (openingStock b) =
            openingStock b + sum_list (map quantity items) / 30)"
proof -
  from post_purchase_created[OF assms(1)] obtain items' pty d1 p saved d4 where
    f: "rq_items rq = Some items'"
      "Party_findOrCreate (default_to [] (rq_supplierName rq))
       (default_to [] (rq_pu_phoneNumber rq)) (Some ''supplier'') d = (pty, d1)"
      "d4 = d1\<lparr>next_oid := Suc (next_oid d1),
              purchases := upsert purchase_id saved (purchases d1),
              parties := replace_first (\<lambda>x. party_id x = party_id pty)
                 (p\<lparr>balance := balance p + pu_totalAmount saved\<rparr>) (parties d1),
              ledger_calls := ledger_calls d1 @ [(party_id pty, pu_totalAmount saved, OpAdd)]\<rparr>"
      "d' = stock_in e items' d4"
    by metis
  from f(1) assms(2) have same: "items' = items" by simp
  from f(3) Party_findOrCreate_frame(1)[OF f(2)] have docs: "item_docs d4 = item_docs d" by simp
  let ?d5 = "fold (increase_stock e) items d4"
  from fold_increase_keeps_bardana[of d4 b items e] assms(4,5) docs
  have loop: "find (\<lambda>x. isUniversal x \<and> productName x = ''Bardana'') (item_docs ?d5) = Some b"
    "map item_id (item_docs ?d5) = map item_id (item_docs d)"
    by simp_all
  from loop(2) assms(3) have dist: "distinct (map item_id (item_docs ?d5))" by simp
  from update_bardana_found[OF dist loop(1), of e "add_bags (total_kg items)"] assms(6,7)
  have "find (\<lambda>x. isUniversal x \<and> productName x = ''Bardana'') (item_docs d') =
           Some (b\<lparr>openingStock := add_bags (total_kg items) (openingStock b)\<rparr>)"
    by (simp add: f(4) same stock_in_def)
  then show ?thesis by (simp add: add_bags_total_whole)
qed

theorem bardana_rises_by_total_witness:
  "post_purchase env0 stocked_store sample_purchase_req =
     (Json 201 (PurchaseData sample_purchase), purchased_store) \<and>
   find (\<lambda>x. item_id x = 99) (item_docs stocked_store) = None \<and>
   find (\<lambda>x. isUniversal x \<and> productName x = ''Bardana'') (item_docs stocked_store) =
     Some bardana \<and>
   whole (openingStock bardana) \<and>
   bag_lines [\<lparr>line_id = 10, quantity = 300, price = 2\<rparr>,
              \<lparr>line_id = 99, quantity = 60, price = 1\<rparr>] \<and>
   total_kg [\<lparr>line_id = 10, quantity = 300, price = 2\<rparr>,
             \<lparr>line_id = 99, quantity = 60, price = 1\<rparr>] / 30 = 12 \<and>
   find (\<lambda>x. isUniversal x \<and> productName x = ''Bardana'') (item_docs purchased_store) =
     Some (bardana\<lparr>openingStock := 2 + 12\<rparr>)"
proof -
  have created: "post_purchase env0 stocked_store sample_purchase_req =
     (Json 201 (PurchaseData sample_purchase), purchased_store)"
  proof -
    have "fst (post_purchase env0 stocked_store sample_purchase_req) =
        Json 201 (PurchaseData sample_purchase)"
      by code_simp
    then show ?thesis by (simp add: purchased_store_def prod_eq_iff)
  qed
  have items: "rq_items sample_purchase_req =
      Some [\<lparr>line_id = 10, quantity = 300, price = 2\<rparr>, \<lparr>line_id = 99, quantity = 60, price = 1\<rparr>]"
    by (simp add: sample_purchase_req_def)
  have dist: "distinct (map item_id (item_docs stocked_store))"
    by (simp add: stocked_store_def rice_def bardana_def)
  have missing: "find (\<lambda>x. item_id x = 99) (item_docs stocked_store) = None"
    by (simp add: stocked_store_def rice_def bardana_def)
  have b: "find (\<lambda>x. isUniversal x \<and> productName x = ''Bardana'') (item_docs stocked_store) =
     Some bardana"
    by (simp add: stocked_store_def rice_def bardana_def)
  have other: "\<forall>l \<in> set [\<lparr>line_id = 10, quantity = 300, price = 2\<rparr>,
                             \<lparr>line_id = 99, quantity = 60, price = (1::rat)\<rparr>].
                 line_id l \<noteq> item_id bardana"
    by (simp add: bardana_def)
  have drv: "\<not> bardana_find_fails env0"
    "\<not> item_save_fails env0 (bardana\<lparr>openingStock := add_bags
        (total_kg [\<lparr>line_id = 10, quantity = 300, price = 2\<rparr>,
                   \<lparr>line_id = 99, quantity = 60, price = 1\<rparr>]) (openingStock bardana)\<rparr>)"
    by (simp_all add: env0_def)
  have w: "whole (openingStock bardana)" by code_simp
  have bl: "bag_lines [\<lparr>line_id = 10, quantity = 300, price = 2\<rparr>,
                       \<lparr>line_id = 99, quantity = 60, price = 1\<rparr>]"
    by code_simp
  have total: "total_kg [\<lparr>line_id = 10, quantity = 300, price = 2\<rparr>,
             \<lparr>line_id = 99, quantity = 60, price = 1\<rparr>] / 30 = 12"
    by code_simp
  from bardana_rises_by_total[OF created items dist b other drv] w bl
  have "find (\<lambda>x. isUniversal x \<and> productName x = ''Bardana'') (item_docs purchased_store) =
     Some (bardana\<lparr>openingStock := 2 + 12\<rparr>)"
    by (simp add: bardana_def)
  with created missing b w bl total show ?thesis by simp
qed

text \<open>
  The claim as stated fails when a line names the universal item: 30 kg of it are bought,
  the total of the lines divided by 30 is 1, and its stock rises by 2, from 2 to 4, once in
  the loop over the lines and once more as the universal item.
\<close>

theorem bardana_line_counted_twice_counterexample:
  "rq_items bardana_purchase_req = Some [\<lparr>line_id = 11, quantity = 30, price = 1\<rparr>] \<and>
   total_kg [\<lparr>line_id = 11, quantity = 30, price = 1\<rparr>] / 30 = 1 \<and>
   find (\<lambda>x. isUniversal x \<and> productName x = ''Bardana'') (item_docs stocked_store) =
     Some (bardana\<lparr>openingStock := 2\<rparr>) \<and>
   fst (post_purchase env0 stocked_store bardana_purchase_req) =
     Json 201 (PurchaseData (sample_purchase\<lparr>pu_items := [\<lparr>line_id = 11, quantity = 30, price = 1\<rparr>],
                                              pu_totalAmount := 30\<rparr>)) \<and>
   find (\<lambda>x. isUniversal x \<and> productName x = ''Bardana'')
     (item_docs (snd (post_purchase env0 stocked_store bardana_purchase_req))) =
     Some (bardana\<lparr>openingStock := 4\<rparr>)"
  by code_simp

end
